theory Spec2Isabelle
  imports Complex_Main
begin

section \<open>Numbers, exceptions and the numpy reductions the processor calls\<close>

text \<open>
  The processor of \<^verbatim>\<open>biometrics/stream/biometric_processor.py\<close> computes on Python and
  numpy floats. A float is modelled as either the not-a-number value, which the code tests
  for (\<^verbatim>\<open>np.isnan\<close>) and which \<^verbatim>\<open>np.mean\<close> of an empty list returns, or a real
  number. Arithmetic on the real part is exact: rounding, overflow and the infinities of
  IEEE-754 are not modelled. An operation with a NaN operand gives NaN, a comparison with a
  NaN operand is false, as in Python.
\<close>

datatype pyfloat = NaN | Fin real

fun fadd :: "pyfloat \<Rightarrow> pyfloat \<Rightarrow> pyfloat" where
  "fadd (Fin a) (Fin b) = Fin (a + b)"
| "fadd _ _ = NaN"

fun fsub :: "pyfloat \<Rightarrow> pyfloat \<Rightarrow> pyfloat" where
  "fsub (Fin a) (Fin b) = Fin (a - b)"
| "fsub _ _ = NaN"

fun fmul :: "pyfloat \<Rightarrow> pyfloat \<Rightarrow> pyfloat" where
  "fmul (Fin a) (Fin b) = Fin (a * b)"
| "fmul _ _ = NaN"

text \<open>Division by the literal 2, the only division the processor performs.\<close>

fun fhalf :: "pyfloat \<Rightarrow> pyfloat" where
  "fhalf (Fin a) = Fin (a / 2)"
| "fhalf NaN = NaN"

fun fabs :: "pyfloat \<Rightarrow> pyfloat" where
  "fabs (Fin a) = Fin \<bar>a\<bar>"
| "fabs NaN = NaN"

fun flt :: "pyfloat \<Rightarrow> pyfloat \<Rightarrow> bool" where
  "flt (Fin a) (Fin b) = (a < b)"
| "flt _ _ = False"

fun fgt :: "pyfloat \<Rightarrow> pyfloat \<Rightarrow> bool" where
  "fgt (Fin a) (Fin b) = (a > b)"
| "fgt _ _ = False"

definition isnan :: "pyfloat \<Rightarrow> bool" where
  "isnan x = (x = NaN)"

text \<open>
  The exceptions that can leave a method of the processor, and the ones the black-box
  signal-processing stage may raise (any subclass of \<^verbatim>\<open>Exception\<close>).
\<close>

datatype exn =
    ZeroDivisionError
  | TypeError
  | ValueError
  | IndexError
  | AttributeError
  | OverflowError
  | OtherException string

text \<open>
  \<^verbatim>\<open>finite_values\<close> reads a list of floats as reals, if none of them is NaN.
\<close>

fun finite_values :: "pyfloat list \<Rightarrow> real list option" where
  "finite_values [] = Some []"
| "finite_values (NaN # xs) = None"
| "finite_values (Fin r # xs) = map_option ((#) r) (finite_values xs)"

definition mean :: "real list \<Rightarrow> real" where
  "mean rs = sum_list rs / real (length rs)"

text \<open>
  \<^verbatim>\<open>np.mean\<close>: the arithmetic mean; NaN (with a warning, no exception) for an empty
  input, and NaN when an element is NaN.
\<close>

definition np_mean :: "pyfloat list \<Rightarrow> pyfloat" where
  "np_mean xs =
     (case finite_values xs of
        None \<Rightarrow> NaN
      | Some rs \<Rightarrow> if rs = [] then NaN else Fin (mean rs))"

text \<open>\<^verbatim>\<open>np.std\<close> with its default \<^verbatim>\<open>ddof=0\<close>: the population standard deviation.\<close>

definition np_std :: "pyfloat list \<Rightarrow> pyfloat" where
  "np_std xs =
     (case finite_values xs of
        None \<Rightarrow> NaN
      | Some rs \<Rightarrow>
          if rs = [] then NaN
          else Fin (sqrt (mean (map (\<lambda>r. (r - mean rs)\<^sup>2) rs))))"

text \<open>
  \<^verbatim>\<open>np.percentile\<close> with its default linear interpolation: on the sorted data of
  length \<open>n\<close> the \<open>q\<close>-th percentile sits at the virtual index \<open>q / 100 * (n - 1)\<close> and is
  interpolated between the two neighbouring elements. A \<open>q\<close> outside \<open>[0, 100]\<close> raises
  ValueError. The empty input is read out of range by numpy; it is modelled as raising.
\<close>

definition linear_percentile :: "real list \<Rightarrow> real \<Rightarrow> real" where
  "linear_percentile rs q =
     (let srt = sort rs;
          h = q / 100 * real (length rs - 1);
          lo = nat \<lfloor>h\<rfloor>;
          hi = min (lo + 1) (length rs - 1)
      in srt ! lo + (h - real lo) * (srt ! hi - srt ! lo))"

definition np_percentile :: "pyfloat list \<Rightarrow> real \<Rightarrow> exn + pyfloat" where
  "np_percentile xs q =
     (if q < 0 \<or> 100 < q then Inl ValueError
      else if xs = [] then Inl IndexError
      else case finite_values xs of
             None \<Rightarrow> Inr NaN
           | Some rs \<Rightarrow> Inr (Fin (linear_percentile rs q)))"

text \<open>
  A signal as the signal-processing stage sees it: the samples. Raw piezo samples are
  integers.
\<close>

type_synonym signal = "int list"

text \<open>
  A signal as \<^verbatim>\<open>np.ptp\<close> sees it: an array of integer samples with its dtype, the
  samples lying in the range of the dtype. \<open>Unsigned\<close> stands for the unsigned integer
  dtypes.
\<close>

datatype dtype = Int8 | Int16 | Int32 | Int64 | Unsigned

record ndarray =
  nd_dtype :: dtype
  nd_samples :: "int list"

fun signed_bits :: "dtype \<Rightarrow> nat option" where
  "signed_bits Int8 = Some 8"
| "signed_bits Int16 = Some 16"
| "signed_bits Int32 = Some 32"
| "signed_bits Int64 = Some 64"
| "signed_bits Unsigned = None"

text \<open>Two's-complement wrap-around of an integer into \<open>bits\<close> bits.\<close>

definition wrap_signed :: "nat \<Rightarrow> int \<Rightarrow> int" where
  "wrap_signed bits x = (x + 2 ^ (bits - 1)) mod 2 ^ bits - 2 ^ (bits - 1)"

text \<open>
  \<^verbatim>\<open>np.ptp\<close>: maximum minus minimum, ValueError on an empty array. The subtraction is
  done in the dtype of the array: for a signed integer dtype it wraps around (the range
  4000000000 of two int32 samples comes out as -294967296); for an unsigned dtype the
  difference of maximum and minimum cannot wrap.
\<close>

definition np_ptp :: "ndarray \<Rightarrow> exn + int" where
  "np_ptp a =
     (if nd_samples a = [] then Inl ValueError
      else
        (let d = Max (set (nd_samples a)) - Min (set (nd_samples a))
         in Inr (case signed_bits (nd_dtype a) of
                   None \<Rightarrow> d
                 | Some bits \<Rightarrow> wrap_signed bits d)))"

text \<open>
  A deque with \<^verbatim>\<open>maxlen\<close>: appending to a full deque evicts from the left; a deque of
  capacity 0 stays empty.
\<close>

definition deque_append :: "nat \<Rightarrow> 'a list \<Rightarrow> 'a \<Rightarrow> 'a list" where
  "deque_append maxlen xs x = drop (length xs + 1 - maxlen) (xs @ [x])"

text \<open>
  The Python slice \<^verbatim>\<open>xs[k:]\<close>: a negative \<open>k\<close> counts from the end (and is cut at the
  start of the list), a non-negative \<open>k\<close> counts from the start, so \<^verbatim>\<open>xs[-0:]\<close> is the
  whole list.
\<close>

definition slice_from :: "int \<Rightarrow> 'a list \<Rightarrow> 'a list" where
  "slice_from k xs =
     (if k < 0 then drop (nat (int (length xs) + k)) xs else drop (nat k) xs)"

section \<open>The data model\<close>

text \<open>The dictionary returned by the beat extraction (\<^verbatim>\<open>heart.heartpy.process\<close>).\<close>

record raw_measurement =
  bpm :: pyfloat
  sdnn :: pyfloat
  breathingrate :: pyfloat

text \<open>The \<^verbatim>\<open>Measurement\<close> dictionary; its key \<^verbatim>\<open>side\<close> is the field \<open>m_side\<close>.\<close>

record measurement =
  m_side :: string
  timestamp :: int
  heart_rate :: pyfloat
  hrv :: pyfloat
  breathing_rate :: pyfloat

text \<open>
  The dictionary appended to \<^verbatim>\<open>debug_measurements\<close> (lines 263-274): the keys of the last
  combined measurement, with \<^verbatim>\<open>heart_rate\<close> overwritten by the later key of the literal,
  and the trace keys.
\<close>

record debug_measurement =
  dbg_side :: string
  dbg_timestamp :: int
  dbg_heart_rate :: pyfloat
  dbg_hrv :: pyfloat
  dbg_breathing_rate :: pyfloat
  dbg_last_combined_measurement :: string
  dbg_current_ts :: string
  dbg_last_heart_rates :: "pyfloat list"
  dbg_hr_moving_avg :: "pyfloat option"
  dbg_lower_bound :: "pyfloat option"
  dbg_upper_bound :: "pyfloat option"
  dbg_hr_std_2 :: "pyfloat option"
  dbg_length :: nat

record runtime_params =
  rp_window :: real
  rp_slide_by :: real
  rp_moving_avg_size :: nat
  rp_hr_std_range :: "real \<times> real"
  rp_hr_percentile :: "real \<times> real"
  rp_signal_percentile :: "real \<times> real"
  rp_window_size :: real

text \<open>
  The attributes of a \<^verbatim>\<open>BiometricProcessor\<close>. \<open>epoch\<close> is unset until the first
  \<^verbatim>\<open>calculate_vitals\<close>. \<open>moving_avg_size\<close> is the \<^verbatim>\<open>maxlen\<close> of a deque, which
  rejects a negative value at construction, hence a natural number. \<open>inserted\<close> is not an
  attribute: it is the trace of the records handed to the external sink
  \<^verbatim>\<open>db.insert_vitals\<close>, oldest first.
\<close>

record processor =
  present :: bool
  side :: string
  sensor_count :: int
  insertion_frequency :: int
  iteration_count :: int
  rolling_average_size :: int
  debug :: bool
  slide_by :: real
  window :: real
  hr_std_range :: "real \<times> real"
  hr_percentile :: "real \<times> real"
  moving_avg_size :: nat
  signal_percentile :: "real \<times> real"
  window_size :: real
  heart_rates :: "pyfloat list"
  lower_bound :: "pyfloat option"
  upper_bound :: "pyfloat option"
  hr_moving_avg :: "pyfloat option"
  hr_std_2 :: "pyfloat option"
  no_presence_tolerance :: int
  not_present_for :: int
  combined_measurements :: "measurement list"
  debug_measurements :: "debug_measurement list"
  epoch :: "int option"
  inserted :: "measurement list"

text \<open>A method either returns the updated processor or raises, leaving it as it is then.\<close>

type_synonym outcome = "exn \<times> processor + processor"

section \<open>Construction, reset and presence detection\<close>

definition default_runtime_params :: runtime_params where
  "default_runtime_params =
     \<lparr>rp_window = 3, rp_slide_by = 1, rp_moving_avg_size = 120,
      rp_hr_std_range = (1, 10), rp_hr_percentile = (15, 80),
      rp_signal_percentile = (0.2, 99.8), rp_window_size = 0.65\<rparr>"

definition init_tracking :: "processor \<Rightarrow> processor" where
  "init_tracking s =
     s\<lparr>heart_rates := [], lower_bound := None, upper_bound := None,
       hr_moving_avg := None, hr_std_2 := None\<rparr>"

text \<open>
  \<^verbatim>\<open>__init__\<close>; \<open>None\<close> for \<open>params\<close> selects the defaults. The defaults of the other
  arguments are \<^verbatim>\<open>'left'\<close>, 1, 60, 25 and \<^verbatim>\<open>False\<close>.
\<close>

definition new_processor ::
  "string \<Rightarrow> int \<Rightarrow> runtime_params option \<Rightarrow> int \<Rightarrow> int \<Rightarrow> bool \<Rightarrow> processor" where
  "new_processor sd cnt params freq rolling dbg =
     (let rp = (case params of None \<Rightarrow> default_runtime_params | Some p \<Rightarrow> p)
      in \<lparr>present = False, side = sd, sensor_count = cnt, insertion_frequency = freq,
          iteration_count = 0, rolling_average_size = rolling, debug = dbg,
          slide_by = rp_slide_by rp, window = rp_window rp,
          hr_std_range = rp_hr_std_range rp, hr_percentile = rp_hr_percentile rp,
          moving_avg_size = rp_moving_avg_size rp,
          signal_percentile = rp_signal_percentile rp, window_size = rp_window_size rp,
          heart_rates = [], lower_bound = None, upper_bound = None,
          hr_moving_avg = None, hr_std_2 = None,
          no_presence_tolerance = 10, not_present_for = 0,
          combined_measurements = [], debug_measurements = [],
          epoch = None, inserted = []\<rparr>)"

definition reset :: "processor \<Rightarrow> processor" where
  "reset s = init_tracking (s\<lparr>iteration_count := 0\<rparr>)"

definition detect_presence :: "processor \<Rightarrow> ndarray \<Rightarrow> outcome" where
  "detect_presence s sig =
     (case np_ptp sig of
        Inl e \<Rightarrow> Inl (e, s)
      | Inr signal_range \<Rightarrow>
          if signal_range > 200000 then
            Inr (s\<lparr>not_present_for := 0, present := True\<rparr>)
          else
            (let s1 = s\<lparr>not_present_for := not_present_for s + 1\<rparr>
             in if not_present_for s1 = no_presence_tolerance s1
                then Inr (reset (s1\<lparr>present := False\<rparr>))
                else Inr s1))"

section \<open>Per-signal extraction\<close>

definition is_valid :: "processor \<Rightarrow> raw_measurement \<Rightarrow> bool" where
  "is_valid s m =
     (if isnan (bpm m) then False
      else if fgt (bpm m) (Fin 90) then False
      else (case (lower_bound s, upper_bound s) of
              (Some lb, Some ub) \<Rightarrow>
                (if flt lb (bpm m) \<and> flt (bpm m) ub then True else False)
            | _ \<Rightarrow> True))"

text \<open>
  Lines 115-141 of \<^verbatim>\<open>_calculate_vitals\<close> call the external cleaning, scaling, filtering
  and beat-extraction functions, which are not part of this file. They are a parameter: a
  function from the signal to the dictionary of \<^verbatim>\<open>process\<close>, or to the exception one of
  the stages raised.
\<close>

type_synonym dsp = "signal \<Rightarrow> exn + raw_measurement"

text \<open>\<^verbatim>\<open>_calculate_vitals\<close> (a name cannot start with an underscore here).\<close>

definition calculate_vitals_signal ::
  "dsp \<Rightarrow> processor \<Rightarrow> signal \<Rightarrow> int \<Rightarrow> exn + measurement option" where
  "calculate_vitals_signal pipeline s sig ep =
     (case pipeline sig of
        Inl e \<Rightarrow> Inl e
      | Inr m \<Rightarrow>
          if is_valid s m then
            (let hrv0 = sdnn m;
                 hrv1 = (if flt hrv0 (Fin 30) \<or> fgt hrv0 (Fin 120) then Fin 0 else hrv0);
                 br0 = fmul (breathingrate m) (Fin 60);
                 br1 = (if flt br0 (Fin 8) \<or> fgt br0 (Fin 25) then Fin 0 else br0)
             in Inr (Some \<lparr>m_side = side s, timestamp = ep, heart_rate = bpm m,
                            hrv = hrv1, breathing_rate = br1\<rparr>))
          else Inr None)"

text \<open>
  The \<^verbatim>\<open>try ... except Exception: pass\<close> around each call (lines 164-177): the
  measurement stays \<^verbatim>\<open>None\<close> when the call raises. Printing the traceback in debug mode
  changes no attribute.
\<close>

definition try_vitals :: "dsp \<Rightarrow> processor \<Rightarrow> signal \<Rightarrow> int \<Rightarrow> measurement option" where
  "try_vitals pipeline s sig ep =
     (case calculate_vitals_signal pipeline s sig ep of
        Inl e \<Rightarrow> None
      | Inr r \<Rightarrow> r)"

section \<open>Fusion and clamping\<close>

text \<open>
  The clamping block, which the source repeats for each of the three cases (lines 187-191,
  207-211 and 226-230). With a moving average but no band, the comparison with
  \<^verbatim>\<open>None\<close> raises TypeError.
\<close>

definition clamp_heart_rate :: "processor \<Rightarrow> pyfloat \<Rightarrow> exn + pyfloat" where
  "clamp_heart_rate s hr =
     (case hr_moving_avg s of
        None \<Rightarrow> Inr hr
      | Some avg \<Rightarrow>
          (case hr_std_2 s of
             None \<Rightarrow> Inl TypeError
           | Some band \<Rightarrow>
               if fgt (fabs (fsub hr avg)) band then
                 (if flt hr avg then Inr (fsub avg band) else Inr (fadd avg band))
               else Inr hr))"

text \<open>The two appends that end each case.\<close>

definition record_measurement :: "processor \<Rightarrow> pyfloat \<Rightarrow> measurement \<Rightarrow> processor" where
  "record_measurement s hr m =
     s\<lparr>heart_rates := deque_append (moving_avg_size s) (heart_rates s) hr,
       combined_measurements := deque_append 100 (combined_measurements s) m\<rparr>"

text \<open>Lines 179-235 of \<^verbatim>\<open>calculate_vitals\<close>.\<close>

definition fuse_measurements ::
  "processor \<Rightarrow> int \<Rightarrow> measurement option \<Rightarrow> measurement option \<Rightarrow> outcome" where
  "fuse_measurements s ep measurement_1 measurement_2 =
     (case (measurement_1, measurement_2) of
        (Some m1, Some m2) \<Rightarrow>
          (let m1_heart_rate = heart_rate m1;
               m2_heart_rate = heart_rate m2;
               hr = (case hr_moving_avg s of
                       Some avg \<Rightarrow> fhalf (fadd (fhalf (fadd m1_heart_rate m2_heart_rate)) avg)
                     | None \<Rightarrow> fhalf (fadd m1_heart_rate m2_heart_rate))
           in case clamp_heart_rate s hr of
                Inl e \<Rightarrow> Inl (e, s)
              | Inr hr' \<Rightarrow>
                  Inr (record_measurement s hr'
                         \<lparr>m_side = side s, timestamp = ep, heart_rate = hr',
                          hrv = fhalf (fadd (hrv m1) (hrv m2)),
                          breathing_rate = fadd (breathing_rate m1) (breathing_rate m2)\<rparr>))
      | (Some m1, None) \<Rightarrow>
          (case clamp_heart_rate s (heart_rate m1) of
             Inl e \<Rightarrow> Inl (e, s)
           | Inr hr' \<Rightarrow> Inr (record_measurement s hr' (m1\<lparr>heart_rate := hr'\<rparr>)))
      | (None, Some m2) \<Rightarrow>
          (let m2_heart_rate = heart_rate m2;
               hr = (case hr_moving_avg s of
                       Some avg \<Rightarrow> fhalf (fadd m2_heart_rate avg)
                     | None \<Rightarrow> m2_heart_rate)
           in case clamp_heart_rate s hr of
                Inl e \<Rightarrow> Inl (e, s)
              | Inr hr' \<Rightarrow> Inr (record_measurement s hr' (m2\<lparr>heart_rate := hr'\<rparr>)))
      | (None, None) \<Rightarrow> Inr s)"

section \<open>The epoch-advance step\<close>

text \<open>
  \<^verbatim>\<open>datetime.utcfromtimestamp(t).isoformat()\<close>. The name \<^verbatim>\<open>datetime\<close> that the debug
  branch uses is the one left by \<^verbatim>\<open>from data_types import *\<close>, a module that is not part
  of this file, so the conversion is a parameter of the step. \<open>utc_isoformat\<close> below is the
  conversion of CPython's class \<^verbatim>\<open>datetime.datetime\<close> on Linux: the proleptic Gregorian
  date and time of day of a count of seconds since 1970-01-01, as
  \<^verbatim>\<open>YYYY-MM-DDTHH:MM:SS\<close>, and ValueError when the year is not in 1 to 9999. (Far
  outside that range CPython raises OSError or OverflowError instead; the model raises
  ValueError there too.)
\<close>

type_synonym timestamp_conversion = "int \<Rightarrow> exn + string"

definition digit_char :: "int \<Rightarrow> char" where
  "digit_char d = ''0123456789'' ! nat d"

definition two_digits :: "int \<Rightarrow> string" where
  "two_digits n = [digit_char (n div 10), digit_char (n mod 10)]"

definition four_digits :: "int \<Rightarrow> string" where
  "four_digits n = two_digits (n div 100) @ two_digits (n mod 100)"

definition civil_from_days :: "int \<Rightarrow> int \<times> int \<times> int" where
  "civil_from_days days =
     (let z = days + 719468;
          era = z div 146097;
          doe = z - era * 146097;
          yoe = (doe - doe div 1460 + doe div 36524 - doe div 146096) div 365;
          doy = doe - (365 * yoe + yoe div 4 - yoe div 100);
          mp = (5 * doy + 2) div 153;
          d = doy - (153 * mp + 2) div 5 + 1;
          m = (if mp < 10 then mp + 3 else mp - 9);
          y = yoe + era * 400 + (if m \<le> 2 then 1 else 0)
      in (y, m, d))"

definition utc_isoformat :: timestamp_conversion where
  "utc_isoformat t =
     (if t < - 62135596800 \<or> 253402300799 < t then Inl ValueError
      else
        (let (y, m, d) = civil_from_days (t div 86400);
             secs = t mod 86400
         in Inr (four_digits y @ ''-'' @ two_digits m @ ''-'' @ two_digits d @ ''T'' @
                 two_digits (secs div 3600) @ '':'' @ two_digits (secs mod 3600 div 60) @
                 '':'' @ two_digits (secs mod 60))))"

text \<open>
  Lines 255-275, run when the insertion condition holds (so \<open>combined_measurements\<close> is
  not empty). The record handed to \<^verbatim>\<open>insert_vitals\<close> is the last combined measurement
  itself, after its heart rate was overwritten; the sink is taken to return.
\<close>

definition insert_or_trace :: "timestamp_conversion \<Rightarrow> processor \<Rightarrow> outcome" where
  "insert_or_trace conv s =
     (let hr = np_mean (slice_from (rolling_average_size s * - 1) (heart_rates s))
      in if \<not> debug s then
           (let m = (last (combined_measurements s))\<lparr>heart_rate := hr\<rparr>
            in Inr (s\<lparr>combined_measurements := butlast (combined_measurements s) @ [m],
                      inserted := inserted s @ [m]\<rparr>))
         else
           (let last_combined_measurement = last (combined_measurements s)
            in case conv (timestamp last_combined_measurement) of
                 Inl e \<Rightarrow> Inl (e, s)
               | Inr ts \<Rightarrow>
                   (case epoch s of
                      None \<Rightarrow> Inl (AttributeError, s)
                    | Some ep \<Rightarrow>
                        (case conv ep of
                           Inl e \<Rightarrow> Inl (e, s)
                         | Inr current_ts \<Rightarrow>
                             Inr (s\<lparr>debug_measurements := debug_measurements s @
                               [\<lparr>dbg_side = m_side last_combined_measurement,
                                 dbg_timestamp = timestamp last_combined_measurement,
                                 dbg_heart_rate = hr,
                                 dbg_hrv = hrv last_combined_measurement,
                                 dbg_breathing_rate = breathing_rate last_combined_measurement,
                                 dbg_last_combined_measurement = ts,
                                 dbg_current_ts = current_ts,
                                 dbg_last_heart_rates = slice_from (- 25) (heart_rates s),
                                 dbg_hr_moving_avg = hr_moving_avg s,
                                 dbg_lower_bound = lower_bound s,
                                 dbg_upper_bound = upper_bound s,
                                 dbg_hr_std_2 = hr_std_2 s,
                                 dbg_length = length (heart_rates s)\<rparr>]\<rparr>)))))"

text \<open>Lines 277-291: the statistics of a full history.\<close>

definition update_statistics :: "processor \<Rightarrow> outcome" where
  "update_statistics s =
     (if length (heart_rates s) \<ge> moving_avg_size s then
        (let avg = np_mean (heart_rates s);
             s1 = s\<lparr>hr_moving_avg := Some avg\<rparr>
         in case np_percentile (heart_rates s) (fst (hr_percentile s)) of
              Inl e \<Rightarrow> Inl (e, s1)
            | Inr lb \<Rightarrow>
                (let s2 = s1\<lparr>lower_bound := Some lb\<rparr>
                 in case np_percentile (heart_rates s) (snd (hr_percentile s)) of
                      Inl e \<Rightarrow> Inl (e, s2)
                    | Inr ub \<Rightarrow>
                        (let s3 = s2\<lparr>upper_bound := Some ub\<rparr>;
                             s4 = (if flt (fsub ub lb) (Fin 25)
                                   then s3\<lparr>upper_bound := Some (fadd avg (Fin 12.5)),
                                           lower_bound := Some (fsub avg (Fin 12.5))\<rparr>
                                   else s3);
                             band = fmul (np_std (heart_rates s)) (Fin 2);
                             band' = (if flt band (Fin (fst (hr_std_range s)))
                                      then Fin (fst (hr_std_range s))
                                      else if fgt band (Fin (snd (hr_std_range s)))
                                      then Fin (snd (hr_std_range s))
                                      else band)
                         in Inr (s4\<lparr>hr_std_2 := Some band'\<rparr>))))
      else Inr s)"

text \<open>\<^verbatim>\<open>next\<close>. The modulo by an insertion frequency of 0 raises.\<close>

definition next_step :: "timestamp_conversion \<Rightarrow> processor \<Rightarrow> outcome" where
  "next_step conv s0 =
     (let s = s0\<lparr>iteration_count := iteration_count s0 + 1\<rparr>
      in if insertion_frequency s = 0 then Inl (ZeroDivisionError, s)
         else
           (case (if iteration_count s mod insertion_frequency s = 0
                     \<and> length (combined_measurements s) > 0
                  then insert_or_trace conv s else Inr s) of
              Inl r \<Rightarrow> Inl r
            | Inr s' \<Rightarrow> update_statistics s'))"

text \<open>
  \<^verbatim>\<open>calculate_vitals\<close> up to, and without, its last statement \<^verbatim>\<open>self.next()\<close> (lines
  161-235): the processor as \<^verbatim>\<open>next\<close> finds it.
\<close>

definition fusion_stage ::
  "dsp \<Rightarrow> processor \<Rightarrow> int \<Rightarrow> signal \<Rightarrow> signal option \<Rightarrow> outcome" where
  "fusion_stage pipeline s0 ep signal1 signal2 =
     (let s = s0\<lparr>epoch := Some ep\<rparr>;
          measurement_1 = try_vitals pipeline s signal1 ep;
          measurement_2 = (case signal2 of
                             None \<Rightarrow> None
                           | Some sig2 \<Rightarrow> try_vitals pipeline s sig2 ep)
      in fuse_measurements s ep measurement_1 measurement_2)"

definition calculate_vitals ::
  "dsp \<Rightarrow> timestamp_conversion \<Rightarrow> processor \<Rightarrow> int \<Rightarrow> signal \<Rightarrow> signal option \<Rightarrow> outcome" where
  "calculate_vitals pipeline conv s0 ep signal1 signal2 =
     (case fusion_stage pipeline s0 ep signal1 signal2 of
        Inl r \<Rightarrow> Inl r
      | Inr s' \<Rightarrow> next_step conv s')"

section \<open>Sequences of calls and sample processors\<close>

text \<open>
  The caller's loop over presence checks: the calls run in order on the same processor,
  and the first exception ends the run.
\<close>

fun detect_presence_all :: "processor \<Rightarrow> ndarray list \<Rightarrow> outcome" where
  "detect_presence_all s [] = Inr s"
| "detect_presence_all s (sig # sigs) =
     (case detect_presence s sig of
        Inl r \<Rightarrow> Inl r
      | Inr s' \<Rightarrow> detect_presence_all s' sigs)"

text \<open>
  A signal that \<^verbatim>\<open>detect_presence\<close> counts as low, or as high: the range that
  \<^verbatim>\<open>np.ptp\<close> returns is at most, or is more than, 200,000.
\<close>

definition counted_low :: "ndarray \<Rightarrow> bool" where
  "counted_low a = (case np_ptp a of Inl e \<Rightarrow> False | Inr r \<Rightarrow> r \<le> 200000)"

definition counted_high :: "ndarray \<Rightarrow> bool" where
  "counted_high a = (case np_ptp a of Inl e \<Rightarrow> False | Inr r \<Rightarrow> r > 200000)"

text \<open>
  In the words of the specification: the peak-to-peak range of a signal, as a number; a
  signal of low amplitude (a range of at most 200,000) and of high amplitude (a range of
  more than 200,000). A range is representable when the dtype of the array holds it: for a
  signed integer dtype, when it is below two to the number of bits less one.
\<close>

definition peak_to_peak :: "ndarray \<Rightarrow> int" where
  "peak_to_peak a = Max (set (nd_samples a)) - Min (set (nd_samples a))"

definition low_amplitude :: "ndarray \<Rightarrow> bool" where
  "low_amplitude a = (nd_samples a \<noteq> [] \<and> peak_to_peak a \<le> 200000)"

definition high_amplitude :: "ndarray \<Rightarrow> bool" where
  "high_amplitude a = (nd_samples a \<noteq> [] \<and> 200000 < peak_to_peak a)"

definition representable :: "ndarray \<Rightarrow> bool" where
  "representable a =
     (case signed_bits (nd_dtype a) of
        None \<Rightarrow> True
      | Some bits \<Rightarrow> peak_to_peak a < 2 ^ (bits - 1))"

text \<open>An array of int32 samples.\<close>

definition int32 :: "int list \<Rightarrow> ndarray" where
  "int32 xs = \<lparr>nd_dtype = Int32, nd_samples = xs\<rparr>"

text \<open>
  \<^verbatim>\<open>BiometricProcessor()\<close> with every default, and the same processor with a plausibility
  band of 50 to 75 BPM established.
\<close>

definition fresh :: processor where
  "fresh = new_processor ''left'' 1 None 60 25 False"

definition banded :: processor where
  "banded = fresh\<lparr>lower_bound := Some (Fin 50), upper_bound := Some (Fin 75)\<rparr>"

definition reading :: "real \<Rightarrow> raw_measurement" where
  "reading b = \<lparr>bpm = Fin b, sdnn = Fin 50, breathingrate = Fin 0.25\<rparr>"

definition nan_reading :: raw_measurement where
  "nan_reading = \<lparr>bpm = NaN, sdnn = NaN, breathingrate = NaN\<rparr>"

text \<open>
  A processor with a history of two readings of 60 BPM and a capacity of two, and the
  statistics \<^verbatim>\<open>next\<close> computes from that history: mean 60, the 25 BPM wide minimum band
  around it, and the smallest allowed band 1.
\<close>

definition warm :: processor where
  "warm = fresh\<lparr>moving_avg_size := 2, heart_rates := [Fin 60, Fin 60],
                 lower_bound := Some (Fin 47.5), upper_bound := Some (Fin 72.5),
                 hr_moving_avg := Some (Fin 60), hr_std_2 := Some (Fin 1)\<rparr>"

text \<open>
  A stand-in for the signal-processing stage, to run the processor on concrete inputs: it
  reads the BPM off the first sample and raises on an empty signal.
\<close>

definition sample_dsp :: dsp where
  "sample_dsp sig =
     (case sig of
        [] \<Rightarrow> Inl (OtherException ''empty signal'')
      | x # _ \<Rightarrow> Inr (reading (real_of_int x)))"

text \<open>
  The stage with every exception replaced by a reading that \<^verbatim>\<open>is_valid\<close> rejects.
\<close>

definition silenced :: "dsp \<Rightarrow> dsp" where
  "silenced pipeline sig =
     (case pipeline sig of
        Inl e \<Rightarrow> Inr nan_reading
      | Inr m \<Rightarrow> Inr m)"

text \<open>
  The clamping rule in the words of the specification, on real numbers: a candidate
  \<open>c\<close> further than the band \<open>d\<close> from the average \<open>a\<close> is moved to \<open>a - d\<close> or \<open>a + d\<close>,
  on the candidate's side of the average.
\<close>

definition clamped :: "real \<Rightarrow> real \<Rightarrow> real \<Rightarrow> real" where
  "clamped a d c = (if \<bar>c - a\<bar> > d then (if c < a then a - d else a + d) else c)"

text \<open>The measurement that \<^verbatim>\<open>_calculate_vitals\<close> builds from \<open>reading b\<close> on the left side.\<close>

definition sample_measurement :: "real \<Rightarrow> int \<Rightarrow> measurement" where
  "sample_measurement b ep =
     \<lparr>m_side = ''left'', timestamp = ep, heart_rate = Fin b, hrv = Fin 50,
      breathing_rate = Fin 15\<rparr>"

text \<open>
  The caller's loop over epochs: each element is the epoch, the first signal and the
  optional second signal of one call of \<^verbatim>\<open>calculate_vitals\<close>; the first exception ends
  the run.
\<close>

fun calculate_vitals_all ::
  "dsp \<Rightarrow> timestamp_conversion \<Rightarrow> processor \<Rightarrow> (int \<times> signal \<times> signal option) list \<Rightarrow> outcome"
  where
  "calculate_vitals_all pipeline conv s [] = Inr s"
| "calculate_vitals_all pipeline conv s ((ep, signal1, signal2) # calls) =
     (case calculate_vitals pipeline conv s ep signal1 signal2 of
        Inl r \<Rightarrow> Inl r
      | Inr s' \<Rightarrow> calculate_vitals_all pipeline conv s' calls)"

text \<open>A call in which at least one signal yields a valid measurement.\<close>

definition produces :: "dsp \<Rightarrow> processor \<Rightarrow> int \<times> signal \<times> signal option \<Rightarrow> bool" where
  "produces pipeline s call =
     (case call of (ep, signal1, signal2) \<Rightarrow>
        try_vitals pipeline s signal1 ep \<noteq> None \<or>
        (case signal2 of None \<Rightarrow> False | Some sig2 \<Rightarrow> try_vitals pipeline s sig2 ep \<noteq> None))"

text \<open>The last \<open>n\<close> entries of a list (all of them when there are fewer).\<close>

definition last_entries :: "nat \<Rightarrow> 'a list \<Rightarrow> 'a list" where
  "last_entries n xs = drop (length xs - n) xs"

text \<open>
  The default processor, but inserting every second epoch; the same in debug mode; and two
  epochs with one signal each, reading 70 and 60 BPM.
\<close>

definition every_second :: processor where
  "every_second = new_processor ''left'' 1 None 2 25 False"

definition every_second_debug :: processor where
  "every_second_debug = new_processor ''left'' 1 None 2 25 True"

definition two_epochs :: "(int \<times> signal \<times> signal option) list" where
  "two_epochs = [(1000, [70], None), (1001, [60], None)]"

text \<open>
  The debug processor after a first epoch at time 1000 with a reading of 70 BPM, and the
  trace record of a second epoch at time 1001 with a reading of 60 BPM.
\<close>

definition after_first_debug :: processor where
  "after_first_debug =
     every_second_debug\<lparr>epoch := Some 1000, heart_rates := [Fin 70],
       combined_measurements := [sample_measurement 70 1000], iteration_count := 1\<rparr>"

definition second_epoch_trace :: debug_measurement where
  "second_epoch_trace =
     \<lparr>dbg_side = ''left'', dbg_timestamp = 1001, dbg_heart_rate = Fin 65, dbg_hrv = Fin 50,
      dbg_breathing_rate = Fin 15,
      dbg_last_combined_measurement = ''1970-01-01T00:16:41'',
      dbg_current_ts = ''1970-01-01T00:16:41'',
      dbg_last_heart_rates = [Fin 70, Fin 60],
      dbg_hr_moving_avg = None, dbg_lower_bound = None, dbg_upper_bound = None,
      dbg_hr_std_2 = None, dbg_length = 2\<rparr>"

section \<open>Reachable processors and the statistics in the words of the specification\<close>

text \<open>
  The processors a caller can reach from \<open>s0\<close> by calls of \<^verbatim>\<open>calculate_vitals\<close> and
  \<^verbatim>\<open>detect_presence\<close> that return.
\<close>

inductive reachable :: "dsp \<Rightarrow> timestamp_conversion \<Rightarrow> processor \<Rightarrow> processor \<Rightarrow> bool"
  for pipeline :: dsp and conv :: timestamp_conversion and s0 :: processor where
  start: "reachable pipeline conv s0 s0"
| vitals: "reachable pipeline conv s0 s \<Longrightarrow>
           calculate_vitals pipeline conv s ep signal1 signal2 = Inr s' \<Longrightarrow>
           reachable pipeline conv s0 s'"
| presence: "reachable pipeline conv s0 s \<Longrightarrow> detect_presence s sig = Inr s' \<Longrightarrow>
             reachable pipeline conv s0 s'"

text \<open>
  The statistics as the specification words them, on a history of real numbers: the band
  between the two configured percentiles, replaced by the band of width 25 around the mean
  when it is narrower than 25; and twice the standard deviation, moved into the configured
  range.
\<close>

definition spec_widened_band :: "real list \<Rightarrow> real \<times> real \<Rightarrow> real \<times> real" where
  "spec_widened_band rs percentiles =
     (let lb = linear_percentile rs (fst percentiles);
          ub = linear_percentile rs (snd percentiles)
      in if ub - lb < 25 then (mean rs - 12.5, mean rs + 12.5) else (lb, ub))"

definition spec_std_band :: "real list \<Rightarrow> real \<times> real \<Rightarrow> real" where
  "spec_std_band rs limits =
     (let band = 2 * sqrt (mean (map (\<lambda>r. (r - mean rs)\<^sup>2) rs))
      in if band < fst limits then fst limits
         else if band > snd limits then snd limits
         else band)"

text \<open>
  The history holds at most \<open>moving_avg_size\<close> numbers (none of them NaN); the four
  statistics are set exactly when it holds that many, and then they are the statistics of
  the history.
\<close>

definition tracking_consistent :: "processor \<Rightarrow> bool" where
  "tracking_consistent s =
     (case finite_values (heart_rates s) of
        None \<Rightarrow> False
      | Some rs \<Rightarrow>
          length rs \<le> moving_avg_size s \<and>
          (if length rs = moving_avg_size s
           then hr_moving_avg s = Some (Fin (mean rs)) \<and>
                lower_bound s = Some (Fin (fst (spec_widened_band rs (hr_percentile s)))) \<and>
                upper_bound s = Some (Fin (snd (spec_widened_band rs (hr_percentile s)))) \<and>
                hr_std_2 s = Some (Fin (spec_std_band rs (hr_std_range s)))
           else hr_moving_avg s = None \<and> lower_bound s = None \<and> upper_bound s = None \<and>
                hr_std_2 s = None))"

text \<open>
  The default processor with a history of two entries, after a first epoch with a reading
  of 70 BPM, and after a second epoch with a reading of 60 BPM.
\<close>

definition short_history :: processor where
  "short_history =
     new_processor ''left'' 1 (Some (default_runtime_params\<lparr>rp_moving_avg_size := 2\<rparr>))
       60 25 False"

definition short_history_1 :: processor where
  "short_history_1 =
     short_history\<lparr>epoch := Some 1000, heart_rates := [Fin 70],
       combined_measurements := [sample_measurement 70 1000], iteration_count := 1\<rparr>"

definition short_history_2 :: processor where
  "short_history_2 =
     short_history\<lparr>epoch := Some 1001, heart_rates := [Fin 70, Fin 60],
       combined_measurements := [sample_measurement 70 1000, sample_measurement 60 1001],
       iteration_count := 2, hr_moving_avg := Some (Fin 65),
       lower_bound := Some (Fin 52.5), upper_bound := Some (Fin 77.5),
       hr_std_2 := Some (Fin 10)\<rparr>"

section \<open>Basic facts about the operations\<close>

lemma is_valid_bpm:
  assumes "is_valid s m"
  shows "\<exists>b. bpm m = Fin b \<and> b \<le> 90"
proof (cases "bpm m")
  case NaN
  with assms show ?thesis by (simp add: is_valid_def isnan_def)
next
  case (Fin b)
  with assms show ?thesis
    by (cases "90 < b") (auto simp: is_valid_def isnan_def)
qed

lemma try_vitals_Some:
  assumes "try_vitals pipeline s sig ep = Some m"
  shows "\<exists>raw b. pipeline sig = Inr raw \<and> is_valid s raw \<and> bpm raw = Fin b \<and> b \<le> 90 \<and>
           heart_rate m = Fin b \<and> m_side m = side s \<and> timestamp m = ep"
proof -
  from assms obtain raw where raw: "pipeline sig = Inr raw" "is_valid s raw"
    and m: "heart_rate m = bpm raw" "m_side m = side s" "timestamp m = ep"
    by (auto simp: try_vitals_def calculate_vitals_signal_def Let_def split: sum.splits if_splits)
  from is_valid_bpm[OF raw(2)] obtain b where "bpm raw = Fin b" "b \<le> 90" by blast
  with raw m show ?thesis by auto
qed

lemma is_valid_epoch [simp]: "is_valid (s\<lparr>epoch := e\<rparr>) m = is_valid s m"
  by (simp add: is_valid_def)

lemma try_vitals_epoch [simp]:
  "try_vitals pipeline (s\<lparr>epoch := e\<rparr>) sig ep = try_vitals pipeline s sig ep"
  by (cases "pipeline sig") (simp_all add: try_vitals_def calculate_vitals_signal_def)

lemma clamp_heart_rate_unset:
  "hr_moving_avg s = None \<Longrightarrow> clamp_heart_rate s hr = Inr hr"
  by (simp add: clamp_heart_rate_def)

lemma clamp_heart_rate_set:
  assumes "hr_moving_avg s = Some (Fin a)" and "hr_std_2 s = Some (Fin d)"
  shows "clamp_heart_rate s (Fin c) = Inr (Fin (clamped a d c))"
  using assms by (simp add: clamp_heart_rate_def clamped_def)

lemma clamp_heart_rate_epoch [simp]:
  "clamp_heart_rate (s\<lparr>epoch := e\<rparr>) hr = clamp_heart_rate s hr"
  by (simp add: clamp_heart_rate_def split: option.splits)

lemma clamped_in_band:
  assumes "0 \<le> d"
  shows "a - d \<le> clamped a d c \<and> clamped a d c \<le> a + d"
  using assms by (auto simp: clamped_def)

lemma last_deque_append:
  "0 < n \<Longrightarrow> last (deque_append n xs x) = x"
  by (simp add: deque_append_def)

lemma length_deque_append:
  "length (deque_append n xs x) = min n (length xs + 1)"
  by (auto simp: deque_append_def)

lemma deque_append_nonempty:
  "0 < n \<Longrightarrow> deque_append n xs x \<noteq> []"
  by (simp add: deque_append_def)

lemma fusion_stage_eq:
  "fusion_stage pipeline s ep signal1 signal2 =
     fuse_measurements (s\<lparr>epoch := Some ep\<rparr>) ep (try_vitals pipeline s signal1 ep)
       (case signal2 of None \<Rightarrow> None | Some sig2 \<Rightarrow> try_vitals pipeline s sig2 ep)"
  by (simp add: fusion_stage_def Let_def split: option.splits)

lemma fuse_both:
  assumes "clamp_heart_rate s
             (case hr_moving_avg s of
                Some avg \<Rightarrow> fhalf (fadd (fhalf (fadd (heart_rate m1) (heart_rate m2))) avg)
              | None \<Rightarrow> fhalf (fadd (heart_rate m1) (heart_rate m2))) = Inr h"
  shows "fuse_measurements s ep (Some m1) (Some m2) =
           Inr (s\<lparr>heart_rates := deque_append (moving_avg_size s) (heart_rates s) h,
                  combined_measurements := deque_append 100 (combined_measurements s)
                    \<lparr>m_side = side s, timestamp = ep, heart_rate = h,
                     hrv = fhalf (fadd (hrv m1) (hrv m2)),
                     breathing_rate = fadd (breathing_rate m1) (breathing_rate m2)\<rparr>\<rparr>)"
  using assms by (simp add: fuse_measurements_def record_measurement_def Let_def)

lemma fuse_first:
  assumes "clamp_heart_rate s (heart_rate m1) = Inr h"
  shows "fuse_measurements s ep (Some m1) None =
           Inr (s\<lparr>heart_rates := deque_append (moving_avg_size s) (heart_rates s) h,
                  combined_measurements := deque_append 100 (combined_measurements s)
                    (m1\<lparr>heart_rate := h\<rparr>)\<rparr>)"
  using assms by (simp add: fuse_measurements_def record_measurement_def)

lemma fuse_second:
  assumes "clamp_heart_rate s
             (case hr_moving_avg s of
                Some avg \<Rightarrow> fhalf (fadd (heart_rate m2) avg)
              | None \<Rightarrow> heart_rate m2) = Inr h"
  shows "fuse_measurements s ep None (Some m2) =
           Inr (s\<lparr>heart_rates := deque_append (moving_avg_size s) (heart_rates s) h,
                  combined_measurements := deque_append 100 (combined_measurements s)
                    (m2\<lparr>heart_rate := h\<rparr>)\<rparr>)"
  using assms by (simp add: fuse_measurements_def record_measurement_def Let_def)

lemma fuse_none: "fuse_measurements s ep None None = Inr s"
  by (simp add: fuse_measurements_def)

section \<open>Facts about the fusion stage and the epoch-advance step\<close>

lemma insert_or_trace_heart_rates:
  "insert_or_trace conv s = Inr s' \<Longrightarrow> heart_rates s' = heart_rates s"
  by (auto simp: insert_or_trace_def Let_def split: if_splits sum.splits option.splits)

lemma update_statistics_heart_rates:
  "update_statistics s = Inr s' \<Longrightarrow> heart_rates s' = heart_rates s"
  by (auto simp: update_statistics_def Let_def split: if_splits sum.splits)

lemma next_step_heart_rates:
  assumes "next_step conv s = Inr s'"
  shows "heart_rates s' = heart_rates s"
proof -
  let ?s = "s\<lparr>iteration_count := iteration_count s + 1\<rparr>"
  from assms obtain s1 where
    s1: "s1 = ?s \<or> insert_or_trace conv ?s = Inr s1" and upd: "update_statistics s1 = Inr s'"
    by (auto simp: next_step_def Let_def split: if_splits sum.splits)
  from s1 have "heart_rates s1 = heart_rates s"
    by (auto dest: insert_or_trace_heart_rates)
  with update_statistics_heart_rates[OF upd] show ?thesis by simp
qed

lemma calculate_vitals_heart_rates:
  assumes "fusion_stage pipeline s ep signal1 signal2 = Inr s1"
    and "calculate_vitals pipeline conv s ep signal1 signal2 = Inr s'"
  shows "heart_rates s' = heart_rates s1"
  using assms by (simp add: calculate_vitals_def next_step_heart_rates)

lemma fusion_stage_banded:
  assumes avg: "hr_moving_avg s = Some (Fin a)" and band: "hr_std_2 s = Some (Fin d)"
    and produced: "try_vitals pipeline s signal1 ep \<noteq> None \<or>
       (\<exists>sig2. signal2 = Some sig2 \<and> try_vitals pipeline s sig2 ep \<noteq> None)"
  shows "\<exists>c m0. fusion_stage pipeline s ep signal1 signal2 =
           Inr (s\<lparr>epoch := Some ep,
                  heart_rates := deque_append (moving_avg_size s) (heart_rates s) (Fin (clamped a d c)),
                  combined_measurements := deque_append 100 (combined_measurements s)
                    (m0\<lparr>heart_rate := Fin (clamped a d c)\<rparr>)\<rparr>)"
proof -
  let ?s = "s\<lparr>epoch := Some ep\<rparr>"
  let ?r1 = "try_vitals pipeline s signal1 ep"
  let ?r2 = "case signal2 of None \<Rightarrow> None | Some sig2 \<Rightarrow> try_vitals pipeline s sig2 ep"
  have avg': "hr_moving_avg ?s = Some (Fin a)" and band': "hr_std_2 ?s = Some (Fin d)"
    using avg band by simp_all
  have r2: "\<exists>b. heart_rate m = Fin b" if "?r2 = Some m" for m
    using that by (cases signal2) (auto dest!: try_vitals_Some)
  have r1: "\<exists>b. heart_rate m = Fin b" if "?r1 = Some m" for m
    using that try_vitals_Some by blast
  consider (both) m1 m2 where "?r1 = Some m1" "?r2 = Some m2"
    | (first) m1 where "?r1 = Some m1" "?r2 = None"
    | (second) m2 where "?r1 = None" "?r2 = Some m2"
    using produced by (cases ?r1; cases ?r2) auto
  then show ?thesis
  proof cases
    case both
    from r1[OF both(1)] r2[OF both(2)] obtain b1 b2
      where b: "heart_rate m1 = Fin b1" "heart_rate m2 = Fin b2" by blast
    have "clamp_heart_rate ?s
             (case hr_moving_avg ?s of
                Some avg \<Rightarrow> fhalf (fadd (fhalf (fadd (heart_rate m1) (heart_rate m2))) avg)
              | None \<Rightarrow> fhalf (fadd (heart_rate m1) (heart_rate m2))) =
           Inr (Fin (clamped a d (((b1 + b2) / 2 + a) / 2)))"
      using b avg band by (simp add: clamp_heart_rate_set)
    from fuse_both[OF this, of ep] both
    have "fusion_stage pipeline s ep signal1 signal2 =
           Inr (s\<lparr>epoch := Some ep,
                  heart_rates := deque_append (moving_avg_size s) (heart_rates s)
                     (Fin (clamped a d (((b1 + b2) / 2 + a) / 2))),
                  combined_measurements := deque_append 100 (combined_measurements s)
                    (\<lparr>m_side = side s, timestamp = ep, heart_rate = Fin 0,
                      hrv = fhalf (fadd (hrv m1) (hrv m2)),
                      breathing_rate = fadd (breathing_rate m1) (breathing_rate m2)\<rparr>
                     \<lparr>heart_rate := Fin (clamped a d (((b1 + b2) / 2 + a) / 2))\<rparr>)\<rparr>)"
      by (simp add: fusion_stage_eq)
    then show ?thesis by blast
  next
    case first
    from r1[OF first(1)] obtain b1 where b: "heart_rate m1 = Fin b1" by blast
    have "clamp_heart_rate ?s (heart_rate m1) = Inr (Fin (clamped a d b1))"
      using b avg band by (simp add: clamp_heart_rate_set)
    from fuse_first[OF this, of ep] first
    have "fusion_stage pipeline s ep signal1 signal2 =
           Inr (s\<lparr>epoch := Some ep,
                  heart_rates := deque_append (moving_avg_size s) (heart_rates s) (Fin (clamped a d b1)),
                  combined_measurements := deque_append 100 (combined_measurements s)
                    (m1\<lparr>heart_rate := Fin (clamped a d b1)\<rparr>)\<rparr>)"
      by (simp add: fusion_stage_eq)
    then show ?thesis by blast
  next
    case second
    from r2[OF second(2)] obtain b2 where b: "heart_rate m2 = Fin b2" by blast
    have "clamp_heart_rate ?s
             (case hr_moving_avg ?s of
                Some avg \<Rightarrow> fhalf (fadd (heart_rate m2) avg)
              | None \<Rightarrow> heart_rate m2) = Inr (Fin (clamped a d ((b2 + a) / 2)))"
      using b avg band by (simp add: clamp_heart_rate_set)
    from fuse_second[OF this, of ep] second
    have "fusion_stage pipeline s ep signal1 signal2 =
           Inr (s\<lparr>epoch := Some ep,
                  heart_rates := deque_append (moving_avg_size s) (heart_rates s)
                    (Fin (clamped a d ((b2 + a) / 2))),
                  combined_measurements := deque_append 100 (combined_measurements s)
                    (m2\<lparr>heart_rate := Fin (clamped a d ((b2 + a) / 2))\<rparr>)\<rparr>)"
      by (simp add: fusion_stage_eq)
    then show ?thesis by blast
  qed
qed

section \<open>The sample processors and the sample stage, evaluated\<close>

lemma try_vitals_fresh:
  "try_vitals sample_dsp fresh [70] 1000 = Some (sample_measurement 70 1000)"
  "try_vitals sample_dsp fresh [60] 1000 = Some (sample_measurement 60 1000)"
  "try_vitals sample_dsp fresh [] 1000 = None"
  "try_vitals sample_dsp fresh [95] 1000 = None"
  by (simp_all add: try_vitals_def calculate_vitals_signal_def sample_dsp_def reading_def
        is_valid_def isnan_def fresh_def new_processor_def sample_measurement_def Let_def)

lemma try_vitals_warm:
  "try_vitals sample_dsp warm [70] 1000 = Some (sample_measurement 70 1000)"
  "try_vitals sample_dsp warm [60] 1000 = Some (sample_measurement 60 1000)"
  "try_vitals sample_dsp warm [50] 1000 = Some (sample_measurement 50 1000)"
  "try_vitals sample_dsp warm [] 1000 = None"
  "try_vitals sample_dsp warm [95] 1000 = None"
  by (simp_all add: try_vitals_def calculate_vitals_signal_def sample_dsp_def reading_def
        is_valid_def isnan_def warm_def fresh_def new_processor_def sample_measurement_def Let_def)

lemma fresh_fields:
  "hr_moving_avg fresh = None" "heart_rates fresh = []" "combined_measurements fresh = []"
  "moving_avg_size fresh = 120" "side fresh = ''left''"
  by (simp_all add: fresh_def new_processor_def default_runtime_params_def)

lemma warm_fields:
  "hr_moving_avg warm = Some (Fin 60)" "hr_std_2 warm = Some (Fin 1)"
  "heart_rates warm = [Fin 60, Fin 60]" "combined_measurements warm = []"
  "moving_avg_size warm = 2" "side warm = ''left''"
  by (simp_all add: warm_def fresh_def new_processor_def)

lemma try_vitals_warm_61:
  "try_vitals sample_dsp warm [61] 1000 = Some (sample_measurement 61 1000)"
  by (simp add: try_vitals_def calculate_vitals_signal_def sample_dsp_def reading_def
        is_valid_def isnan_def warm_def fresh_def new_processor_def sample_measurement_def Let_def)

section \<open>The stages do not look at the presence fields, nor at which exception was raised\<close>

lemma is_valid_presence:
  "is_valid (s\<lparr>present := p, not_present_for := n\<rparr>) m = is_valid s m"
  by (simp add: is_valid_def)

lemma try_vitals_presence:
  "try_vitals pipeline (s\<lparr>present := p, not_present_for := n\<rparr>) sig ep =
     try_vitals pipeline s sig ep"
  by (cases "pipeline sig")
     (simp_all add: try_vitals_def calculate_vitals_signal_def is_valid_presence)

lemma clamp_heart_rate_presence:
  "clamp_heart_rate (s\<lparr>present := p, not_present_for := n\<rparr>) hr = clamp_heart_rate s hr"
  by (simp add: clamp_heart_rate_def split: option.splits)

lemma fuse_measurements_presence:
  "fuse_measurements (s\<lparr>present := p, not_present_for := n\<rparr>) ep m1 m2 =
     map_sum (apsnd (\<lambda>t. t\<lparr>present := p, not_present_for := n\<rparr>))
       (\<lambda>t. t\<lparr>present := p, not_present_for := n\<rparr>) (fuse_measurements s ep m1 m2)"
  by (cases m1; cases m2)
     (simp_all add: fuse_measurements_def clamp_heart_rate_presence record_measurement_def
        Let_def split: sum.splits option.splits)

lemma fusion_stage_presence:
  "fusion_stage pipeline (s\<lparr>present := p, not_present_for := n\<rparr>) ep signal1 signal2 =
     map_sum (apsnd (\<lambda>t. t\<lparr>present := p, not_present_for := n\<rparr>))
       (\<lambda>t. t\<lparr>present := p, not_present_for := n\<rparr>)
       (fusion_stage pipeline s ep signal1 signal2)"
proof -
  have "s\<lparr>present := p, not_present_for := n, epoch := Some ep\<rparr> =
        s\<lparr>epoch := Some ep, present := p, not_present_for := n\<rparr>"
    by simp
  then show ?thesis
    by (simp only: fusion_stage_eq try_vitals_presence fuse_measurements_presence)
qed

lemma insert_or_trace_presence:
  "insert_or_trace conv (s\<lparr>present := p, not_present_for := n\<rparr>) =
     map_sum (apsnd (\<lambda>t. t\<lparr>present := p, not_present_for := n\<rparr>))
       (\<lambda>t. t\<lparr>present := p, not_present_for := n\<rparr>) (insert_or_trace conv s)"
  by (simp add: insert_or_trace_def Let_def split: sum.splits option.splits)

lemma update_statistics_presence:
  "update_statistics (s\<lparr>present := p, not_present_for := n\<rparr>) =
     map_sum (apsnd (\<lambda>t. t\<lparr>present := p, not_present_for := n\<rparr>))
       (\<lambda>t. t\<lparr>present := p, not_present_for := n\<rparr>) (update_statistics s)"
  by (simp add: update_statistics_def Let_def split: sum.splits)

lemma next_step_presence:
  "next_step conv (s\<lparr>present := p, not_present_for := n\<rparr>) =
     map_sum (apsnd (\<lambda>t. t\<lparr>present := p, not_present_for := n\<rparr>))
       (\<lambda>t. t\<lparr>present := p, not_present_for := n\<rparr>) (next_step conv s)"
proof -
  let ?u = "\<lambda>t. t\<lparr>present := p, not_present_for := n\<rparr>"
  have comm: "s\<lparr>present := p, not_present_for := n,
                 iteration_count := iteration_count s + 1\<rparr> =
              ?u (s\<lparr>iteration_count := iteration_count s + 1\<rparr>)"
    by simp
  show ?thesis
    unfolding next_step_def Let_def
    by (simp add: comm insert_or_trace_presence update_statistics_presence
          split: sum.splits del: split_paired_All)
qed

lemma try_vitals_raises:
  "pipeline sig = Inl e \<Longrightarrow> try_vitals pipeline s sig ep = None"
  by (simp add: try_vitals_def calculate_vitals_signal_def)

lemma try_vitals_silenced:
  "try_vitals (silenced pipeline) s sig ep = try_vitals pipeline s sig ep"
  by (cases "pipeline sig")
     (simp_all add: try_vitals_def calculate_vitals_signal_def silenced_def
        is_valid_def isnan_def nan_reading_def)

lemma fusion_stage_silenced:
  "fusion_stage (silenced pipeline) s ep signal1 signal2 =
     fusion_stage pipeline s ep signal1 signal2"
  by (simp only: fusion_stage_eq try_vitals_silenced)

section \<open>A first call on the default processor\<close>

lemma sample_dsp_values:
  "sample_dsp [] = Inl (OtherException ''empty signal'')"
  "sample_dsp [70] = Inr (reading 70)"
  by (simp_all add: sample_dsp_def)

lemma next_step_idle:
  assumes "insertion_frequency s \<noteq> 0"
    and "(iteration_count s + 1) mod insertion_frequency s \<noteq> 0"
    and "length (heart_rates s) < moving_avg_size s"
  shows "next_step conv s = Inr (s\<lparr>iteration_count := iteration_count s + 1\<rparr>)"
  using assms by (simp add: next_step_def update_statistics_def Let_def)

lemma calculate_vitals_fresh_70:
  "calculate_vitals sample_dsp utc_isoformat fresh 1000 [70] None =
     Inr (fresh\<lparr>epoch := Some 1000, heart_rates := [Fin 70],
                combined_measurements := [sample_measurement 70 1000],
                iteration_count := 1\<rparr>)"
proof -
  have unset: "hr_moving_avg (fresh\<lparr>epoch := Some 1000\<rparr>) = None"
    by (simp add: fresh_fields)
  have "clamp_heart_rate (fresh\<lparr>epoch := Some 1000\<rparr>) (heart_rate (sample_measurement 70 1000)) =
          Inr (Fin 70)"
    by (simp add: clamp_heart_rate_unset fresh_fields sample_measurement_def)
  from fuse_first[OF this, of 1000]
  have stage: "fusion_stage sample_dsp fresh 1000 [70] None =
     Inr (fresh\<lparr>epoch := Some 1000, heart_rates := [Fin 70],
                combined_measurements := [sample_measurement 70 1000]\<rparr>)"
    by (simp add: fusion_stage_eq try_vitals_fresh fresh_fields deque_append_def
          sample_measurement_def)
  show ?thesis
    unfolding calculate_vitals_def stage
    by (simp add: next_step_idle fresh_def new_processor_def default_runtime_params_def)
qed

section \<open>What a stage leaves unchanged, and the insertion of a record\<close>

lemma slice_from_last_entries:
  "0 < n \<Longrightarrow> slice_from (n * - 1) xs = last_entries (nat n) xs"
  by (auto simp: slice_from_def last_entries_def nat_diff_distrib' intro: arg_cong2[where f = drop])

lemma fuse_measurements_config:
  assumes "fuse_measurements s ep m1 m2 = Inr s1"
  shows "iteration_count s1 = iteration_count s \<and> inserted s1 = inserted s \<and>
         debug s1 = debug s \<and> insertion_frequency s1 = insertion_frequency s \<and>
         rolling_average_size s1 = rolling_average_size s \<and>
         debug_measurements s1 = debug_measurements s \<and>
         moving_avg_size s1 = moving_avg_size s \<and> hr_percentile s1 = hr_percentile s \<and>
         hr_std_range s1 = hr_std_range s \<and> epoch s1 = epoch s"
  using assms
  by (cases m1; cases m2)
     (auto simp: fuse_measurements_def record_measurement_def Let_def split: sum.splits)

lemma fusion_stage_config:
  assumes "fusion_stage pipeline s ep signal1 signal2 = Inr s1"
  shows "iteration_count s1 = iteration_count s \<and> inserted s1 = inserted s \<and>
         debug s1 = debug s \<and> insertion_frequency s1 = insertion_frequency s \<and>
         rolling_average_size s1 = rolling_average_size s \<and>
         debug_measurements s1 = debug_measurements s \<and>
         moving_avg_size s1 = moving_avg_size s \<and> hr_percentile s1 = hr_percentile s \<and>
         hr_std_range s1 = hr_std_range s \<and> epoch s1 = Some ep"
  using fuse_measurements_config[OF assms[unfolded fusion_stage_eq]] by simp

lemma update_statistics_config:
  assumes "update_statistics s = Inr s'"
  shows "iteration_count s' = iteration_count s \<and> inserted s' = inserted s \<and>
         debug s' = debug s \<and> insertion_frequency s' = insertion_frequency s \<and>
         rolling_average_size s' = rolling_average_size s \<and>
         debug_measurements s' = debug_measurements s \<and>
         moving_avg_size s' = moving_avg_size s \<and> hr_percentile s' = hr_percentile s \<and>
         hr_std_range s' = hr_std_range s \<and> epoch s' = epoch s \<and>
         combined_measurements s' = combined_measurements s \<and> heart_rates s' = heart_rates s"
  using assms by (auto simp: update_statistics_def Let_def split: if_splits sum.splits)

lemma next_step_split:
  assumes "next_step conv s = Inr s'"
  obtains s1 where "insertion_frequency s \<noteq> 0"
    and "if (iteration_count s + 1) mod insertion_frequency s = 0 \<and> combined_measurements s \<noteq> []
         then insert_or_trace conv (s\<lparr>iteration_count := iteration_count s + 1\<rparr>) = Inr s1
         else s1 = s\<lparr>iteration_count := iteration_count s + 1\<rparr>"
    and "update_statistics s1 = Inr s'"
  using assms
  by (auto simp: next_step_def Let_def split: if_splits sum.splits)

lemma insert_or_trace_insert:
  assumes "\<not> debug s"
  shows "insert_or_trace conv s =
           Inr (s\<lparr>combined_measurements := butlast (combined_measurements s) @
                     [(last (combined_measurements s))
                        \<lparr>heart_rate := np_mean (slice_from (rolling_average_size s * - 1) (heart_rates s))\<rparr>],
                  inserted := inserted s @
                     [(last (combined_measurements s))
                        \<lparr>heart_rate := np_mean (slice_from (rolling_average_size s * - 1) (heart_rates s))\<rparr>]\<rparr>)"
  using assms by (simp add: insert_or_trace_def Let_def)

lemma next_step_insertion:
  assumes nd: "\<not> debug s" and ret: "next_step conv s = Inr s'"
  shows "iteration_count s' = iteration_count s + 1 \<and> debug s' = debug s \<and>
         insertion_frequency s' = insertion_frequency s \<and>
         rolling_average_size s' = rolling_average_size s \<and>
         heart_rates s' = heart_rates s \<and> insertion_frequency s \<noteq> 0 \<and>
         (if (iteration_count s + 1) mod insertion_frequency s = 0 \<and> combined_measurements s \<noteq> []
          then inserted s' = inserted s @
                 [(last (combined_measurements s))
                    \<lparr>heart_rate := np_mean (slice_from (rolling_average_size s * - 1) (heart_rates s))\<rparr>] \<and>
               combined_measurements s' = butlast (combined_measurements s) @
                 [(last (combined_measurements s))
                    \<lparr>heart_rate := np_mean (slice_from (rolling_average_size s * - 1) (heart_rates s))\<rparr>]
          else inserted s' = inserted s \<and> combined_measurements s' = combined_measurements s)"
proof -
  let ?s = "s\<lparr>iteration_count := iteration_count s + 1\<rparr>"
  from ret obtain s1 where f: "insertion_frequency s \<noteq> 0"
    and s1: "if (iteration_count s + 1) mod insertion_frequency s = 0 \<and> combined_measurements s \<noteq> []
         then insert_or_trace conv ?s = Inr s1 else s1 = ?s"
    and upd: "update_statistics s1 = Inr s'"
    by (rule next_step_split)
  note u = update_statistics_config[OF upd]
  have nd': "\<not> debug ?s" using nd by simp
  show ?thesis
  proof (cases "(iteration_count s + 1) mod insertion_frequency s = 0 \<and> combined_measurements s \<noteq> []")
    case True
    with s1 have "insert_or_trace conv ?s = Inr s1" by simp
    then have "s1 = ?s\<lparr>combined_measurements := butlast (combined_measurements ?s) @
                     [(last (combined_measurements ?s))
                        \<lparr>heart_rate := np_mean (slice_from (rolling_average_size ?s * - 1) (heart_rates ?s))\<rparr>],
                  inserted := inserted ?s @
                     [(last (combined_measurements ?s))
                        \<lparr>heart_rate := np_mean (slice_from (rolling_average_size ?s * - 1) (heart_rates ?s))\<rparr>]\<rparr>"
      by (simp only: insert_or_trace_insert[OF nd'] sum.inject)
    with u True f show ?thesis by simp
  next
    case False
    with s1 have "s1 = ?s" by simp
    with u False f show ?thesis by simp
  qed
qed

section \<open>Runs of calls without debug mode\<close>

lemma fuse_measurements_grows:
  assumes "fuse_measurements s ep m1 m2 = Inr s1"
  shows "(m1 = None \<and> m2 = None \<and> s1 = s) \<or>
         ((m1 \<noteq> None \<or> m2 \<noteq> None) \<and>
          (\<exists>m. combined_measurements s1 = deque_append 100 (combined_measurements s) m))"
  using assms
  by (cases m1; cases m2)
     (auto simp: fuse_measurements_def record_measurement_def Let_def split: sum.splits)

lemma fusion_stage_nonempty:
  assumes "fusion_stage pipeline s ep signal1 signal2 = Inr s1"
    and "combined_measurements s \<noteq> [] \<or> produces pipeline s (ep, signal1, signal2)"
  shows "combined_measurements s1 \<noteq> []"
proof -
  let ?m1 = "try_vitals pipeline s signal1 ep"
  let ?m2 = "case signal2 of None \<Rightarrow> None | Some sig2 \<Rightarrow> try_vitals pipeline s sig2 ep"
  from assms(1) have "fuse_measurements (s\<lparr>epoch := Some ep\<rparr>) ep ?m1 ?m2 = Inr s1"
    by (simp add: fusion_stage_eq)
  from fuse_measurements_grows[OF this]
  consider "?m1 = None" "?m2 = None" "s1 = s\<lparr>epoch := Some ep\<rparr>"
    | m where "combined_measurements s1 =
                 deque_append 100 (combined_measurements (s\<lparr>epoch := Some ep\<rparr>)) m"
    by auto
  then show ?thesis
  proof cases
    case 1
    then have "\<not> produces pipeline s (ep, signal1, signal2)"
      by (auto simp: produces_def split: option.splits)
    with assms(2) 1 show ?thesis by simp
  next
    case 2
    then show ?thesis by (simp add: deque_append_nonempty)
  qed
qed

lemma calculate_vitals_insertion:
  assumes nd: "\<not> debug s" and ret: "calculate_vitals pipeline conv s ep signal1 signal2 = Inr s'"
  shows "\<exists>s1. fusion_stage pipeline s ep signal1 signal2 = Inr s1 \<and>
          iteration_count s' = iteration_count s + 1 \<and> debug s' = debug s \<and>
          insertion_frequency s' = insertion_frequency s \<and>
          rolling_average_size s' = rolling_average_size s \<and>
          heart_rates s' = heart_rates s1 \<and> insertion_frequency s \<noteq> 0 \<and>
          (if iteration_count s' mod insertion_frequency s = 0 \<and> combined_measurements s1 \<noteq> []
           then inserted s' = inserted s @
                  [(last (combined_measurements s1))
                     \<lparr>heart_rate := np_mean (slice_from (rolling_average_size s * - 1) (heart_rates s'))\<rparr>] \<and>
                combined_measurements s' = butlast (combined_measurements s1) @
                  [(last (combined_measurements s1))
                     \<lparr>heart_rate := np_mean (slice_from (rolling_average_size s * - 1) (heart_rates s'))\<rparr>]
           else inserted s' = inserted s \<and> combined_measurements s' = combined_measurements s1)"
proof -
  from ret obtain s1 where stage: "fusion_stage pipeline s ep signal1 signal2 = Inr s1"
    and nxt: "next_step conv s1 = Inr s'"
    by (auto simp: calculate_vitals_def split: sum.splits)
  note c = fusion_stage_config[OF stage]
  from c nd have nd1: "\<not> debug s1" by simp
  from next_step_insertion[OF nd1 nxt] c stage show ?thesis by simp
qed

lemma calculate_vitals_keeps_records:
  assumes nd: "\<not> debug s" and ret: "calculate_vitals pipeline conv s ep signal1 signal2 = Inr s'"
    and "combined_measurements s \<noteq> [] \<or> produces pipeline s (ep, signal1, signal2)"
  shows "combined_measurements s' \<noteq> []"
proof -
  from calculate_vitals_insertion[OF nd ret] obtain s1 where
    stage: "fusion_stage pipeline s ep signal1 signal2 = Inr s1"
    and alt: "if iteration_count s' mod insertion_frequency s = 0 \<and> combined_measurements s1 \<noteq> []
           then inserted s' = inserted s @
                  [(last (combined_measurements s1))
                     \<lparr>heart_rate := np_mean (slice_from (rolling_average_size s * - 1) (heart_rates s'))\<rparr>] \<and>
                combined_measurements s' = butlast (combined_measurements s1) @
                  [(last (combined_measurements s1))
                     \<lparr>heart_rate := np_mean (slice_from (rolling_average_size s * - 1) (heart_rates s'))\<rparr>]
           else inserted s' = inserted s \<and> combined_measurements s' = combined_measurements s1"
    by blast
  have ne: "combined_measurements s1 \<noteq> []"
    using fusion_stage_nonempty[OF stage assms(3)] .
  show ?thesis
  proof (cases "iteration_count s' mod insertion_frequency s = 0")
    case True
    with alt ne show ?thesis by simp
  next
    case False
    with alt ne show ?thesis by simp
  qed
qed

lemma calculate_vitals_all_append:
  "calculate_vitals_all pipeline conv s (xs @ ys) =
     (case calculate_vitals_all pipeline conv s xs of
        Inl r \<Rightarrow> Inl r
      | Inr s' \<Rightarrow> calculate_vitals_all pipeline conv s' ys)"
  by (induction xs arbitrary: s) (auto split: sum.splits)

lemma run_keeps_records:
  assumes "\<not> debug s" and "calculate_vitals_all pipeline conv s calls = Inr s'"
    and "combined_measurements s \<noteq> []"
  shows "combined_measurements s' \<noteq> []"
  using assms
proof (induction calls arbitrary: s)
  case Nil
  then show ?case by simp
next
  case (Cons call calls)
  obtain ep signal1 signal2 where call: "call = (ep, signal1, signal2)"
    by (cases call) auto
  from Cons.prems(2) call obtain s1 where
    one: "calculate_vitals pipeline conv s ep signal1 signal2 = Inr s1"
    and rest: "calculate_vitals_all pipeline conv s1 calls = Inr s'"
    by (auto split: sum.splits)
  have "combined_measurements s1 \<noteq> []"
    using calculate_vitals_keeps_records[OF Cons.prems(1) one] Cons.prems(3) by simp
  moreover have "\<not> debug s1"
    using calculate_vitals_insertion[OF Cons.prems(1) one] Cons.prems(1) by auto
  ultimately show ?case using Cons.IH[OF _ rest] by simp
qed

lemma run_quiet:
  assumes "\<not> debug s" and "calculate_vitals_all pipeline conv s calls = Inr s'"
    and "\<forall>j. 1 \<le> j \<and> j \<le> length calls \<longrightarrow>
           (iteration_count s + int j) mod insertion_frequency s \<noteq> 0"
  shows "inserted s' = inserted s \<and> iteration_count s' = iteration_count s + int (length calls) \<and>
         debug s' = debug s \<and> insertion_frequency s' = insertion_frequency s \<and>
         rolling_average_size s' = rolling_average_size s"
  using assms
proof (induction calls arbitrary: s)
  case Nil
  then show ?case by simp
next
  case (Cons call calls)
  obtain ep signal1 signal2 where call: "call = (ep, signal1, signal2)"
    by (cases call) auto
  from Cons.prems(2) call obtain s1 where
    one: "calculate_vitals pipeline conv s ep signal1 signal2 = Inr s1"
    and rest: "calculate_vitals_all pipeline conv s1 calls = Inr s'"
    by (auto split: sum.splits)
  from Cons.prems(3)[rule_format, of 1]
  have quiet: "(iteration_count s + 1) mod insertion_frequency s \<noteq> 0" by simp
  from calculate_vitals_insertion[OF Cons.prems(1) one] quiet
  have step: "iteration_count s1 = iteration_count s + 1" "debug s1 = debug s"
    "insertion_frequency s1 = insertion_frequency s"
    "rolling_average_size s1 = rolling_average_size s" "inserted s1 = inserted s"
    by auto
  have later: "\<forall>j. 1 \<le> j \<and> j \<le> length calls \<longrightarrow>
           (iteration_count s1 + int j) mod insertion_frequency s1 \<noteq> 0"
  proof (intro allI impI)
    fix j assume "1 \<le> j \<and> j \<le> length calls"
    then have "1 \<le> Suc j \<and> Suc j \<le> length (call # calls)" by simp
    from Cons.prems(3)[rule_format, OF this] step
    show "(iteration_count s1 + int j) mod insertion_frequency s1 \<noteq> 0"
      by (simp add: algebra_simps)
  qed
  have "\<not> debug s1" using step Cons.prems(1) by simp
  from Cons.IH[OF this rest later] step show ?case by simp
qed

lemma aligned_quiet:
  fixes f c :: int
  assumes "0 < f" and "c mod f = 0" and "n < nat f"
  shows "\<forall>j. 1 \<le> j \<and> j \<le> n \<longrightarrow> (c + int j) mod f \<noteq> 0"
proof (intro allI impI)
  fix j :: nat
  assume j: "1 \<le> j \<and> j \<le> n"
  have "(c + int j) mod f = (c mod f + int j) mod f"
    by (simp add: mod_add_left_eq)
  also have "\<dots> = int j mod f" using assms(2) by simp
  also have "\<dots> = int j"
  proof -
    have "0 \<le> int j" "int j < f" using j assms(3) by auto
    then show ?thesis by (rule mod_pos_pos_trivial)
  qed
  finally show "(c + int j) mod f \<noteq> 0" using j by simp
qed

lemma slice_from_minus:
  "0 < n \<Longrightarrow> slice_from (- n) xs = last_entries (nat n) xs"
  using slice_from_last_entries[of n xs] by simp

section \<open>Two epochs on a processor that inserts every second epoch\<close>

lemmas eval_defs = new_processor_def default_runtime_params_def
  calculate_vitals_def fusion_stage_def try_vitals_def calculate_vitals_signal_def
  sample_dsp_def reading_def is_valid_def isnan_def fuse_measurements_def clamp_heart_rate_def
  record_measurement_def deque_append_def next_step_def insert_or_trace_def
  update_statistics_def slice_from_def np_mean_def mean_def Let_def sample_measurement_def

lemma two_epochs_run:
  "calculate_vitals_all sample_dsp utc_isoformat every_second two_epochs =
     Inr (every_second\<lparr>epoch := Some 1001, heart_rates := [Fin 70, Fin 60],
            combined_measurements := [sample_measurement 70 1000, sample_measurement 65 1001],
            inserted := [sample_measurement 65 1001], iteration_count := 2\<rparr>)"
  by (simp add: every_second_def two_epochs_def eval_defs)


lemma every_second_fields:
  "\<not> debug every_second" "insertion_frequency every_second = 2"
  "rolling_average_size every_second = 25" "iteration_count every_second = 0"
  "inserted every_second = []"
  by (simp_all add: every_second_def new_processor_def)

lemma civil_epoch: "civil_from_days 0 = (1970, 1, 1)"
  unfolding civil_from_days_def
  by (simp only: Let_def) simp

lemma utc_1001: "utc_isoformat 1001 = Inr ''1970-01-01T00:16:41''"
  unfolding utc_isoformat_def
  by (simp only: Let_def)
     (simp add: civil_epoch two_digits_def four_digits_def digit_char_def)

lemma utc_1000: "utc_isoformat 1000 = Inr ''1970-01-01T00:16:40''"
  unfolding utc_isoformat_def
  by (simp only: Let_def)
     (simp add: civil_epoch two_digits_def four_digits_def digit_char_def)

lemma utc_year_10000: "utc_isoformat 253402300800 = Inl ValueError"
  by (simp add: utc_isoformat_def)

section \<open>The debug branch of the epoch-advance step\<close>

lemma insert_or_trace_debug:
  assumes "debug s"
  shows "insert_or_trace conv s =
     (case conv (timestamp (last (combined_measurements s))) of
        Inl e \<Rightarrow> Inl (e, s)
      | Inr ts \<Rightarrow>
          (case epoch s of
             None \<Rightarrow> Inl (AttributeError, s)
           | Some ep \<Rightarrow>
               (case conv ep of
                  Inl e \<Rightarrow> Inl (e, s)
                | Inr current_ts \<Rightarrow>
                    Inr (s\<lparr>debug_measurements := debug_measurements s @
                      [\<lparr>dbg_side = m_side (last (combined_measurements s)),
                        dbg_timestamp = timestamp (last (combined_measurements s)),
                        dbg_heart_rate =
                          np_mean (slice_from (rolling_average_size s * - 1) (heart_rates s)),
                        dbg_hrv = hrv (last (combined_measurements s)),
                        dbg_breathing_rate = breathing_rate (last (combined_measurements s)),
                        dbg_last_combined_measurement = ts,
                        dbg_current_ts = current_ts,
                        dbg_last_heart_rates = slice_from (- 25) (heart_rates s),
                        dbg_hr_moving_avg = hr_moving_avg s,
                        dbg_lower_bound = lower_bound s,
                        dbg_upper_bound = upper_bound s,
                        dbg_hr_std_2 = hr_std_2 s,
                        dbg_length = length (heart_rates s)\<rparr>]\<rparr>))))"
  using assms by (simp add: insert_or_trace_def Let_def split: sum.splits option.splits)

lemma update_statistics_error_config:
  assumes "update_statistics s = Inl (e, s')"
  shows "inserted s' = inserted s \<and> debug_measurements s' = debug_measurements s \<and>
         combined_measurements s' = combined_measurements s"
  using assms by (auto simp: update_statistics_def Let_def split: if_splits sum.splits)

lemma next_step_firing_debug:
  assumes dbg: "debug s"
    and fires: "insertion_frequency s \<noteq> 0 \<and>
       (iteration_count s + 1) mod insertion_frequency s = 0 \<and> combined_measurements s \<noteq> []"
  shows "next_step conv s =
     (case insert_or_trace conv (s\<lparr>iteration_count := iteration_count s + 1\<rparr>) of
        Inl r \<Rightarrow> Inl r
      | Inr s' \<Rightarrow> update_statistics s')"
  using fires by (simp add: next_step_def Let_def)

section \<open>Two epochs in debug mode\<close>

lemma first_debug_epoch:
  "calculate_vitals sample_dsp utc_isoformat every_second_debug 1000 [70] None =
     Inr after_first_debug"
  by (simp add: every_second_debug_def after_first_debug_def eval_defs)

lemma after_first_debug_fields:
  "debug after_first_debug" "insertion_frequency after_first_debug = 2"
  "iteration_count after_first_debug = 1" "debug_measurements after_first_debug = []"
  "rolling_average_size after_first_debug = 25" "inserted after_first_debug = []"
  by (simp_all add: after_first_debug_def every_second_debug_def new_processor_def)

lemma second_debug_stage:
  "fusion_stage sample_dsp after_first_debug ep [60] None =
     Inr (after_first_debug\<lparr>epoch := Some ep, heart_rates := [Fin 70, Fin 60],
            combined_measurements := [sample_measurement 70 1000, sample_measurement 60 ep]\<rparr>)"
  by (simp add: after_first_debug_def every_second_debug_def eval_defs)

section \<open>The statistics of a history without NaN\<close>

lemma finite_values_map: "finite_values (map Fin rs) = Some rs"
  by (induction rs) simp_all

lemma finite_values_SomeD: "finite_values xs = Some rs \<Longrightarrow> xs = map Fin rs"
proof (induction xs arbitrary: rs)
  case Nil
  then show ?case by simp
next
  case (Cons x xs)
  then show ?case by (cases x) auto
qed

lemma np_mean_map: "rs \<noteq> [] \<Longrightarrow> np_mean (map Fin rs) = Fin (mean rs)"
  by (simp add: np_mean_def finite_values_map)

lemma np_std_map:
  "rs \<noteq> [] \<Longrightarrow> np_std (map Fin rs) = Fin (sqrt (mean (map (\<lambda>r. (r - mean rs)\<^sup>2) rs)))"
  by (simp add: np_std_def finite_values_map)

lemma np_percentile_map:
  assumes "np_percentile (map Fin rs) q = Inr v"
  shows "v = Fin (linear_percentile rs q)"
  using assms by (auto simp: np_percentile_def finite_values_map split: if_splits)

lemma tracking_consistent_iff:
  "tracking_consistent s \<longleftrightarrow>
     (\<exists>rs. heart_rates s = map Fin rs \<and> length rs \<le> moving_avg_size s \<and>
        (if length rs = moving_avg_size s
         then hr_moving_avg s = Some (Fin (mean rs)) \<and>
              lower_bound s = Some (Fin (fst (spec_widened_band rs (hr_percentile s)))) \<and>
              upper_bound s = Some (Fin (snd (spec_widened_band rs (hr_percentile s)))) \<and>
              hr_std_2 s = Some (Fin (spec_std_band rs (hr_std_range s)))
         else hr_moving_avg s = None \<and> lower_bound s = None \<and> upper_bound s = None \<and>
              hr_std_2 s = None))"
proof
  assume "tracking_consistent s"
  then show "\<exists>rs. heart_rates s = map Fin rs \<and> length rs \<le> moving_avg_size s \<and>
        (if length rs = moving_avg_size s
         then hr_moving_avg s = Some (Fin (mean rs)) \<and>
              lower_bound s = Some (Fin (fst (spec_widened_band rs (hr_percentile s)))) \<and>
              upper_bound s = Some (Fin (snd (spec_widened_band rs (hr_percentile s)))) \<and>
              hr_std_2 s = Some (Fin (spec_std_band rs (hr_std_range s)))
         else hr_moving_avg s = None \<and> lower_bound s = None \<and> upper_bound s = None \<and>
              hr_std_2 s = None)"
    unfolding tracking_consistent_def
    by (cases "finite_values (heart_rates s)") (auto dest: finite_values_SomeD)
next
  assume "\<exists>rs. heart_rates s = map Fin rs \<and> length rs \<le> moving_avg_size s \<and>
        (if length rs = moving_avg_size s
         then hr_moving_avg s = Some (Fin (mean rs)) \<and>
              lower_bound s = Some (Fin (fst (spec_widened_band rs (hr_percentile s)))) \<and>
              upper_bound s = Some (Fin (snd (spec_widened_band rs (hr_percentile s)))) \<and>
              hr_std_2 s = Some (Fin (spec_std_band rs (hr_std_range s)))
         else hr_moving_avg s = None \<and> lower_bound s = None \<and> upper_bound s = None \<and>
              hr_std_2 s = None)"
  then obtain rs where "heart_rates s = map Fin rs" and rest: "length rs \<le> moving_avg_size s \<and>
        (if length rs = moving_avg_size s
         then hr_moving_avg s = Some (Fin (mean rs)) \<and>
              lower_bound s = Some (Fin (fst (spec_widened_band rs (hr_percentile s)))) \<and>
              upper_bound s = Some (Fin (snd (spec_widened_band rs (hr_percentile s)))) \<and>
              hr_std_2 s = Some (Fin (spec_std_band rs (hr_std_range s)))
         else hr_moving_avg s = None \<and> lower_bound s = None \<and> upper_bound s = None \<and>
              hr_std_2 s = None)"
    by blast
  then have "finite_values (heart_rates s) = Some rs" by (simp add: finite_values_map)
  with rest show "tracking_consistent s"
    unfolding tracking_consistent_def by simp
qed

lemma update_statistics_short:
  "length (heart_rates s) < moving_avg_size s \<Longrightarrow> update_statistics s = Inr s"
  by (simp add: update_statistics_def)

lemma update_statistics_full:
  assumes hist: "heart_rates s = map Fin rs" and ne: "rs \<noteq> []"
    and full: "moving_avg_size s \<le> length rs"
    and ret: "update_statistics s = Inr s'"
  shows "s' = s\<lparr>hr_moving_avg := Some (Fin (mean rs)),
               lower_bound := Some (Fin (fst (spec_widened_band rs (hr_percentile s)))),
               upper_bound := Some (Fin (snd (spec_widened_band rs (hr_percentile s)))),
               hr_std_2 := Some (Fin (spec_std_band rs (hr_std_range s)))\<rparr>"
proof -
  from ret full hist obtain lb ub where
    lb: "np_percentile (map Fin rs) (fst (hr_percentile s)) = Inr lb"
    and ub: "np_percentile (map Fin rs) (snd (hr_percentile s)) = Inr ub"
    by (auto simp: update_statistics_def Let_def split: sum.splits)
  note lb' = np_percentile_map[OF lb] and ub' = np_percentile_map[OF ub]
  from ret show ?thesis
    unfolding update_statistics_def
    using full hist lb ub
    by (auto simp: lb' ub' np_mean_map[OF ne] np_std_map[OF ne] Let_def
          spec_widened_band_def spec_std_band_def mult.commute)
qed

section \<open>How a call changes the history\<close>

lemma deque_append_map:
  "deque_append n (map Fin rs) (Fin h) = map Fin (deque_append n rs h)"
proof -
  have "map Fin rs @ [Fin h] = map Fin (rs @ [h])" by simp
  then show ?thesis
    by (simp only: deque_append_def length_map drop_map)
qed

lemma damped_finite:
  assumes "hr_moving_avg s = None \<or>
           (\<exists>a d. hr_moving_avg s = Some (Fin a) \<and> hr_std_2 s = Some (Fin d))"
  shows "\<exists>c. (case hr_moving_avg s of Some avg \<Rightarrow> fhalf (fadd (Fin x) avg)
               | None \<Rightarrow> Fin x) = Fin c"
proof (cases "hr_moving_avg s")
  case None
  then show ?thesis by simp
next
  case (Some v)
  with assms obtain a where "v = Fin a" by auto
  with Some show ?thesis by (intro exI[of _ "(x + a) / 2"]) simp
qed

lemma clamp_heart_rate_finite:
  assumes "hr_moving_avg s = None \<or>
           (\<exists>a d. hr_moving_avg s = Some (Fin a) \<and> hr_std_2 s = Some (Fin d))"
  shows "\<exists>h. clamp_heart_rate s (Fin c) = Inr (Fin h)"
  using assms by (auto simp: clamp_heart_rate_unset clamp_heart_rate_set)

lemma fuse_measurements_history:
  assumes ok: "hr_moving_avg s = None \<or>
           (\<exists>a d. hr_moving_avg s = Some (Fin a) \<and> hr_std_2 s = Some (Fin d))"
    and v1: "\<forall>m. m1 = Some m \<longrightarrow> (\<exists>b. heart_rate m = Fin b)"
    and v2: "\<forall>m. m2 = Some m \<longrightarrow> (\<exists>b. heart_rate m = Fin b)"
    and ret: "fuse_measurements s ep m1 m2 = Inr s1"
  shows "(heart_rates s1 = heart_rates s \<or>
          (\<exists>h. heart_rates s1 = deque_append (moving_avg_size s) (heart_rates s) (Fin h))) \<and>
         hr_moving_avg s1 = hr_moving_avg s \<and> lower_bound s1 = lower_bound s \<and>
         upper_bound s1 = upper_bound s \<and> hr_std_2 s1 = hr_std_2 s"
proof (cases m1)
  case None
  show ?thesis
  proof (cases m2)
    case n2: None
    with None ret show ?thesis by (simp add: fuse_none)
  next
    case (Some b)
    from v2 Some obtain x where x: "heart_rate b = Fin x" by blast
    have "\<exists>c. (case hr_moving_avg s of Some avg \<Rightarrow> fhalf (fadd (heart_rate b) avg)
                 | None \<Rightarrow> heart_rate b) = Fin c"
      using damped_finite[OF ok, of x] x by (simp split: option.splits)
    then obtain c where c: "(case hr_moving_avg s of Some avg \<Rightarrow> fhalf (fadd (heart_rate b) avg)
                 | None \<Rightarrow> heart_rate b) = Fin c" by blast
    from clamp_heart_rate_finite[OF ok, of c] obtain h where
      "clamp_heart_rate s (Fin c) = Inr (Fin h)" by blast
    with c have "clamp_heart_rate s (case hr_moving_avg s of
                     Some avg \<Rightarrow> fhalf (fadd (heart_rate b) avg)
                   | None \<Rightarrow> heart_rate b) = Inr (Fin h)" by simp
    from fuse_second[OF this, of ep] ret None Some show ?thesis by auto
  qed
next
  case (Some a)
  from v1 Some obtain x where x: "heart_rate a = Fin x" by blast
  show ?thesis
  proof (cases m2)
    case None
    from clamp_heart_rate_finite[OF ok, of x] x obtain h where
      "clamp_heart_rate s (heart_rate a) = Inr (Fin h)" by auto
    from fuse_first[OF this, of ep] ret None Some show ?thesis by auto
  next
    case s2: (Some b)
    from v2 s2 obtain y where y: "heart_rate b = Fin y" by blast
    have "\<exists>c. (case hr_moving_avg s of
                  Some avg \<Rightarrow> fhalf (fadd (fhalf (fadd (heart_rate a) (heart_rate b))) avg)
                | None \<Rightarrow> fhalf (fadd (heart_rate a) (heart_rate b))) = Fin c"
      using damped_finite[OF ok, of "(x + y) / 2"] x y by (simp split: option.splits)
    then obtain c where c: "(case hr_moving_avg s of
                  Some avg \<Rightarrow> fhalf (fadd (fhalf (fadd (heart_rate a) (heart_rate b))) avg)
                | None \<Rightarrow> fhalf (fadd (heart_rate a) (heart_rate b))) = Fin c" by blast
    from clamp_heart_rate_finite[OF ok, of c] obtain h where
      "clamp_heart_rate s (Fin c) = Inr (Fin h)" by blast
    with c have "clamp_heart_rate s (case hr_moving_avg s of
                  Some avg \<Rightarrow> fhalf (fadd (fhalf (fadd (heart_rate a) (heart_rate b))) avg)
                | None \<Rightarrow> fhalf (fadd (heart_rate a) (heart_rate b))) = Inr (Fin h)" by simp
    from fuse_both[OF this, of ep] ret Some s2 show ?thesis by auto
  qed
qed

lemma fusion_stage_history:
  assumes ok: "hr_moving_avg s = None \<or>
           (\<exists>a d. hr_moving_avg s = Some (Fin a) \<and> hr_std_2 s = Some (Fin d))"
    and stage: "fusion_stage pipeline s ep signal1 signal2 = Inr s1"
  shows "(heart_rates s1 = heart_rates s \<or>
          (\<exists>h. heart_rates s1 = deque_append (moving_avg_size s) (heart_rates s) (Fin h))) \<and>
         hr_moving_avg s1 = hr_moving_avg s \<and> lower_bound s1 = lower_bound s \<and>
         upper_bound s1 = upper_bound s \<and> hr_std_2 s1 = hr_std_2 s"
proof -
  let ?s = "s\<lparr>epoch := Some ep\<rparr>"
  let ?m1 = "try_vitals pipeline s signal1 ep"
  let ?m2 = "case signal2 of None \<Rightarrow> None | Some sig2 \<Rightarrow> try_vitals pipeline s sig2 ep"
  have ok': "hr_moving_avg ?s = None \<or>
           (\<exists>a d. hr_moving_avg ?s = Some (Fin a) \<and> hr_std_2 ?s = Some (Fin d))"
    using ok by simp
  have v1: "\<forall>m. ?m1 = Some m \<longrightarrow> (\<exists>b. heart_rate m = Fin b)"
    using try_vitals_Some by blast
  have v2: "\<forall>m. ?m2 = Some m \<longrightarrow> (\<exists>b. heart_rate m = Fin b)"
    by (cases signal2) (auto dest!: try_vitals_Some)
  from stage have "fuse_measurements ?s ep ?m1 ?m2 = Inr s1"
    by (simp add: fusion_stage_eq)
  from fuse_measurements_history[OF ok' v1 v2 this] show ?thesis by simp
qed

lemma insert_or_trace_tracking:
  assumes "insert_or_trace conv s = Inr s'"
  shows "heart_rates s' = heart_rates s \<and> hr_moving_avg s' = hr_moving_avg s \<and>
         lower_bound s' = lower_bound s \<and> upper_bound s' = upper_bound s \<and>
         hr_std_2 s' = hr_std_2 s \<and> moving_avg_size s' = moving_avg_size s \<and>
         hr_percentile s' = hr_percentile s \<and> hr_std_range s' = hr_std_range s"
  using assms
  by (auto simp: insert_or_trace_def Let_def split: if_splits sum.splits option.splits)

lemma tracking_consistent_new:
  assumes "0 < moving_avg_size (new_processor sd cnt params freq rolling dbg)"
  shows "tracking_consistent (new_processor sd cnt params freq rolling dbg)"
  using assms by (simp add: tracking_consistent_def new_processor_def Let_def)

lemma detect_presence_tracking:
  assumes inv: "tracking_consistent s" and pos: "0 < moving_avg_size s"
    and ret: "detect_presence s sig = Inr s'"
  shows "tracking_consistent s' \<and> moving_avg_size s' = moving_avg_size s"
proof -
  from ret consider "s' = s\<lparr>not_present_for := 0, present := True\<rparr>"
    | "s' = s\<lparr>not_present_for := not_present_for s + 1\<rparr>"
    | "s' = reset (s\<lparr>not_present_for := not_present_for s + 1, present := False\<rparr>)"
    by (auto simp: detect_presence_def Let_def split: sum.splits if_splits)
  then show ?thesis
  proof cases
    case 1
    with inv show ?thesis by (simp add: tracking_consistent_def split: option.splits)
  next
    case 2
    with inv show ?thesis by (simp add: tracking_consistent_def split: option.splits)
  next
    case 3
    with pos show ?thesis
      by (simp add: tracking_consistent_def reset_def init_tracking_def)
  qed
qed

section \<open>The statistics stay consistent with the history\<close>

lemma calculate_vitals_tracking:
  assumes inv: "tracking_consistent s" and pos: "0 < moving_avg_size s"
    and ret: "calculate_vitals pipeline conv s ep signal1 signal2 = Inr s'"
  shows "tracking_consistent s' \<and> moving_avg_size s' = moving_avg_size s"
proof -
  let ?n = "moving_avg_size s"
  from inv obtain rs where hist: "heart_rates s = map Fin rs" and len: "length rs \<le> ?n"
    and stats: "if length rs = ?n
         then hr_moving_avg s = Some (Fin (mean rs)) \<and>
              lower_bound s = Some (Fin (fst (spec_widened_band rs (hr_percentile s)))) \<and>
              upper_bound s = Some (Fin (snd (spec_widened_band rs (hr_percentile s)))) \<and>
              hr_std_2 s = Some (Fin (spec_std_band rs (hr_std_range s)))
         else hr_moving_avg s = None \<and> lower_bound s = None \<and> upper_bound s = None \<and>
              hr_std_2 s = None"
    unfolding tracking_consistent_iff by blast
  have ok: "hr_moving_avg s = None \<or>
           (\<exists>a d. hr_moving_avg s = Some (Fin a) \<and> hr_std_2 s = Some (Fin d))"
    using stats by (cases "length rs = ?n") auto
  from ret obtain s1 where stage: "fusion_stage pipeline s ep signal1 signal2 = Inr s1"
    and nxt: "next_step conv s1 = Inr s'"
    by (auto simp: calculate_vitals_def split: sum.splits)
  note c1 = fusion_stage_config[OF stage]
  note h1 = fusion_stage_history[OF ok stage]
  from h1 hist obtain rs1 where hist1: "heart_rates s1 = map Fin rs1"
    and shape: "rs1 = rs \<or> (\<exists>h. rs1 = deque_append ?n rs h)"
    by (auto simp: deque_append_map)
  have len1: "length rs1 \<le> ?n" and keep: "length rs = ?n \<longrightarrow> length rs1 = ?n"
    using shape len pos by (auto simp: length_deque_append)
  from nxt obtain s2 where
    s2: "if (iteration_count s1 + 1) mod insertion_frequency s1 = 0 \<and> combined_measurements s1 \<noteq> []
         then insert_or_trace conv (s1\<lparr>iteration_count := iteration_count s1 + 1\<rparr>) = Inr s2
         else s2 = s1\<lparr>iteration_count := iteration_count s1 + 1\<rparr>"
    and upd: "update_statistics s2 = Inr s'"
    by (rule next_step_split)
  have same2: "heart_rates s2 = heart_rates s1 \<and> hr_moving_avg s2 = hr_moving_avg s1 \<and>
         lower_bound s2 = lower_bound s1 \<and> upper_bound s2 = upper_bound s1 \<and>
         hr_std_2 s2 = hr_std_2 s1 \<and> moving_avg_size s2 = moving_avg_size s1 \<and>
         hr_percentile s2 = hr_percentile s1 \<and> hr_std_range s2 = hr_std_range s1"
  proof (cases "(iteration_count s1 + 1) mod insertion_frequency s1 = 0 \<and> combined_measurements s1 \<noteq> []")
    case True
    with s2 have "insert_or_trace conv (s1\<lparr>iteration_count := iteration_count s1 + 1\<rparr>) = Inr s2"
      by simp
    from insert_or_trace_tracking[OF this] show ?thesis by simp
  next
    case False
    with s2 show ?thesis by simp
  qed
  have hist2: "heart_rates s2 = map Fin rs1" using same2 hist1 by simp
  have n2: "moving_avg_size s2 = ?n" using same2 c1 by simp
  note uc = update_statistics_config[OF upd]
  show ?thesis
  proof (cases "length rs1 = ?n")
    case True
    then have ne: "rs1 \<noteq> []" using pos by auto
    have "moving_avg_size s2 \<le> length rs1" using True n2 by simp
    from update_statistics_full[OF hist2 ne this upd]
    have s': "s' = s2\<lparr>hr_moving_avg := Some (Fin (mean rs1)),
               lower_bound := Some (Fin (fst (spec_widened_band rs1 (hr_percentile s2)))),
               upper_bound := Some (Fin (snd (spec_widened_band rs1 (hr_percentile s2)))),
               hr_std_2 := Some (Fin (spec_std_band rs1 (hr_std_range s2)))\<rparr>" .
    have "heart_rates s' = map Fin rs1 \<and> length rs1 \<le> moving_avg_size s' \<and>
        (if length rs1 = moving_avg_size s'
         then hr_moving_avg s' = Some (Fin (mean rs1)) \<and>
              lower_bound s' = Some (Fin (fst (spec_widened_band rs1 (hr_percentile s')))) \<and>
              upper_bound s' = Some (Fin (snd (spec_widened_band rs1 (hr_percentile s')))) \<and>
              hr_std_2 s' = Some (Fin (spec_std_band rs1 (hr_std_range s')))
         else hr_moving_avg s' = None \<and> lower_bound s' = None \<and> upper_bound s' = None \<and>
              hr_std_2 s' = None)"
      using True n2 hist2 by (simp add: s')
    then have "tracking_consistent s'" unfolding tracking_consistent_iff by blast
    moreover have "moving_avg_size s' = ?n" using n2 by (simp add: s')
    ultimately show ?thesis by simp
  next
    case False
    with len1 have short: "length rs1 < ?n" by simp
    with keep have "length rs \<noteq> ?n" by auto
    with stats have unset: "hr_moving_avg s = None \<and> lower_bound s = None \<and>
        upper_bound s = None \<and> hr_std_2 s = None" by simp
    have "length (heart_rates s2) < moving_avg_size s2" using hist2 n2 short by simp
    from update_statistics_short[OF this] upd have eq: "s' = s2" by simp
    have "heart_rates s' = map Fin rs1 \<and> length rs1 \<le> moving_avg_size s' \<and>
        (if length rs1 = moving_avg_size s'
         then hr_moving_avg s' = Some (Fin (mean rs1)) \<and>
              lower_bound s' = Some (Fin (fst (spec_widened_band rs1 (hr_percentile s')))) \<and>
              upper_bound s' = Some (Fin (snd (spec_widened_band rs1 (hr_percentile s')))) \<and>
              hr_std_2 s' = Some (Fin (spec_std_band rs1 (hr_std_range s')))
         else hr_moving_avg s' = None \<and> lower_bound s' = None \<and> upper_bound s' = None \<and>
              hr_std_2 s' = None)"
      using False short n2 hist2 same2 h1 unset by (simp add: eq)
    then have "tracking_consistent s'" unfolding tracking_consistent_iff by blast
    moreover have "moving_avg_size s' = ?n" using n2 eq by simp
    ultimately show ?thesis by simp
  qed
qed

lemma reachable_tracking:
  assumes "reachable pipeline conv s0 s"
    and "tracking_consistent s0" and "0 < moving_avg_size s0"
  shows "tracking_consistent s \<and> moving_avg_size s = moving_avg_size s0"
  using assms
proof (induction rule: reachable.induct)
  case start
  then show ?case by simp
next
  case (vitals s ep signal1 signal2 s')
  then have "tracking_consistent s" "0 < moving_avg_size s" by simp_all
  from calculate_vitals_tracking[OF this vitals.hyps(2)] vitals show ?case by simp
next
  case (presence s sig s')
  then have "tracking_consistent s" "0 < moving_avg_size s" by simp_all
  from detect_presence_tracking[OF this presence.hyps(2)] presence show ?case by simp
qed

section \<open>The band of a reachable processor is not negative\<close>

text \<open>
  On every processor reached from the constructor, with an upper limit of
  \<^verbatim>\<open>hr_std_range\<close> that is not negative (10 by default), a moving average that is set is a
  number and comes with a band that is a number and not negative.
\<close>

lemma spec_std_band_nonneg:
  assumes "0 \<le> snd limits"
  shows "0 \<le> spec_std_band rs limits"
proof -
  define b where "b = 2 * sqrt (mean (map (\<lambda>r. (r - mean rs)\<^sup>2) rs))"
  have "0 \<le> mean (map (\<lambda>r. (r - mean rs)\<^sup>2) rs)"
    by (auto simp: mean_def intro!: divide_nonneg_nonneg sum_list_nonneg)
  then have "0 \<le> b" by (simp add: b_def)
  with assms show ?thesis
    unfolding spec_std_band_def Let_def b_def[symmetric] by auto
qed

lemma calculate_vitals_std_range:
  assumes "calculate_vitals pipeline conv s ep signal1 signal2 = Inr s'"
  shows "hr_std_range s' = hr_std_range s"
proof -
  from assms obtain s1 where stage: "fusion_stage pipeline s ep signal1 signal2 = Inr s1"
    and nxt: "next_step conv s1 = Inr s'"
    by (auto simp: calculate_vitals_def split: sum.splits)
  from nxt obtain s2 where
    s2: "if (iteration_count s1 + 1) mod insertion_frequency s1 = 0 \<and> combined_measurements s1 \<noteq> []
         then insert_or_trace conv (s1\<lparr>iteration_count := iteration_count s1 + 1\<rparr>) = Inr s2
         else s2 = s1\<lparr>iteration_count := iteration_count s1 + 1\<rparr>"
    and upd: "update_statistics s2 = Inr s'"
    by (rule next_step_split)
  have "hr_std_range s2 = hr_std_range s1"
  proof (cases "(iteration_count s1 + 1) mod insertion_frequency s1 = 0 \<and> combined_measurements s1 \<noteq> []")
    case True
    with s2 have "insert_or_trace conv (s1\<lparr>iteration_count := iteration_count s1 + 1\<rparr>) = Inr s2"
      by simp
    from insert_or_trace_tracking[OF this] show ?thesis by simp
  next
    case False
    with s2 show ?thesis by simp
  qed
  with fusion_stage_config[OF stage] update_statistics_config[OF upd] show ?thesis by simp
qed

lemma detect_presence_std_range:
  assumes "detect_presence s sig = Inr s'"
  shows "hr_std_range s' = hr_std_range s"
  using assms
  by (auto simp: detect_presence_def reset_def init_tracking_def Let_def
        split: sum.splits if_splits)

lemma reachable_std_range:
  assumes "reachable pipeline conv s0 s"
  shows "hr_std_range s = hr_std_range s0"
  using assms
  by (induction rule: reachable.induct)
     (simp_all add: calculate_vitals_std_range detect_presence_std_range)

lemma reachable_band_nonneg:
  assumes capacity: "0 < moving_avg_size (new_processor sd cnt params freq rolling dbg)"
    and limit: "0 \<le> snd (hr_std_range (new_processor sd cnt params freq rolling dbg))"
    and reach: "reachable pipeline conv (new_processor sd cnt params freq rolling dbg) s"
    and avg: "hr_moving_avg s \<noteq> None"
  shows "\<exists>a d. hr_moving_avg s = Some (Fin a) \<and> hr_std_2 s = Some (Fin d) \<and> 0 \<le> d"
proof -
  from reachable_tracking[OF reach tracking_consistent_new[OF capacity] capacity]
  have "tracking_consistent s" by simp
  then obtain rs where
    stats: "if length rs = moving_avg_size s
         then hr_moving_avg s = Some (Fin (mean rs)) \<and>
              lower_bound s = Some (Fin (fst (spec_widened_band rs (hr_percentile s)))) \<and>
              upper_bound s = Some (Fin (snd (spec_widened_band rs (hr_percentile s)))) \<and>
              hr_std_2 s = Some (Fin (spec_std_band rs (hr_std_range s)))
         else hr_moving_avg s = None \<and> lower_bound s = None \<and> upper_bound s = None \<and>
              hr_std_2 s = None"
    unfolding tracking_consistent_iff by blast
  with avg have full: "hr_moving_avg s = Some (Fin (mean rs))"
    "hr_std_2 s = Some (Fin (spec_std_band rs (hr_std_range s)))"
    by (auto split: if_splits)
  have "0 \<le> spec_std_band rs (hr_std_range s)"
    using limit reachable_std_range[OF reach] by (simp add: spec_std_band_nonneg)
  with full show ?thesis by blast
qed

section \<open>Two epochs on a processor with a history of two entries\<close>

lemma sqrt_25: "sqrt 25 = 5"
  by (rule real_sqrt_unique) simp_all

lemma short_history_first:
  "calculate_vitals sample_dsp utc_isoformat short_history 1000 [70] None = Inr short_history_1"
  by (simp add: short_history_def short_history_1_def eval_defs)

lemma percentiles_70_60:
  "linear_percentile [70, 60] 15 = 61.5" "linear_percentile [70, 60] 80 = 68"
  by (simp_all add: linear_percentile_def)

lemma short_history_second:
  "calculate_vitals sample_dsp utc_isoformat short_history_1 1001 [60] None =
     Inr short_history_2"
  by (simp add: short_history_def short_history_1_def short_history_2_def eval_defs
        np_percentile_def percentiles_70_60 np_std_def sqrt_25)

section \<open>Clamping of the fused heart rate\<close>

text \<open>
  C1. For every processor whose moving average and band are set (to numbers, the band not
  negative, as on every processor reached from the constructor: lemma
  \<open>reachable_band_nonneg\<close>) and whose history has room for an entry, and for every call of \<^verbatim>\<open>calculate_vitals\<close> in
  which a signal yields a valid measurement, whatever the readings: the fusion stage returns,
  it appends one value to \<open>heart_rates\<close> and one record to \<open>combined_measurements\<close>, the
  value is the heart rate of that record, and it lies between the moving average minus the
  band and the moving average plus the band, taken before the call. When the whole call
  returns, that value is still the last entry of \<open>heart_rates\<close>.
\<close>

theorem fused_heart_rate_within_band:
  assumes avg: "hr_moving_avg s = Some (Fin a)" and band: "hr_std_2 s = Some (Fin d)"
    and nonneg: "0 \<le> d" and capacity: "0 < moving_avg_size s"
    and produced: "try_vitals pipeline s signal1 ep \<noteq> None \<or>
       (\<exists>sig2. signal2 = Some sig2 \<and> try_vitals pipeline s sig2 ep \<noteq> None)"
  shows "\<exists>s' h m. fusion_stage pipeline s ep signal1 signal2 = Inr s' \<and>
           heart_rates s' = deque_append (moving_avg_size s) (heart_rates s) (Fin h) \<and>
           combined_measurements s' = deque_append 100 (combined_measurements s) m \<and>
           last (heart_rates s') = Fin h \<and> last (combined_measurements s') = m \<and>
           heart_rate m = Fin h \<and> a - d \<le> h \<and> h \<le> a + d \<and>
           (\<forall>conv s''. calculate_vitals pipeline conv s ep signal1 signal2 = Inr s'' \<longrightarrow>
                       last (heart_rates s'') = Fin h)"
proof -
  from fusion_stage_banded[OF avg band produced] obtain c m0 where
    stage: "fusion_stage pipeline s ep signal1 signal2 =
           Inr (s\<lparr>epoch := Some ep,
                  heart_rates := deque_append (moving_avg_size s) (heart_rates s) (Fin (clamped a d c)),
                  combined_measurements := deque_append 100 (combined_measurements s)
                    (m0\<lparr>heart_rate := Fin (clamped a d c)\<rparr>)\<rparr>)" (is "_ = Inr ?s'")
    by blast
  let ?h = "clamped a d c"
  let ?m = "m0\<lparr>heart_rate := Fin ?h\<rparr>"
  have l1: "last (heart_rates ?s') = Fin ?h"
    using capacity by (simp add: last_deque_append)
  have l2: "last (combined_measurements ?s') = ?m"
    by (simp add: last_deque_append)
  have after: "last (heart_rates s'') = Fin ?h"
    if "calculate_vitals pipeline conv s ep signal1 signal2 = Inr s''" for conv s''
    using calculate_vitals_heart_rates[OF stage that] l1 by simp
  have "fusion_stage pipeline s ep signal1 signal2 = Inr ?s' \<and>
           heart_rates ?s' = deque_append (moving_avg_size s) (heart_rates s) (Fin ?h) \<and>
           combined_measurements ?s' = deque_append 100 (combined_measurements s) ?m \<and>
           last (heart_rates ?s') = Fin ?h \<and> last (combined_measurements ?s') = ?m \<and>
           heart_rate ?m = Fin ?h \<and> a - d \<le> ?h \<and> ?h \<le> a + d \<and>
           (\<forall>conv s''. calculate_vitals pipeline conv s ep signal1 signal2 = Inr s'' \<longrightarrow>
                       last (heart_rates s'') = Fin ?h)"
    using stage l1 l2 after clamped_in_band[OF nonneg, of a c] by simp
  then show ?thesis by blast
qed

theorem fused_heart_rate_within_band_witness:
  "hr_moving_avg warm = Some (Fin 60) \<and> hr_std_2 warm = Some (Fin 1) \<and>
   0 < moving_avg_size warm \<and> try_vitals sample_dsp warm [70] 1000 \<noteq> None \<and>
   (\<exists>s' h. fusion_stage sample_dsp warm 1000 [70] (Some [60]) = Inr s' \<and>
      last (heart_rates s') = Fin h \<and> heart_rate (last (combined_measurements s')) = Fin h \<and>
      59 \<le> h \<and> h \<le> 61)"
proof -
  have produced: "try_vitals sample_dsp warm [70] 1000 \<noteq> None \<or>
       (\<exists>sig2. Some [60] = Some sig2 \<and> try_vitals sample_dsp warm sig2 1000 \<noteq> None)"
    by (simp add: try_vitals_warm)
  have nonneg: "(0::real) \<le> 1" by simp
  have capacity: "0 < moving_avg_size warm" by (simp add: warm_fields)
  from fused_heart_rate_within_band [OF warm_fields(1) warm_fields(2) nonneg capacity produced]
  obtain s' h m where
    "fusion_stage sample_dsp warm 1000 [70] (Some [60]) = Inr s'"
    "last (heart_rates s') = Fin h" "last (combined_measurements s') = m"
    "heart_rate m = Fin h" "60 - 1 \<le> h" "h \<le> 60 + 1"
    by blast
  then have "\<exists>s' h. fusion_stage sample_dsp warm 1000 [70] (Some [60]) = Inr s' \<and>
      last (heart_rates s') = Fin h \<and> heart_rate (last (combined_measurements s')) = Fin h \<and>
      59 \<le> h \<and> h \<le> 61"
    by (intro exI[of _ s'] exI[of _ h]) simp
  then show ?thesis
    using capacity by (simp add: warm_fields try_vitals_warm)
qed

section \<open>The statistics after every call\<close>

text \<open>
  C2. Take a processor as the constructor builds it, with a history capacity of at least
  one, and any processor reached from it by calls of \<^verbatim>\<open>calculate_vitals\<close> and
  \<^verbatim>\<open>detect_presence\<close> that return. After a further call of \<^verbatim>\<open>calculate_vitals\<close>
  that returns, the history holds at most \<open>moving_avg_size\<close> numbers, and the moving
  average, the two bounds and the band are set if and only if it holds exactly that many.
  When set, they are the statistics of the history as it is now: its mean; its two
  configured percentiles (the 15th and the 80th by default), or the band of width 25
  around the mean when the percentile band is narrower; and twice its standard deviation
  moved into the configured range (1 to 10 by default).
\<close>

theorem statistics_follow_history:
  assumes capacity: "0 < moving_avg_size (new_processor sd cnt params freq rolling dbg)"
    and reach: "reachable pipeline conv (new_processor sd cnt params freq rolling dbg) s"
    and ret: "calculate_vitals pipeline conv s ep signal1 signal2 = Inr s'"
  shows "tracking_consistent s'"
proof -
  from reachable_tracking[OF reach tracking_consistent_new[OF capacity] capacity]
  have "tracking_consistent s" "0 < moving_avg_size s" using capacity by simp_all
  from calculate_vitals_tracking[OF this ret] show ?thesis by simp
qed

theorem statistics_follow_history_witness:
  "0 < moving_avg_size short_history \<and>
   reachable sample_dsp utc_isoformat short_history short_history_1 \<and>
   calculate_vitals sample_dsp utc_isoformat short_history_1 1001 [60] None =
     Inr short_history_2 \<and>
   tracking_consistent short_history_1 \<and> length (heart_rates short_history_1) = 1 \<and>
   hr_moving_avg short_history_1 = None \<and> hr_std_2 short_history_1 = None \<and>
   tracking_consistent short_history_2 \<and>
   length (heart_rates short_history_2) = moving_avg_size short_history_2 \<and>
   hr_percentile short_history_2 = (15, 80) \<and> hr_std_range short_history_2 = (1, 10) \<and>
   hr_moving_avg short_history_2 = Some (Fin 65) \<and>
   lower_bound short_history_2 = Some (Fin 52.5) \<and>
   upper_bound short_history_2 = Some (Fin 77.5) \<and>
   hr_std_2 short_history_2 = Some (Fin 10)"
proof -
  note rule = statistics_follow_history
    [where sd = "''left''" and cnt = 1
       and params = "Some (default_runtime_params\<lparr>rp_moving_avg_size := 2\<rparr>)"
       and freq = 60 and rolling = 25 and dbg = False and pipeline = sample_dsp
       and conv = utc_isoformat, folded short_history_def]
  have capacity: "0 < moving_avg_size short_history"
    by (simp add: short_history_def new_processor_def)
  have r0: "reachable sample_dsp utc_isoformat short_history short_history"
    by (rule reachable.start)
  have r1: "reachable sample_dsp utc_isoformat short_history short_history_1"
    by (rule reachable.vitals[OF r0 short_history_first])
  have t1: "tracking_consistent short_history_1"
    by (rule rule[OF capacity r0 short_history_first])
  have t2: "tracking_consistent short_history_2"
    by (rule rule[OF capacity r1 short_history_second])
  have fields: "length (heart_rates short_history_1) = 1"
    "hr_moving_avg short_history_1 = None" "hr_std_2 short_history_1 = None"
    "length (heart_rates short_history_2) = moving_avg_size short_history_2"
    "hr_percentile short_history_2 = (15, 80)" "hr_std_range short_history_2 = (1, 10)"
    "hr_moving_avg short_history_2 = Some (Fin 65)"
    "lower_bound short_history_2 = Some (Fin 52.5)"
    "upper_bound short_history_2 = Some (Fin 77.5)"
    "hr_std_2 short_history_2 = Some (Fin 10)"
    by (simp_all add: short_history_1_def short_history_2_def short_history_def
          new_processor_def default_runtime_params_def)
  from capacity r1 short_history_second t1 t2 fields show ?thesis by simp
qed

section \<open>Periodic insertion\<close>

text \<open>
  C3. For a processor that is not in debug mode, with a positive insertion frequency and a
  positive rolling average size. Every call of \<^verbatim>\<open>calculate_vitals\<close> that returns
  increments \<open>iteration_count\<close> (which starts at 0, so it is positive afterwards) and hands
  at most one record to \<^verbatim>\<open>insert_vitals\<close>: exactly one when the new count is a multiple of
  the insertion frequency and a combined measurement exists, none otherwise. The record
  handed over is the most recent combined measurement with its heart rate overwritten, in
  place, by the mean of the last \<open>rolling_average_size\<close> entries of \<open>heart_rates\<close>. Hence in
  a window of \<open>insertion_frequency\<close> calls that starts at a count that is a multiple of the
  frequency and in which some call produced a measurement, the sink is invoked exactly
  once, by the last call of the window, and with that record.
\<close>

theorem insertion_once_per_window:
  assumes nd: "\<not> debug s" and freq: "0 < insertion_frequency s"
    and roll: "0 < rolling_average_size s"
  shows
  "(\<forall>ep signal1 signal2 s'. calculate_vitals pipeline conv s ep signal1 signal2 = Inr s' \<longrightarrow>
      (\<exists>s1. fusion_stage pipeline s ep signal1 signal2 = Inr s1 \<and>
         iteration_count s' = iteration_count s + 1 \<and>
         (if iteration_count s' mod insertion_frequency s = 0 \<and> combined_measurements s1 \<noteq> []
          then (\<exists>m. inserted s' = inserted s @ [m] \<and>
                 m = (last (combined_measurements s1))
                       \<lparr>heart_rate := np_mean (last_entries (nat (rolling_average_size s))
                                                 (heart_rates s'))\<rparr> \<and>
                 combined_measurements s' = butlast (combined_measurements s1) @ [m])
          else inserted s' = inserted s \<and>
               combined_measurements s' = combined_measurements s1))) \<and>
   (\<forall>calls s'. iteration_count s mod insertion_frequency s = 0 \<and>
       length calls = nat (insertion_frequency s) \<and>
       calculate_vitals_all pipeline conv s calls = Inr s' \<and>
       (\<exists>pre call post si. calls = pre @ call # post \<and>
           calculate_vitals_all pipeline conv s pre = Inr si \<and> produces pipeline si call) \<longrightarrow>
       iteration_count s' = iteration_count s + insertion_frequency s \<and>
       (\<exists>m. inserted s' = inserted s @ [m] \<and> last (combined_measurements s') = m \<and>
            heart_rate m = np_mean (last_entries (nat (rolling_average_size s)) (heart_rates s'))) \<and>
       (\<forall>k < length calls. \<forall>sk. calculate_vitals_all pipeline conv s (take k calls) = Inr sk
            \<longrightarrow> inserted sk = inserted s))"
proof (intro conjI allI impI)
  fix ep signal1 signal2 s'
  assume ret: "calculate_vitals pipeline conv s ep signal1 signal2 = Inr s'"
  from calculate_vitals_insertion[OF nd ret] obtain s1 where
    s1: "fusion_stage pipeline s ep signal1 signal2 = Inr s1"
    and ic: "iteration_count s' = iteration_count s + 1"
    and alt: "if iteration_count s' mod insertion_frequency s = 0 \<and> combined_measurements s1 \<noteq> []
           then inserted s' = inserted s @
                  [(last (combined_measurements s1))
                     \<lparr>heart_rate := np_mean (slice_from (rolling_average_size s * - 1) (heart_rates s'))\<rparr>] \<and>
                combined_measurements s' = butlast (combined_measurements s1) @
                  [(last (combined_measurements s1))
                     \<lparr>heart_rate := np_mean (slice_from (rolling_average_size s * - 1) (heart_rates s'))\<rparr>]
           else inserted s' = inserted s \<and> combined_measurements s' = combined_measurements s1"
    by blast
  from s1 ic alt
  show "\<exists>s1. fusion_stage pipeline s ep signal1 signal2 = Inr s1 \<and>
         iteration_count s' = iteration_count s + 1 \<and>
         (if iteration_count s' mod insertion_frequency s = 0 \<and> combined_measurements s1 \<noteq> []
          then (\<exists>m. inserted s' = inserted s @ [m] \<and>
                 m = (last (combined_measurements s1))
                       \<lparr>heart_rate := np_mean (last_entries (nat (rolling_average_size s))
                                                 (heart_rates s'))\<rparr> \<and>
                 combined_measurements s' = butlast (combined_measurements s1) @ [m])
          else inserted s' = inserted s \<and>
               combined_measurements s' = combined_measurements s1)"
    by (intro exI[of _ s1]) (simp add: slice_from_last_entries[OF roll] slice_from_minus[OF roll])
next
  fix calls s' k sk
  assume h: "iteration_count s mod insertion_frequency s = 0 \<and>
       length calls = nat (insertion_frequency s) \<and>
       calculate_vitals_all pipeline conv s calls = Inr s' \<and>
       (\<exists>pre call post si. calls = pre @ call # post \<and>
           calculate_vitals_all pipeline conv s pre = Inr si \<and> produces pipeline si call)"
    and k: "k < length calls"
    and sk: "calculate_vitals_all pipeline conv s (take k calls) = Inr sk"
  from h k have short: "length (take k calls) < nat (insertion_frequency s)" by simp
  from h have aligned: "iteration_count s mod insertion_frequency s = 0" by simp
  from aligned_quiet[OF freq aligned short]
  have "\<forall>j. 1 \<le> j \<and> j \<le> length (take k calls) \<longrightarrow>
           (iteration_count s + int j) mod insertion_frequency s \<noteq> 0" .
  from run_quiet[OF nd sk this] show "inserted sk = inserted s" by simp
next
  fix calls s'
  assume h: "iteration_count s mod insertion_frequency s = 0 \<and>
       length calls = nat (insertion_frequency s) \<and>
       calculate_vitals_all pipeline conv s calls = Inr s' \<and>
       (\<exists>pre call post si. calls = pre @ call # post \<and>
           calculate_vitals_all pipeline conv s pre = Inr si \<and> produces pipeline si call)"
  then have aligned: "iteration_count s mod insertion_frequency s = 0"
    and len: "length calls = nat (insertion_frequency s)"
    and run: "calculate_vitals_all pipeline conv s calls = Inr s'"
    by simp_all
  from h obtain pre call post si where split: "calls = pre @ call # post"
    and pre: "calculate_vitals_all pipeline conv s pre = Inr si"
    and prod: "produces pipeline si call"
    by blast
  from len freq have "calls \<noteq> []" by auto
  then obtain front final where calls: "calls = front @ [final]"
    by (cases calls rule: rev_cases) auto
  obtain ep signal1 signal2 where final: "final = (ep, signal1, signal2)"
    by (cases final) auto
  from run calls final obtain sf where
    front: "calculate_vitals_all pipeline conv s front = Inr sf"
    and last_call: "calculate_vitals pipeline conv sf ep signal1 signal2 = Inr s'"
    by (auto simp: calculate_vitals_all_append split: sum.splits)
  have flen: "length front < nat (insertion_frequency s)" using len calls by simp
  have flen': "int (length front) = insertion_frequency s - 1" using len calls freq by simp
  from aligned_quiet[OF freq aligned flen]
  have "\<forall>j. 1 \<le> j \<and> j \<le> length front \<longrightarrow>
           (iteration_count s + int j) mod insertion_frequency s \<noteq> 0" .
  from run_quiet[OF nd front this]
  have sf: "inserted sf = inserted s" "iteration_count sf = iteration_count s + int (length front)"
    "debug sf = debug s" "insertion_frequency sf = insertion_frequency s"
    "rolling_average_size sf = rolling_average_size s"
    by simp_all
  have ndf: "\<not> debug sf" using sf nd by simp
  have before: "combined_measurements sf \<noteq> [] \<or> produces pipeline sf (ep, signal1, signal2)"
  proof (cases post rule: rev_cases)
    case Nil
    with split calls have "pre = front" "call = final" by simp_all
    with pre front prod final show ?thesis by simp
  next
    case (snoc post' z)
    with split calls have fr: "front = pre @ call # post'" by simp
    obtain ep' sg1 sg2 where c: "call = (ep', sg1, sg2)" by (cases call) auto
    from front fr pre c obtain sj where
      one: "calculate_vitals pipeline conv si ep' sg1 sg2 = Inr sj"
      and rest: "calculate_vitals_all pipeline conv sj post' = Inr sf"
      by (auto simp: calculate_vitals_all_append split: sum.splits)
    have "length pre < nat (insertion_frequency s)" using flen fr by simp
    from aligned_quiet[OF freq aligned this]
    have "\<forall>j. 1 \<le> j \<and> j \<le> length pre \<longrightarrow>
           (iteration_count s + int j) mod insertion_frequency s \<noteq> 0" .
    from run_quiet[OF nd pre this] nd have ndi: "\<not> debug si" by simp
    from calculate_vitals_keeps_records[OF ndi one] prod c
    have nej: "combined_measurements sj \<noteq> []" by simp
    from calculate_vitals_insertion[OF ndi one] ndi have ndj: "\<not> debug sj" by auto
    from run_keeps_records[OF ndj rest nej] show ?thesis by simp
  qed
  from calculate_vitals_insertion[OF ndf last_call] obtain s1 where
    s1: "fusion_stage pipeline sf ep signal1 signal2 = Inr s1"
    and ic: "iteration_count s' = iteration_count sf + 1"
    and alt: "if iteration_count s' mod insertion_frequency sf = 0 \<and> combined_measurements s1 \<noteq> []
           then inserted s' = inserted sf @
                  [(last (combined_measurements s1))
                     \<lparr>heart_rate := np_mean (slice_from (rolling_average_size sf * - 1) (heart_rates s'))\<rparr>] \<and>
                combined_measurements s' = butlast (combined_measurements s1) @
                  [(last (combined_measurements s1))
                     \<lparr>heart_rate := np_mean (slice_from (rolling_average_size sf * - 1) (heart_rates s'))\<rparr>]
           else inserted s' = inserted sf \<and> combined_measurements s' = combined_measurements s1"
    by blast
  have ne: "combined_measurements s1 \<noteq> []"
    using fusion_stage_nonempty[OF s1 before] .
  have count: "iteration_count s' = iteration_count s + insertion_frequency s"
    using ic sf flen' by simp
  have fires: "iteration_count s' mod insertion_frequency sf = 0"
    using count aligned sf by simp
  let ?m = "(last (combined_measurements s1))
              \<lparr>heart_rate := np_mean (slice_from (rolling_average_size sf * - 1) (heart_rates s'))\<rparr>"
  from alt fires ne have ins: "inserted s' = inserted sf @ [?m]"
    and cm: "combined_measurements s' = butlast (combined_measurements s1) @ [?m]"
    by simp_all
  have "inserted s' = inserted s @ [?m] \<and> last (combined_measurements s') = ?m \<and>
        heart_rate ?m = np_mean (last_entries (nat (rolling_average_size s)) (heart_rates s'))"
    using ins cm sf by (simp add: slice_from_last_entries[OF roll] slice_from_minus[OF roll])
  then have "\<exists>m. inserted s' = inserted s @ [m] \<and> last (combined_measurements s') = m \<and>
            heart_rate m = np_mean (last_entries (nat (rolling_average_size s)) (heart_rates s'))"
    by blast
  with count show "iteration_count s' = iteration_count s + insertion_frequency s" 
    and "\<exists>m. inserted s' = inserted s @ [m] \<and> last (combined_measurements s') = m \<and>
            heart_rate m = np_mean (last_entries (nat (rolling_average_size s)) (heart_rates s'))"
    by simp_all
qed

theorem insertion_once_per_window_witness:
  "\<not> debug every_second \<and> 0 < insertion_frequency every_second \<and>
   0 < rolling_average_size every_second \<and>
   iteration_count every_second mod insertion_frequency every_second = 0 \<and>
   length two_epochs = nat (insertion_frequency every_second) \<and>
   produces sample_dsp every_second (1000, [70], None) \<and>
   (\<exists>s'. calculate_vitals_all sample_dsp utc_isoformat every_second two_epochs = Inr s' \<and>
         iteration_count s' = 2 \<and> inserted s' = [sample_measurement 65 1001] \<and>
         last (combined_measurements s') = sample_measurement 65 1001 \<and>
         heart_rate (sample_measurement 65 1001) =
           np_mean (last_entries 25 (heart_rates s')))"
proof -
  let ?s' = "every_second\<lparr>epoch := Some 1001, heart_rates := [Fin 70, Fin 60],
            combined_measurements := [sample_measurement 70 1000, sample_measurement 65 1001],
            inserted := [sample_measurement 65 1001], iteration_count := 2\<rparr>"
  have nd: "\<not> debug every_second" by (rule every_second_fields)
  have freq: "0 < insertion_frequency every_second" by (simp add: every_second_fields)
  have roll: "0 < rolling_average_size every_second" by (simp add: every_second_fields)
  have aligned: "iteration_count every_second mod insertion_frequency every_second = 0"
    by (simp add: every_second_fields)
  have len: "length two_epochs = nat (insertion_frequency every_second)"
    by (simp add: every_second_fields two_epochs_def)
  have prod: "produces sample_dsp every_second (1000, [70], None)"
    by (simp add: produces_def every_second_def eval_defs)
  have split: "two_epochs = [] @ (1000, [70], None) # [(1001, [60], None)]"
    by (simp add: two_epochs_def)
  have start: "calculate_vitals_all sample_dsp utc_isoformat every_second [] = Inr every_second"
    by simp
  have window: "iteration_count every_second mod insertion_frequency every_second = 0 \<and>
       length two_epochs = nat (insertion_frequency every_second) \<and>
       calculate_vitals_all sample_dsp utc_isoformat every_second two_epochs = Inr ?s' \<and>
       (\<exists>pre call post si. two_epochs = pre @ call # post \<and>
           calculate_vitals_all sample_dsp utc_isoformat every_second pre = Inr si \<and>
           produces sample_dsp si call)"
    using aligned len two_epochs_run split start prod by blast
  note rule = insertion_once_per_window [OF nd freq roll, of sample_dsp utc_isoformat]
  from conjunct2 [OF rule, rule_format, OF window]
  have "iteration_count ?s' = iteration_count every_second + insertion_frequency every_second \<and>
       (\<exists>m. inserted ?s' = inserted every_second @ [m] \<and> last (combined_measurements ?s') = m \<and>
            heart_rate m = np_mean (last_entries (nat (rolling_average_size every_second))
                                      (heart_rates ?s')))"
    by (elim conjE) (intro conjI; assumption)
  then have "iteration_count ?s' = 2 \<and> inserted ?s' = [sample_measurement 65 1001] \<and>
         last (combined_measurements ?s') = sample_measurement 65 1001 \<and>
         heart_rate (sample_measurement 65 1001) = np_mean (last_entries 25 (heart_rates ?s'))"
    by (auto simp: every_second_fields)
  with two_epochs_run have "\<exists>s'. calculate_vitals_all sample_dsp utc_isoformat every_second two_epochs = Inr s' \<and>
         iteration_count s' = 2 \<and> inserted s' = [sample_measurement 65 1001] \<and>
         last (combined_measurements s') = sample_measurement 65 1001 \<and>
         heart_rate (sample_measurement 65 1001) =
           np_mean (last_entries 25 (heart_rates s'))"
    by blast
  with nd freq roll aligned len prod show ?thesis by blast
qed

section \<open>Presence detection\<close>

lemma peak_to_peak_nonneg:
  assumes "nd_samples a \<noteq> []"
  shows "0 \<le> peak_to_peak a"
proof -
  from assms have "hd (nd_samples a) \<in> set (nd_samples a)" by simp
  then have "Min (set (nd_samples a)) \<le> hd (nd_samples a)"
    and "hd (nd_samples a) \<le> Max (set (nd_samples a))"
    by simp_all
  then show ?thesis by (simp add: peak_to_peak_def)
qed

lemma signed_bits_pos: "signed_bits t = Some bits \<Longrightarrow> 0 < bits"
  by (cases t) auto

lemma wrap_signed_id:
  assumes bits: "0 < bits" and lo: "0 \<le> x" and hi: "x < 2 ^ (bits - 1)"
  shows "wrap_signed bits x = x"
proof -
  from bits have double: "(2::int) ^ bits = 2 * 2 ^ (bits - 1)"
    by (cases bits) simp_all
  have "0 \<le> x + 2 ^ (bits - 1)" using lo by simp
  moreover have "x + 2 ^ (bits - 1) < 2 ^ bits" using hi double by simp
  ultimately have "(x + 2 ^ (bits - 1)) mod 2 ^ bits = x + 2 ^ (bits - 1)"
    by (rule mod_pos_pos_trivial)
  then show ?thesis by (simp add: wrap_signed_def)
qed

lemma wrap_signed_less:
  assumes bits: "0 < bits"
  shows "wrap_signed bits x < 2 ^ (bits - 1)"
proof -
  from bits have double: "(2::int) ^ bits = 2 * 2 ^ (bits - 1)"
    by (cases bits) simp_all
  have "(x + 2 ^ (bits - 1)) mod 2 ^ bits < (2::int) ^ bits"
    by (rule pos_mod_bound) simp
  with double show ?thesis by (simp add: wrap_signed_def)
qed

lemma np_ptp_representable:
  assumes ne: "nd_samples a \<noteq> []" and rep: "representable a"
  shows "np_ptp a = Inr (peak_to_peak a)"
proof (cases "signed_bits (nd_dtype a)")
  case None
  with ne show ?thesis by (simp add: np_ptp_def peak_to_peak_def)
next
  case (Some bits)
  with rep have "peak_to_peak a < 2 ^ (bits - 1)" by (simp add: representable_def)
  from wrap_signed_id[OF signed_bits_pos[OF Some] peak_to_peak_nonneg[OF ne] this]
  show ?thesis using ne Some by (simp add: np_ptp_def peak_to_peak_def)
qed

lemma low_amplitude_counted:
  assumes "low_amplitude a"
  shows "counted_low a"
proof -
  from assms have ne: "nd_samples a \<noteq> []" and low: "peak_to_peak a \<le> 200000"
    by (simp_all add: low_amplitude_def)
  show ?thesis
  proof (cases "representable a")
    case True
    from np_ptp_representable[OF ne True] low show ?thesis by (simp add: counted_low_def)
  next
    case False
    then obtain bits where bits: "signed_bits (nd_dtype a) = Some bits"
      and big: "2 ^ (bits - 1) \<le> peak_to_peak a"
      by (auto simp: representable_def split: option.splits)
    from wrap_signed_less[OF signed_bits_pos[OF bits], of "peak_to_peak a"] big low
    have "wrap_signed bits (peak_to_peak a) \<le> 200000" by simp
    with ne bits show ?thesis
      by (simp add: counted_low_def np_ptp_def peak_to_peak_def)
  qed
qed

lemma high_amplitude_counted:
  assumes "high_amplitude a" and "representable a"
  shows "counted_high a"
proof -
  from assms(1) have ne: "nd_samples a \<noteq> []" and high: "200000 < peak_to_peak a"
    by (simp_all add: high_amplitude_def)
  from np_ptp_representable[OF ne assms(2)] high show ?thesis
    by (simp add: counted_high_def)
qed

lemma detect_presence_low:
  assumes "counted_low sig"
  shows "detect_presence s sig =
           Inr (if not_present_for s + 1 = no_presence_tolerance s
                then s\<lparr>not_present_for := not_present_for s + 1, present := False,
                       iteration_count := 0, heart_rates := [], lower_bound := None,
                       upper_bound := None, hr_moving_avg := None, hr_std_2 := None\<rparr>
                else s\<lparr>not_present_for := not_present_for s + 1\<rparr>)"
  using assms
  by (auto simp: counted_low_def detect_presence_def reset_def init_tracking_def Let_def
           split: sum.splits)

lemma detect_presence_high:
  assumes "counted_high sig"
  shows "detect_presence s sig = Inr (s\<lparr>not_present_for := 0, present := True\<rparr>)"
  using assms
  by (auto simp: counted_high_def detect_presence_def split: sum.splits)

lemma detect_presence_all_append:
  "detect_presence_all s (xs @ ys) =
     (case detect_presence_all s xs of Inl r \<Rightarrow> Inl r | Inr s' \<Rightarrow> detect_presence_all s' ys)"
  by (induction xs arbitrary: s) (auto split: sum.splits)

lemma low_run_no_reset:
  assumes "\<forall>sig \<in> set lows. counted_low sig"
    and "\<forall>k. 1 \<le> k \<and> k \<le> length lows \<longrightarrow> not_present_for s + int k \<noteq> no_presence_tolerance s"
  shows "detect_presence_all s lows = Inr (s\<lparr>not_present_for := not_present_for s + int (length lows)\<rparr>)"
  using assms
proof (induction lows arbitrary: s)
  case Nil
  then show ?case by simp
next
  case (Cons sig lows)
  let ?s1 = "s\<lparr>not_present_for := not_present_for s + 1\<rparr>"
  from Cons.prems(2)[rule_format, of 1] have ne: "not_present_for s + 1 \<noteq> no_presence_tolerance s"
    by simp
  from Cons.prems(1) have "counted_low sig" by simp
  then have step: "detect_presence s sig = Inr ?s1"
    using ne by (simp add: detect_presence_low)
  have "\<forall>k. 1 \<le> k \<and> k \<le> length lows \<longrightarrow> not_present_for ?s1 + int k \<noteq> no_presence_tolerance ?s1"
  proof (intro allI impI)
    fix k assume "1 \<le> k \<and> k \<le> length lows"
    then have "1 \<le> Suc k \<and> Suc k \<le> length (sig # lows)" by simp
    from Cons.prems(2)[rule_format, OF this] show "not_present_for ?s1 + int k \<noteq> no_presence_tolerance ?s1"
      by simp
  qed
  with Cons.IH[of ?s1] Cons.prems(1)
  have "detect_presence_all ?s1 lows = Inr (?s1\<lparr>not_present_for := not_present_for ?s1 + int (length lows)\<rparr>)"
    by simp
  with step show ?case by (simp add: add.assoc)
qed

text \<open>
  C4 as it holds. For every processor (whose tolerance is the 10 that the constructor
  sets), a call of \<^verbatim>\<open>detect_presence\<close> with a signal of peak-to-peak range at most
  200,000 increments \<open>not_present_for\<close> and leaves \<open>combined_measurements\<close> as it is; when
  the counter becomes exactly 10 the call sets \<open>present\<close> to false, empties \<open>heart_rates\<close>,
  unsets the bounds, the moving average and the band and zeroes \<open>iteration_count\<close>, and
  otherwise it changes nothing else. A call with a signal of peak-to-peak range above
  200,000 that the dtype of the array can represent sets \<open>present\<close> and zeroes the counter
  and changes nothing else. Nine low-amplitude calls followed by such a high-amplitude
  one, on a processor whose counter is not already part-way to the tolerance (it is 0
  after construction and after every such high-amplitude call, and at least 10 after a
  reset), only count: after \<open>k\<close> of them the processor differs from the initial one in the
  counter alone, and the high-amplitude call then zeroes it.
\<close>

theorem detect_presence_reset_rule:
  assumes tol: "no_presence_tolerance s = 10"
  shows
   "(\<forall>sig. low_amplitude sig \<longrightarrow>
       (\<exists>s'. detect_presence s sig = Inr s' \<and>
             not_present_for s' = not_present_for s + 1 \<and>
             combined_measurements s' = combined_measurements s \<and>
             (if not_present_for s' = 10
              then present s' = False \<and> heart_rates s' = [] \<and> lower_bound s' = None \<and>
                   upper_bound s' = None \<and> hr_moving_avg s' = None \<and> hr_std_2 s' = None \<and>
                   iteration_count s' = 0
              else s' = s\<lparr>not_present_for := not_present_for s + 1\<rparr>))) \<and>
    (\<forall>sig. high_amplitude sig \<and> representable sig \<longrightarrow>
       detect_presence s sig = Inr (s\<lparr>not_present_for := 0, present := True\<rparr>)) \<and>
    (\<forall>lows high.
        length lows = 9 \<and> (\<forall>sig \<in> set lows. low_amplitude sig) \<and>
        high_amplitude high \<and> representable high \<and>
        (not_present_for s \<le> 0 \<or> 10 \<le> not_present_for s) \<longrightarrow>
        (\<forall>k \<le> 9. detect_presence_all s (take k lows) =
                     Inr (s\<lparr>not_present_for := not_present_for s + int k\<rparr>)) \<and>
        detect_presence_all s (lows @ [high]) = Inr (s\<lparr>not_present_for := 0, present := True\<rparr>))"
proof (intro conjI allI impI)
  fix sig assume "low_amplitude sig"
  then have "counted_low sig" by (rule low_amplitude_counted)
  then show "\<exists>s'. detect_presence s sig = Inr s' \<and>
             not_present_for s' = not_present_for s + 1 \<and>
             combined_measurements s' = combined_measurements s \<and>
             (if not_present_for s' = 10
              then present s' = False \<and> heart_rates s' = [] \<and> lower_bound s' = None \<and>
                   upper_bound s' = None \<and> hr_moving_avg s' = None \<and> hr_std_2 s' = None \<and>
                   iteration_count s' = 0
              else s' = s\<lparr>not_present_for := not_present_for s + 1\<rparr>)"
    using tol by (simp add: detect_presence_low)
next
  fix sig assume "high_amplitude sig \<and> representable sig"
  then have "counted_high sig" by (simp add: high_amplitude_counted)
  then show "detect_presence s sig = Inr (s\<lparr>not_present_for := 0, present := True\<rparr>)"
    by (rule detect_presence_high)
next
  fix lows high k
  assume h: "length lows = 9 \<and> (\<forall>sig \<in> set lows. low_amplitude sig) \<and>
        high_amplitude high \<and> representable high \<and>
        (not_present_for s \<le> 0 \<or> 10 \<le> not_present_for s)"
    and k: "k \<le> (9::nat)"
  have "\<forall>sig \<in> set (take k lows). counted_low sig"
    using h by (auto dest: in_set_takeD intro: low_amplitude_counted)
  moreover have "\<forall>j. 1 \<le> j \<and> j \<le> length (take k lows) \<longrightarrow>
                     not_present_for s + int j \<noteq> no_presence_tolerance s"
    using h k tol by auto
  ultimately have "detect_presence_all s (take k lows) =
      Inr (s\<lparr>not_present_for := not_present_for s + int (length (take k lows))\<rparr>)"
    by (rule low_run_no_reset)
  then show "detect_presence_all s (take k lows) =
      Inr (s\<lparr>not_present_for := not_present_for s + int k\<rparr>)"
    using h k by simp
next
  fix lows high
  assume h: "length lows = 9 \<and> (\<forall>sig \<in> set lows. low_amplitude sig) \<and>
        high_amplitude high \<and> representable high \<and>
        (not_present_for s \<le> 0 \<or> 10 \<le> not_present_for s)"
  have lows: "\<forall>sig \<in> set lows. counted_low sig"
    using h by (auto intro: low_amplitude_counted)
  have "\<forall>j. 1 \<le> j \<and> j \<le> length lows \<longrightarrow> not_present_for s + int j \<noteq> no_presence_tolerance s"
    using h tol by auto
  with lows have "detect_presence_all s lows =
      Inr (s\<lparr>not_present_for := not_present_for s + int (length lows)\<rparr>)"
    by (rule low_run_no_reset)
  moreover have "counted_high high" using h by (simp add: high_amplitude_counted)
  ultimately show "detect_presence_all s (lows @ [high]) =
      Inr (s\<lparr>not_present_for := 0, present := True\<rparr>)"
    by (simp add: detect_presence_all_append detect_presence_high)
qed

lemma sample_arrays:
  "low_amplitude (int32 [0, 200000])" "high_amplitude (int32 [0, 200001])"
  "representable (int32 [0, 200001])"
  "high_amplitude (int32 [- 2000000000, 2000000000])"
  "peak_to_peak (int32 [- 2000000000, 2000000000]) = 4000000000"
  "\<not> representable (int32 [- 2000000000, 2000000000])"
  "np_ptp (int32 [- 2000000000, 2000000000]) = Inr (- 294967296)"
  "counted_low (int32 [- 2000000000, 2000000000])"
  by (simp_all add: low_amplitude_def high_amplitude_def representable_def peak_to_peak_def
        counted_low_def np_ptp_def wrap_signed_def int32_def)

theorem detect_presence_reset_rule_witness:
  "no_presence_tolerance fresh = 10 \<and> low_amplitude (int32 [0, 200000]) \<and>
   high_amplitude (int32 [0, 200001]) \<and> representable (int32 [0, 200001]) \<and>
   detect_presence_all fresh (replicate 9 (int32 [0, 200000]) @ [int32 [0, 200001]]) =
     Inr (fresh\<lparr>not_present_for := 0, present := True\<rparr>) \<and>
   detect_presence fresh (int32 [0, 200001]) =
     Inr (fresh\<lparr>not_present_for := 0, present := True\<rparr>) \<and>
   (\<exists>s'. detect_presence (banded\<lparr>not_present_for := 9, heart_rates := [Fin 60]\<rparr>)
           (int32 [0, 200000]) = Inr s' \<and>
         not_present_for s' = 10 \<and> present s' = False \<and> heart_rates s' = [] \<and>
         lower_bound s' = None \<and> upper_bound s' = None)"
proof -
  have tol: "no_presence_tolerance fresh = 10"
    by (simp add: fresh_def new_processor_def)
  have tol': "no_presence_tolerance (banded\<lparr>not_present_for := 9, heart_rates := [Fin 60]\<rparr>) = 10"
    by (simp add: banded_def fresh_def new_processor_def)
  note lo = sample_arrays(1) and hi = sample_arrays(2) and rep = sample_arrays(3)
  have npf: "not_present_for fresh = 0"
    by (simp add: fresh_def new_processor_def)
  have npf': "not_present_for (banded\<lparr>not_present_for := 9, heart_rates := [Fin 60]\<rparr>) = 9"
    by simp
  show ?thesis
    using detect_presence_reset_rule [OF tol] detect_presence_reset_rule [OF tol']
      tol lo hi rep npf npf'
    by (auto simp del: replicate.simps)
qed

text \<open>
  C4 as stated fails. The int32 signal with the samples -2000000000 and 2000000000 has a
  peak-to-peak range of 4000000000, more than 200,000; \<^verbatim>\<open>np.ptp\<close> returns -294967296
  for it, so a call on the default processor counts a low-amplitude epoch and leaves
  \<open>present\<close> false, and after nine low-amplitude epochs on a processor with a history
  that signal is the tenth low count and the processor is reset. And on a processor that
  has already counted one low-amplitude epoch, the ninth of nine further ones is the
  tenth in a row and resets it before the high-amplitude epoch comes.
\<close>

theorem detect_presence_wrapped_range_counterexample:
  "high_amplitude (int32 [- 2000000000, 2000000000]) \<and>
   peak_to_peak (int32 [- 2000000000, 2000000000]) = 4000000000 \<and>
   detect_presence fresh (int32 [- 2000000000, 2000000000]) =
     Inr (fresh\<lparr>not_present_for := 1\<rparr>) \<and>
   present (fresh\<lparr>not_present_for := 1\<rparr>) = False \<and>
   not_present_for warm = 0 \<and> heart_rates warm = [Fin 60, Fin 60] \<and>
   detect_presence_all warm
       (replicate 9 (int32 [0, 200000]) @ [int32 [- 2000000000, 2000000000]]) =
     Inr (warm\<lparr>not_present_for := 10, present := False, iteration_count := 0,
               heart_rates := [], lower_bound := None, upper_bound := None,
               hr_moving_avg := None, hr_std_2 := None\<rparr>) \<and>
   detect_presence_all (warm\<lparr>not_present_for := 1\<rparr>)
       (replicate 9 (int32 [0, 200000]) @ [int32 [0, 200001]]) =
     Inr (warm\<lparr>not_present_for := 0, present := True, iteration_count := 0,
               heart_rates := [], lower_bound := None, upper_bound := None,
               hr_moving_avg := None, hr_std_2 := None\<rparr>)"
proof -
  have tolf: "no_presence_tolerance fresh = 10" and npff: "not_present_for fresh = 0"
    and pf: "present fresh = False"
    by (simp_all add: fresh_def new_processor_def)
  have tolw: "no_presence_tolerance warm = 10" and npfw: "not_present_for warm = 0"
    by (simp_all add: warm_def fresh_def new_processor_def)
  have one: "detect_presence fresh (int32 [- 2000000000, 2000000000]) =
     Inr (fresh\<lparr>not_present_for := 1\<rparr>)"
    using detect_presence_low[OF sample_arrays(8), of fresh] tolf npff by simp
  have "\<forall>sig \<in> set (replicate 9 (int32 [0, 200000])). counted_low sig"
    by (simp add: low_amplitude_counted sample_arrays)
  moreover have "\<forall>k. 1 \<le> k \<and> k \<le> length (replicate 9 (int32 [0, 200000])) \<longrightarrow>
      not_present_for warm + int k \<noteq> no_presence_tolerance warm"
    using tolw npfw by auto
  ultimately have nine: "detect_presence_all warm (replicate 9 (int32 [0, 200000])) =
      Inr (warm\<lparr>not_present_for := 9\<rparr>)"
    using low_run_no_reset[of "replicate 9 (int32 [0, 200000])" warm] npfw by simp
  have tenth: "detect_presence (warm\<lparr>not_present_for := 9\<rparr>)
        (int32 [- 2000000000, 2000000000]) =
     Inr (warm\<lparr>not_present_for := 10, present := False, iteration_count := 0,
               heart_rates := [], lower_bound := None, upper_bound := None,
               hr_moving_avg := None, hr_std_2 := None\<rparr>)"
    using detect_presence_low[OF sample_arrays(8), of "warm\<lparr>not_present_for := 9\<rparr>"] tolw
    by simp
  have run: "detect_presence_all warm
       (replicate 9 (int32 [0, 200000]) @ [int32 [- 2000000000, 2000000000]]) =
     Inr (warm\<lparr>not_present_for := 10, present := False, iteration_count := 0,
               heart_rates := [], lower_bound := None, upper_bound := None,
               hr_moving_avg := None, hr_std_2 := None\<rparr>)"
    by (simp only: detect_presence_all_append nine sum.case detect_presence_all.simps tenth)
  have "\<forall>sig \<in> set (replicate 8 (int32 [0, 200000])). counted_low sig"
    by (simp add: low_amplitude_counted sample_arrays)
  moreover have "\<forall>k. 1 \<le> k \<and> k \<le> length (replicate 8 (int32 [0, 200000])) \<longrightarrow>
      not_present_for (warm\<lparr>not_present_for := 1\<rparr>) + int k \<noteq>
      no_presence_tolerance (warm\<lparr>not_present_for := 1\<rparr>)"
    using tolw by auto
  ultimately have eight: "detect_presence_all (warm\<lparr>not_present_for := 1\<rparr>)
        (replicate 8 (int32 [0, 200000])) = Inr (warm\<lparr>not_present_for := 9\<rparr>)"
    using low_run_no_reset[of "replicate 8 (int32 [0, 200000])" "warm\<lparr>not_present_for := 1\<rparr>"]
    by simp
  have ninth: "detect_presence (warm\<lparr>not_present_for := 9\<rparr>) (int32 [0, 200000]) =
     Inr (warm\<lparr>not_present_for := 10, present := False, iteration_count := 0,
               heart_rates := [], lower_bound := None, upper_bound := None,
               hr_moving_avg := None, hr_std_2 := None\<rparr>)"
    using detect_presence_low[OF low_amplitude_counted[OF sample_arrays(1)],
        of "warm\<lparr>not_present_for := 9\<rparr>"] tolw
    by simp
  have split: "replicate 9 (int32 [0, 200000]) @ [int32 [0, 200001]] =
      replicate 8 (int32 [0, 200000]) @ [int32 [0, 200000]] @ [int32 [0, 200001]]"
    by (simp add: numeral_eq_Suc replicate_app_Cons_same)
  have late: "detect_presence_all (warm\<lparr>not_present_for := 1\<rparr>)
       (replicate 9 (int32 [0, 200000]) @ [int32 [0, 200001]]) =
     Inr (warm\<lparr>not_present_for := 0, present := True, iteration_count := 0,
               heart_rates := [], lower_bound := None, upper_bound := None,
               hr_moving_avg := None, hr_std_2 := None\<rparr>)"
    unfolding split
    by (simp add: detect_presence_all_append eight ninth
          detect_presence_high[OF high_amplitude_counted[OF sample_arrays(2,3)]]
          del: replicate.simps replicate_Suc)
  from one run late pf npfw sample_arrays(4,5) show ?thesis
    by (simp add: warm_fields)
qed

section \<open>Fusion of two measurements\<close>

text \<open>
  C5. When both signals yield a valid measurement, with BPMs \<open>b1\<close> and \<open>b2\<close>: without a
  moving average the value appended to the history and recorded is the average of the two
  BPMs; with a moving average \<open>a\<close> and a band \<open>d\<close> it is the clamped average of that pairwise
  average and \<open>a\<close>. The recorded \<open>hrv\<close> is half the sum of the two measurements' HRV
  values, the recorded \<open>breathing_rate\<close> is the sum of their breathing rates, not halved.
  Nothing else of the processor changes but \<open>epoch\<close>.
\<close>

theorem fusion_of_two_measurements:
  assumes m1: "try_vitals pipeline s signal1 ep = Some m1"
    and m2: "try_vitals pipeline s sig2 ep = Some m2"
  shows "\<exists>b1 b2. heart_rate m1 = Fin b1 \<and> heart_rate m2 = Fin b2 \<and>
    (hr_moving_avg s = None \<longrightarrow>
       fusion_stage pipeline s ep signal1 (Some sig2) =
         Inr (s\<lparr>epoch := Some ep,
                heart_rates := deque_append (moving_avg_size s) (heart_rates s) (Fin ((b1 + b2) / 2)),
                combined_measurements := deque_append 100 (combined_measurements s)
                  \<lparr>m_side = side s, timestamp = ep, heart_rate = Fin ((b1 + b2) / 2),
                   hrv = fhalf (fadd (hrv m1) (hrv m2)),
                   breathing_rate = fadd (breathing_rate m1) (breathing_rate m2)\<rparr>\<rparr>)) \<and>
    (\<forall>a d. hr_moving_avg s = Some (Fin a) \<and> hr_std_2 s = Some (Fin d) \<longrightarrow>
       fusion_stage pipeline s ep signal1 (Some sig2) =
         Inr (s\<lparr>epoch := Some ep,
                heart_rates := deque_append (moving_avg_size s) (heart_rates s)
                  (Fin (clamped a d (((b1 + b2) / 2 + a) / 2))),
                combined_measurements := deque_append 100 (combined_measurements s)
                  \<lparr>m_side = side s, timestamp = ep,
                   heart_rate = Fin (clamped a d (((b1 + b2) / 2 + a) / 2)),
                   hrv = fhalf (fadd (hrv m1) (hrv m2)),
                   breathing_rate = fadd (breathing_rate m1) (breathing_rate m2)\<rparr>\<rparr>))"
proof -
  let ?s = "s\<lparr>epoch := Some ep\<rparr>"
  from try_vitals_Some[OF m1] obtain b1 where b1: "heart_rate m1 = Fin b1" by blast
  from try_vitals_Some[OF m2] obtain b2 where b2: "heart_rate m2 = Fin b2" by blast
  have stage: "fusion_stage pipeline s ep signal1 (Some sig2) =
                 fuse_measurements ?s ep (Some m1) (Some m2)"
    using m1 m2 by (simp add: fusion_stage_eq)
  have none: "fusion_stage pipeline s ep signal1 (Some sig2) =
         Inr (s\<lparr>epoch := Some ep,
                heart_rates := deque_append (moving_avg_size s) (heart_rates s) (Fin ((b1 + b2) / 2)),
                combined_measurements := deque_append 100 (combined_measurements s)
                  \<lparr>m_side = side s, timestamp = ep, heart_rate = Fin ((b1 + b2) / 2),
                   hrv = fhalf (fadd (hrv m1) (hrv m2)),
                   breathing_rate = fadd (breathing_rate m1) (breathing_rate m2)\<rparr>\<rparr>)"
    if unset: "hr_moving_avg s = None"
  proof -
    have "clamp_heart_rate ?s
             (case hr_moving_avg ?s of
                Some avg \<Rightarrow> fhalf (fadd (fhalf (fadd (heart_rate m1) (heart_rate m2))) avg)
              | None \<Rightarrow> fhalf (fadd (heart_rate m1) (heart_rate m2))) = Inr (Fin ((b1 + b2) / 2))"
      using unset b1 b2 by (simp add: clamp_heart_rate_unset)
    from fuse_both[OF this, of ep] stage show ?thesis by simp
  qed
  have some: "fusion_stage pipeline s ep signal1 (Some sig2) =
         Inr (s\<lparr>epoch := Some ep,
                heart_rates := deque_append (moving_avg_size s) (heart_rates s)
                  (Fin (clamped a d (((b1 + b2) / 2 + a) / 2))),
                combined_measurements := deque_append 100 (combined_measurements s)
                  \<lparr>m_side = side s, timestamp = ep,
                   heart_rate = Fin (clamped a d (((b1 + b2) / 2 + a) / 2)),
                   hrv = fhalf (fadd (hrv m1) (hrv m2)),
                   breathing_rate = fadd (breathing_rate m1) (breathing_rate m2)\<rparr>\<rparr>)"
    if set: "hr_moving_avg s = Some (Fin a) \<and> hr_std_2 s = Some (Fin d)" for a d
  proof -
    have "clamp_heart_rate ?s
             (case hr_moving_avg ?s of
                Some avg \<Rightarrow> fhalf (fadd (fhalf (fadd (heart_rate m1) (heart_rate m2))) avg)
              | None \<Rightarrow> fhalf (fadd (heart_rate m1) (heart_rate m2))) =
           Inr (Fin (clamped a d (((b1 + b2) / 2 + a) / 2)))"
      using set b1 b2 by (simp add: clamp_heart_rate_set)
    from fuse_both[OF this, of ep] stage show ?thesis by simp
  qed
  show ?thesis
    by (intro exI[of _ b1] exI[of _ b2] conjI impI allI; (rule b1 b2 none some; assumption))
qed

theorem fusion_of_two_measurements_witness:
  "try_vitals sample_dsp fresh [70] 1000 = Some (sample_measurement 70 1000) \<and>
   try_vitals sample_dsp fresh [60] 1000 = Some (sample_measurement 60 1000) \<and>
   fusion_stage sample_dsp fresh 1000 [70] (Some [60]) =
     Inr (fresh\<lparr>epoch := Some 1000, heart_rates := [Fin 65],
                combined_measurements :=
                  [\<lparr>m_side = ''left'', timestamp = 1000, heart_rate = Fin 65, hrv = Fin 50,
                    breathing_rate = Fin 30\<rparr>]\<rparr>) \<and>
   fusion_stage sample_dsp warm 1000 [70] (Some [60]) =
     Inr (warm\<lparr>epoch := Some 1000, heart_rates := [Fin 60, Fin 61],
               combined_measurements :=
                 [\<lparr>m_side = ''left'', timestamp = 1000, heart_rate = Fin 61, hrv = Fin 50,
                   breathing_rate = Fin 30\<rparr>]\<rparr>)"
  using fusion_of_two_measurements [OF try_vitals_fresh(1) try_vitals_fresh(2)]
    fusion_of_two_measurements [OF try_vitals_warm(1) try_vitals_warm(2)]
  by (simp add: try_vitals_fresh try_vitals_warm fresh_fields warm_fields sample_measurement_def
        deque_append_def clamped_def)

section \<open>Fusion of a single measurement\<close>

text \<open>
  C6. When only the first signal yields a valid measurement, with BPM \<open>b1\<close>, the candidate
  is \<open>b1\<close> itself: it is clamped around the moving average when there is one and never
  averaged with it. When only the second signal does, with BPM \<open>b2\<close>, the candidate is the
  average of \<open>b2\<close> and the moving average \<open>a\<close> when there is one, and that is clamped. In
  both cases, without a moving average the signal's own BPM is appended to the history and
  the measurement is recorded unchanged.
\<close>

theorem fusion_of_one_measurement:
  "(\<forall>m1. try_vitals pipeline s signal1 ep = Some m1 \<and>
          (case signal2 of None \<Rightarrow> None | Some sig2 \<Rightarrow> try_vitals pipeline s sig2 ep) = None \<longrightarrow>
     (\<exists>b1. heart_rate m1 = Fin b1 \<and>
        (hr_moving_avg s = None \<longrightarrow>
           fusion_stage pipeline s ep signal1 signal2 =
             Inr (s\<lparr>epoch := Some ep,
                    heart_rates := deque_append (moving_avg_size s) (heart_rates s) (Fin b1),
                    combined_measurements := deque_append 100 (combined_measurements s) m1\<rparr>)) \<and>
        (\<forall>a d. hr_moving_avg s = Some (Fin a) \<and> hr_std_2 s = Some (Fin d) \<longrightarrow>
           fusion_stage pipeline s ep signal1 signal2 =
             Inr (s\<lparr>epoch := Some ep,
                    heart_rates := deque_append (moving_avg_size s) (heart_rates s)
                      (Fin (clamped a d b1)),
                    combined_measurements := deque_append 100 (combined_measurements s)
                      (m1\<lparr>heart_rate := Fin (clamped a d b1)\<rparr>)\<rparr>)))) \<and>
   (\<forall>sig2 m2. try_vitals pipeline s signal1 ep = None \<and> signal2 = Some sig2 \<and>
          try_vitals pipeline s sig2 ep = Some m2 \<longrightarrow>
     (\<exists>b2. heart_rate m2 = Fin b2 \<and>
        (hr_moving_avg s = None \<longrightarrow>
           fusion_stage pipeline s ep signal1 signal2 =
             Inr (s\<lparr>epoch := Some ep,
                    heart_rates := deque_append (moving_avg_size s) (heart_rates s) (Fin b2),
                    combined_measurements := deque_append 100 (combined_measurements s) m2\<rparr>)) \<and>
        (\<forall>a d. hr_moving_avg s = Some (Fin a) \<and> hr_std_2 s = Some (Fin d) \<longrightarrow>
           fusion_stage pipeline s ep signal1 signal2 =
             Inr (s\<lparr>epoch := Some ep,
                    heart_rates := deque_append (moving_avg_size s) (heart_rates s)
                      (Fin (clamped a d ((b2 + a) / 2))),
                    combined_measurements := deque_append 100 (combined_measurements s)
                      (m2\<lparr>heart_rate := Fin (clamped a d ((b2 + a) / 2))\<rparr>)\<rparr>))))"
proof (intro conjI allI impI)
  let ?s = "s\<lparr>epoch := Some ep\<rparr>"
  fix m1
  assume h: "try_vitals pipeline s signal1 ep = Some m1 \<and>
          (case signal2 of None \<Rightarrow> None | Some sig2 \<Rightarrow> try_vitals pipeline s sig2 ep) = None"
  then obtain b1 where b1: "heart_rate m1 = Fin b1"
    using try_vitals_Some by blast
  have same: "m1\<lparr>heart_rate := Fin b1\<rparr> = m1"
    using b1 by (cases m1) simp
  have stage: "fusion_stage pipeline s ep signal1 signal2 = fuse_measurements ?s ep (Some m1) None"
    using h by (simp add: fusion_stage_eq)
  have none: "fusion_stage pipeline s ep signal1 signal2 =
             Inr (s\<lparr>epoch := Some ep,
                    heart_rates := deque_append (moving_avg_size s) (heart_rates s) (Fin b1),
                    combined_measurements := deque_append 100 (combined_measurements s) m1\<rparr>)"
    if unset: "hr_moving_avg s = None"
  proof -
    have "clamp_heart_rate ?s (heart_rate m1) = Inr (Fin b1)"
      using unset b1 by (simp add: clamp_heart_rate_unset)
    from fuse_first[OF this, of ep] stage same show ?thesis by simp
  qed
  have some: "fusion_stage pipeline s ep signal1 signal2 =
             Inr (s\<lparr>epoch := Some ep,
                    heart_rates := deque_append (moving_avg_size s) (heart_rates s)
                      (Fin (clamped a d b1)),
                    combined_measurements := deque_append 100 (combined_measurements s)
                      (m1\<lparr>heart_rate := Fin (clamped a d b1)\<rparr>)\<rparr>)"
    if set: "hr_moving_avg s = Some (Fin a) \<and> hr_std_2 s = Some (Fin d)" for a d
  proof -
    have "clamp_heart_rate ?s (heart_rate m1) = Inr (Fin (clamped a d b1))"
      using set b1 by (simp add: clamp_heart_rate_set)
    from fuse_first[OF this, of ep] stage show ?thesis by simp
  qed
  show "\<exists>b1. heart_rate m1 = Fin b1 \<and>
        (hr_moving_avg s = None \<longrightarrow>
           fusion_stage pipeline s ep signal1 signal2 =
             Inr (s\<lparr>epoch := Some ep,
                    heart_rates := deque_append (moving_avg_size s) (heart_rates s) (Fin b1),
                    combined_measurements := deque_append 100 (combined_measurements s) m1\<rparr>)) \<and>
        (\<forall>a d. hr_moving_avg s = Some (Fin a) \<and> hr_std_2 s = Some (Fin d) \<longrightarrow>
           fusion_stage pipeline s ep signal1 signal2 =
             Inr (s\<lparr>epoch := Some ep,
                    heart_rates := deque_append (moving_avg_size s) (heart_rates s)
                      (Fin (clamped a d b1)),
                    combined_measurements := deque_append 100 (combined_measurements s)
                      (m1\<lparr>heart_rate := Fin (clamped a d b1)\<rparr>)\<rparr>))"
    by (intro exI[of _ b1] conjI impI allI; (rule b1 none some; assumption))
next
  let ?s = "s\<lparr>epoch := Some ep\<rparr>"
  fix sig2 m2
  assume h: "try_vitals pipeline s signal1 ep = None \<and> signal2 = Some sig2 \<and>
          try_vitals pipeline s sig2 ep = Some m2"
  then obtain b2 where b2: "heart_rate m2 = Fin b2"
    using try_vitals_Some by blast
  have same: "m2\<lparr>heart_rate := Fin b2\<rparr> = m2"
    using b2 by (cases m2) simp
  have stage: "fusion_stage pipeline s ep signal1 signal2 = fuse_measurements ?s ep None (Some m2)"
    using h by (simp add: fusion_stage_eq)
  have none: "fusion_stage pipeline s ep signal1 signal2 =
             Inr (s\<lparr>epoch := Some ep,
                    heart_rates := deque_append (moving_avg_size s) (heart_rates s) (Fin b2),
                    combined_measurements := deque_append 100 (combined_measurements s) m2\<rparr>)"
    if unset: "hr_moving_avg s = None"
  proof -
    have "clamp_heart_rate ?s
             (case hr_moving_avg ?s of
                Some avg \<Rightarrow> fhalf (fadd (heart_rate m2) avg)
              | None \<Rightarrow> heart_rate m2) = Inr (Fin b2)"
      using unset b2 by (simp add: clamp_heart_rate_unset)
    from fuse_second[OF this, of ep] stage same show ?thesis by simp
  qed
  have some: "fusion_stage pipeline s ep signal1 signal2 =
             Inr (s\<lparr>epoch := Some ep,
                    heart_rates := deque_append (moving_avg_size s) (heart_rates s)
                      (Fin (clamped a d ((b2 + a) / 2))),
                    combined_measurements := deque_append 100 (combined_measurements s)
                      (m2\<lparr>heart_rate := Fin (clamped a d ((b2 + a) / 2))\<rparr>)\<rparr>)"
    if set: "hr_moving_avg s = Some (Fin a) \<and> hr_std_2 s = Some (Fin d)" for a d
  proof -
    have "clamp_heart_rate ?s
             (case hr_moving_avg ?s of
                Some avg \<Rightarrow> fhalf (fadd (heart_rate m2) avg)
              | None \<Rightarrow> heart_rate m2) = Inr (Fin (clamped a d ((b2 + a) / 2)))"
      using set b2 by (simp add: clamp_heart_rate_set)
    from fuse_second[OF this, of ep] stage show ?thesis by simp
  qed
  show "\<exists>b2. heart_rate m2 = Fin b2 \<and>
        (hr_moving_avg s = None \<longrightarrow>
           fusion_stage pipeline s ep signal1 signal2 =
             Inr (s\<lparr>epoch := Some ep,
                    heart_rates := deque_append (moving_avg_size s) (heart_rates s) (Fin b2),
                    combined_measurements := deque_append 100 (combined_measurements s) m2\<rparr>)) \<and>
        (\<forall>a d. hr_moving_avg s = Some (Fin a) \<and> hr_std_2 s = Some (Fin d) \<longrightarrow>
           fusion_stage pipeline s ep signal1 signal2 =
             Inr (s\<lparr>epoch := Some ep,
                    heart_rates := deque_append (moving_avg_size s) (heart_rates s)
                      (Fin (clamped a d ((b2 + a) / 2))),
                    combined_measurements := deque_append 100 (combined_measurements s)
                      (m2\<lparr>heart_rate := Fin (clamped a d ((b2 + a) / 2))\<rparr>)\<rparr>))"
    by (intro exI[of _ b2] conjI impI allI; (rule b2 none some; assumption))
qed

theorem fusion_of_one_measurement_witness:
  "fusion_stage sample_dsp fresh 1000 [70] (Some [95]) =
     Inr (fresh\<lparr>epoch := Some 1000, heart_rates := [Fin 70],
                combined_measurements := [sample_measurement 70 1000]\<rparr>) \<and>
   fusion_stage sample_dsp fresh 1000 [] (Some [70]) =
     Inr (fresh\<lparr>epoch := Some 1000, heart_rates := [Fin 70],
                combined_measurements := [sample_measurement 70 1000]\<rparr>) \<and>
   fusion_stage sample_dsp warm 1000 [61] None =
     Inr (warm\<lparr>epoch := Some 1000, heart_rates := [Fin 60, Fin 61],
               combined_measurements := [sample_measurement 61 1000]\<rparr>) \<and>
   fusion_stage sample_dsp warm 1000 [95] (Some [61]) =
     Inr (warm\<lparr>epoch := Some 1000, heart_rates := [Fin 60, Fin 60.5],
               combined_measurements := [sample_measurement 60.5 1000]\<rparr>)"
  using fusion_of_one_measurement [of sample_dsp fresh "[70]" 1000 "Some [95]"]
    fusion_of_one_measurement [of sample_dsp fresh "[]" 1000 "Some [70]"]
    fusion_of_one_measurement [of sample_dsp warm "[61]" 1000 None]
    fusion_of_one_measurement [of sample_dsp warm "[95]" 1000 "Some [61]"]
  by (simp add: try_vitals_fresh try_vitals_warm try_vitals_warm_61 fresh_fields warm_fields
        sample_measurement_def deque_append_def clamped_def)

section \<open>Validation of a reading\<close>

text \<open>
  C7. \<^verbatim>\<open>is_valid\<close> rejects a reading whose BPM is NaN and a reading whose BPM is above 90.
  For any other reading: when both bounds are set it accepts exactly when the BPM lies
  strictly between them, so a BPM equal to a bound is rejected; when a bound is unset it
  accepts.
\<close>

theorem is_valid_characterisation:
  "(bpm m = NaN \<longrightarrow> \<not> is_valid s m) \<and>
   (\<forall>x. bpm m = Fin x \<and> 90 < x \<longrightarrow> \<not> is_valid s m) \<and>
   (\<forall>x lb ub. bpm m = Fin x \<and> x \<le> 90 \<and> lower_bound s = Some lb \<and> upper_bound s = Some ub
        \<longrightarrow> (is_valid s m \<longleftrightarrow> flt lb (Fin x) \<and> flt (Fin x) ub)) \<and>
   (\<forall>x l u. bpm m = Fin x \<and> x \<le> 90 \<and> lower_bound s = Some (Fin l) \<and> upper_bound s = Some (Fin u)
        \<longrightarrow> (is_valid s m \<longleftrightarrow> l < x \<and> x < u)) \<and>
   (\<forall>x. bpm m = Fin x \<and> (lower_bound s = Some (Fin x) \<or> upper_bound s = Some (Fin x))
        \<and> lower_bound s \<noteq> None \<and> upper_bound s \<noteq> None \<longrightarrow> \<not> is_valid s m) \<and>
   (\<forall>x. bpm m = Fin x \<and> x \<le> 90 \<and> (lower_bound s = None \<or> upper_bound s = None)
        \<longrightarrow> is_valid s m)"
  by (cases "lower_bound s"; cases "upper_bound s")
     (auto simp: is_valid_def isnan_def elim: flt.elims)

theorem is_valid_characterisation_witness:
  "\<not> is_valid banded nan_reading \<and> \<not> is_valid fresh (reading 91) \<and>
   is_valid banded (reading 60) \<and> \<not> is_valid banded (reading 50) \<and>
   \<not> is_valid banded (reading 75) \<and> \<not> is_valid banded (reading 80) \<and>
   is_valid fresh (reading 20)"
  using is_valid_characterisation [of nan_reading banded]
    is_valid_characterisation [of "reading 91" fresh]
    is_valid_characterisation [of "reading 60" banded]
    is_valid_characterisation [of "reading 50" banded]
    is_valid_characterisation [of "reading 75" banded]
    is_valid_characterisation [of "reading 80" banded]
    is_valid_characterisation [of "reading 20" fresh]
  by (simp add: banded_def fresh_def new_processor_def reading_def nan_reading_def)

section \<open>Exceptions of the signal-processing stage\<close>

text \<open>
  C8. An exception raised by the signal-processing stage for a signal never leaves
  \<^verbatim>\<open>calculate_vitals\<close>: the call does exactly what it does with a stage that never raises
  and returns a rejected reading instead. When the stage raises for the second signal the
  call equals the call without a second signal; when it raises for the first, the fusion
  sees no first measurement and the second signal's. In particular, with no moving average,
  the valid signal's own measurement is appended and recorded unchanged.
\<close>

theorem dsp_exceptions_contained:
  "calculate_vitals pipeline conv s ep signal1 signal2 =
     calculate_vitals (silenced pipeline) conv s ep signal1 signal2 \<and>
   (\<forall>sig. \<exists>m. silenced pipeline sig = Inr m) \<and>
   (\<forall>e sig2. pipeline sig2 = Inl e \<longrightarrow>
      calculate_vitals pipeline conv s ep signal1 (Some sig2) =
        calculate_vitals pipeline conv s ep signal1 None) \<and>
   (\<forall>e. pipeline signal1 = Inl e \<longrightarrow>
      fusion_stage pipeline s ep signal1 signal2 =
        fuse_measurements (s\<lparr>epoch := Some ep\<rparr>) ep None
          (case signal2 of None \<Rightarrow> None | Some sig2 \<Rightarrow> try_vitals pipeline s sig2 ep)) \<and>
   (\<forall>e sig2 m1. pipeline sig2 = Inl e \<and> try_vitals pipeline s signal1 ep = Some m1 \<and>
        hr_moving_avg s = None \<longrightarrow>
      fusion_stage pipeline s ep signal1 (Some sig2) =
        Inr (s\<lparr>epoch := Some ep,
               heart_rates := deque_append (moving_avg_size s) (heart_rates s) (heart_rate m1),
               combined_measurements := deque_append 100 (combined_measurements s) m1\<rparr>)) \<and>
   (\<forall>e sig2 m2. pipeline signal1 = Inl e \<and> try_vitals pipeline s sig2 ep = Some m2 \<and>
        hr_moving_avg s = None \<longrightarrow>
      fusion_stage pipeline s ep signal1 (Some sig2) =
        Inr (s\<lparr>epoch := Some ep,
               heart_rates := deque_append (moving_avg_size s) (heart_rates s) (heart_rate m2),
               combined_measurements := deque_append 100 (combined_measurements s) m2\<rparr>))"
proof (intro conjI allI impI)
  show "calculate_vitals pipeline conv s ep signal1 signal2 =
     calculate_vitals (silenced pipeline) conv s ep signal1 signal2"
    by (simp only: calculate_vitals_def fusion_stage_silenced)
next
  fix sig
  show "\<exists>m. silenced pipeline sig = Inr m"
    by (cases "pipeline sig") (simp_all add: silenced_def)
next
  fix e sig2
  assume "pipeline sig2 = Inl e"
  then have "fusion_stage pipeline s ep signal1 (Some sig2) =
             fusion_stage pipeline s ep signal1 None"
    by (simp add: fusion_stage_eq try_vitals_raises)
  then show "calculate_vitals pipeline conv s ep signal1 (Some sig2) =
        calculate_vitals pipeline conv s ep signal1 None"
    by (simp only: calculate_vitals_def)
next
  fix e
  assume "pipeline signal1 = Inl e"
  then show "fusion_stage pipeline s ep signal1 signal2 =
        fuse_measurements (s\<lparr>epoch := Some ep\<rparr>) ep None
          (case signal2 of None \<Rightarrow> None | Some sig2 \<Rightarrow> try_vitals pipeline s sig2 ep)"
    by (simp add: fusion_stage_eq try_vitals_raises)
next
  fix e sig2 m1
  let ?s = "s\<lparr>epoch := Some ep\<rparr>"
  assume h: "pipeline sig2 = Inl e \<and> try_vitals pipeline s signal1 ep = Some m1 \<and>
        hr_moving_avg s = None"
  then have "clamp_heart_rate ?s (heart_rate m1) = Inr (heart_rate m1)"
    by (simp add: clamp_heart_rate_unset)
  from fuse_first[OF this, of ep] h
  show "fusion_stage pipeline s ep signal1 (Some sig2) =
        Inr (s\<lparr>epoch := Some ep,
               heart_rates := deque_append (moving_avg_size s) (heart_rates s) (heart_rate m1),
               combined_measurements := deque_append 100 (combined_measurements s) m1\<rparr>)"
    by (simp add: fusion_stage_eq try_vitals_raises)
next
  fix e sig2 m2
  let ?s = "s\<lparr>epoch := Some ep\<rparr>"
  assume h: "pipeline signal1 = Inl e \<and> try_vitals pipeline s sig2 ep = Some m2 \<and>
        hr_moving_avg s = None"
  then have "clamp_heart_rate ?s
             (case hr_moving_avg ?s of
                Some avg \<Rightarrow> fhalf (fadd (heart_rate m2) avg)
              | None \<Rightarrow> heart_rate m2) = Inr (heart_rate m2)"
    by (simp add: clamp_heart_rate_unset)
  from fuse_second[OF this, of ep] h
  show "fusion_stage pipeline s ep signal1 (Some sig2) =
        Inr (s\<lparr>epoch := Some ep,
               heart_rates := deque_append (moving_avg_size s) (heart_rates s) (heart_rate m2),
               combined_measurements := deque_append 100 (combined_measurements s) m2\<rparr>)"
    by (simp add: fusion_stage_eq try_vitals_raises)
qed

theorem dsp_exceptions_contained_witness:
  "sample_dsp [] = Inl (OtherException ''empty signal'') \<and>
   try_vitals sample_dsp fresh [70] 1000 = Some (sample_measurement 70 1000) \<and>
   calculate_vitals sample_dsp utc_isoformat fresh 1000 [70] (Some []) =
     Inr (fresh\<lparr>epoch := Some 1000, heart_rates := [Fin 70],
                combined_measurements := [sample_measurement 70 1000],
                iteration_count := 1\<rparr>) \<and>
   fusion_stage sample_dsp fresh 1000 [] (Some [70]) =
     Inr (fresh\<lparr>epoch := Some 1000, heart_rates := [Fin 70],
                combined_measurements := [sample_measurement 70 1000]\<rparr>)"
proof -
  note first_ok = dsp_exceptions_contained
    [where pipeline = sample_dsp and conv = utc_isoformat and s = fresh and ep = 1000
       and ?signal1.0 = "[70]" and ?signal2.0 = "Some []"]
  note second_ok = dsp_exceptions_contained
    [where pipeline = sample_dsp and conv = utc_isoformat and s = fresh and ep = 1000
       and ?signal1.0 = "[]" and ?signal2.0 = "Some [70]"]
  have raised: "sample_dsp [] = Inl (OtherException ''empty signal'')"
    by (rule sample_dsp_values)
  from first_ok raised
  have "calculate_vitals sample_dsp utc_isoformat fresh 1000 [70] (Some []) =
        calculate_vitals sample_dsp utc_isoformat fresh 1000 [70] None"
    by blast
  then have a: "calculate_vitals sample_dsp utc_isoformat fresh 1000 [70] (Some []) =
     Inr (fresh\<lparr>epoch := Some 1000, heart_rates := [Fin 70],
                combined_measurements := [sample_measurement 70 1000],
                iteration_count := 1\<rparr>)"
    by (simp add: calculate_vitals_fresh_70)
  from second_ok raised try_vitals_fresh(1) fresh_fields(1)
  have "fusion_stage sample_dsp fresh 1000 [] (Some [70]) =
        Inr (fresh\<lparr>epoch := Some 1000,
               heart_rates := deque_append (moving_avg_size fresh) (heart_rates fresh)
                 (heart_rate (sample_measurement 70 1000)),
               combined_measurements := deque_append 100 (combined_measurements fresh)
                 (sample_measurement 70 1000)\<rparr>)"
    by blast
  then have b: "fusion_stage sample_dsp fresh 1000 [] (Some [70]) =
     Inr (fresh\<lparr>epoch := Some 1000, heart_rates := [Fin 70],
                combined_measurements := [sample_measurement 70 1000]\<rparr>)"
    by (simp add: fresh_fields deque_append_def sample_measurement_def)
  from raised try_vitals_fresh(1) a b show ?thesis by simp
qed

section \<open>Debug mode\<close>

text \<open>
  C9 as it holds. In debug mode, on an epoch on which the insertion condition fires, the
  sink is never invoked, whatever the outcome of the call. When the conversion of the last
  combined measurement's timestamp and of the current epoch both succeed, one trace record
  is appended to \<open>debug_measurements\<close>: the fields of the last combined measurement with
  the heart rate replaced by the smoothed one, the two converted timestamps, the last 25
  heart rates, the moving average, the bounds, the band and the length of the history; the
  combined measurement itself is not overwritten, and the call goes on to the statistics
  update. When a conversion raises, the exception leaves \<^verbatim>\<open>calculate_vitals\<close> and no
  record is appended.
\<close>

theorem debug_trace_replaces_insertion:
  assumes dbg: "debug s" and stage: "fusion_stage pipeline s ep signal1 signal2 = Inr s1"
    and fires: "insertion_frequency s \<noteq> 0 \<and>
       (iteration_count s + 1) mod insertion_frequency s = 0 \<and> combined_measurements s1 \<noteq> []"
  shows
   "(\<forall>ts cur. conv (timestamp (last (combined_measurements s1))) = Inr ts \<and> conv ep = Inr cur \<longrightarrow>
       calculate_vitals pipeline conv s ep signal1 signal2 =
         update_statistics
           (s1\<lparr>iteration_count := iteration_count s + 1,
               debug_measurements := debug_measurements s @
                 [\<lparr>dbg_side = m_side (last (combined_measurements s1)),
                   dbg_timestamp = timestamp (last (combined_measurements s1)),
                   dbg_heart_rate =
                     np_mean (slice_from (- rolling_average_size s) (heart_rates s1)),
                   dbg_hrv = hrv (last (combined_measurements s1)),
                   dbg_breathing_rate = breathing_rate (last (combined_measurements s1)),
                   dbg_last_combined_measurement = ts,
                   dbg_current_ts = cur,
                   dbg_last_heart_rates = slice_from (- 25) (heart_rates s1),
                   dbg_hr_moving_avg = hr_moving_avg s1,
                   dbg_lower_bound = lower_bound s1,
                   dbg_upper_bound = upper_bound s1,
                   dbg_hr_std_2 = hr_std_2 s1,
                   dbg_length = length (heart_rates s1)\<rparr>]\<rparr>)) \<and>
    (\<forall>s'. calculate_vitals pipeline conv s ep signal1 signal2 = Inr s' \<longrightarrow>
       inserted s' = inserted s \<and> combined_measurements s' = combined_measurements s1 \<and>
       (\<exists>ts cur. conv (timestamp (last (combined_measurements s1))) = Inr ts \<and>
          conv ep = Inr cur \<and>
          debug_measurements s' = debug_measurements s @
            [\<lparr>dbg_side = m_side (last (combined_measurements s1)),
              dbg_timestamp = timestamp (last (combined_measurements s1)),
              dbg_heart_rate =
                np_mean (slice_from (- rolling_average_size s) (heart_rates s1)),
              dbg_hrv = hrv (last (combined_measurements s1)),
              dbg_breathing_rate = breathing_rate (last (combined_measurements s1)),
              dbg_last_combined_measurement = ts,
              dbg_current_ts = cur,
              dbg_last_heart_rates = slice_from (- 25) (heart_rates s1),
              dbg_hr_moving_avg = hr_moving_avg s1,
              dbg_lower_bound = lower_bound s1,
              dbg_upper_bound = upper_bound s1,
              dbg_hr_std_2 = hr_std_2 s1,
              dbg_length = length (heart_rates s1)\<rparr>])) \<and>
    (\<forall>e s'. calculate_vitals pipeline conv s ep signal1 signal2 = Inl (e, s') \<longrightarrow>
       inserted s' = inserted s) \<and>
    (\<forall>e. conv (timestamp (last (combined_measurements s1))) = Inl e \<longrightarrow>
       calculate_vitals pipeline conv s ep signal1 signal2 =
         Inl (e, s1\<lparr>iteration_count := iteration_count s + 1\<rparr>)) \<and>
    (\<forall>ts e. conv (timestamp (last (combined_measurements s1))) = Inr ts \<and> conv ep = Inl e \<longrightarrow>
       calculate_vitals pipeline conv s ep signal1 signal2 =
         Inl (e, s1\<lparr>iteration_count := iteration_count s + 1\<rparr>))"
proof -
  note c = fusion_stage_config[OF stage]
  let ?t = "s1\<lparr>iteration_count := iteration_count s + 1\<rparr>"
  have dbg1: "debug s1" and dbgt: "debug ?t" using c dbg by simp_all
  have fires1: "insertion_frequency s1 \<noteq> 0 \<and>
       (iteration_count s1 + 1) mod insertion_frequency s1 = 0 \<and> combined_measurements s1 \<noteq> []"
    using c fires by simp
  have call: "calculate_vitals pipeline conv s ep signal1 signal2 =
     (case insert_or_trace conv ?t of Inl r \<Rightarrow> Inl r | Inr s' \<Rightarrow> update_statistics s')"
    using next_step_firing_debug[OF dbg1 fires1, of conv] c
    by (simp add: calculate_vitals_def stage)
  note trace = insert_or_trace_debug[OF dbgt, of conv]
  have ok: "insert_or_trace conv ?t =
      Inr (s1\<lparr>iteration_count := iteration_count s + 1,
               debug_measurements := debug_measurements s @
                 [\<lparr>dbg_side = m_side (last (combined_measurements s1)),
                   dbg_timestamp = timestamp (last (combined_measurements s1)),
                   dbg_heart_rate =
                     np_mean (slice_from (- rolling_average_size s) (heart_rates s1)),
                   dbg_hrv = hrv (last (combined_measurements s1)),
                   dbg_breathing_rate = breathing_rate (last (combined_measurements s1)),
                   dbg_last_combined_measurement = ts,
                   dbg_current_ts = cur,
                   dbg_last_heart_rates = slice_from (- 25) (heart_rates s1),
                   dbg_hr_moving_avg = hr_moving_avg s1,
                   dbg_lower_bound = lower_bound s1,
                   dbg_upper_bound = upper_bound s1,
                   dbg_hr_std_2 = hr_std_2 s1,
                   dbg_length = length (heart_rates s1)\<rparr>]\<rparr>)"
    if "conv (timestamp (last (combined_measurements s1))) = Inr ts \<and> conv ep = Inr cur"
    for ts cur
    using that c by (simp add: trace)
  have bad1: "insert_or_trace conv ?t = Inl (e, ?t)"
    if "conv (timestamp (last (combined_measurements s1))) = Inl e" for e
    using that by (simp add: trace)
  have bad2: "insert_or_trace conv ?t = Inl (e, ?t)"
    if "conv (timestamp (last (combined_measurements s1))) = Inr ts \<and> conv ep = Inl e" for ts e
    using that c by (simp add: trace)
  show ?thesis
  proof (intro conjI allI impI)
    fix ts cur
    assume h: "conv (timestamp (last (combined_measurements s1))) = Inr ts \<and> conv ep = Inr cur"
    show "calculate_vitals pipeline conv s ep signal1 signal2 =
         update_statistics
           (s1\<lparr>iteration_count := iteration_count s + 1,
               debug_measurements := debug_measurements s @
                 [\<lparr>dbg_side = m_side (last (combined_measurements s1)),
                   dbg_timestamp = timestamp (last (combined_measurements s1)),
                   dbg_heart_rate =
                     np_mean (slice_from (- rolling_average_size s) (heart_rates s1)),
                   dbg_hrv = hrv (last (combined_measurements s1)),
                   dbg_breathing_rate = breathing_rate (last (combined_measurements s1)),
                   dbg_last_combined_measurement = ts,
                   dbg_current_ts = cur,
                   dbg_last_heart_rates = slice_from (- 25) (heart_rates s1),
                   dbg_hr_moving_avg = hr_moving_avg s1,
                   dbg_lower_bound = lower_bound s1,
                   dbg_upper_bound = upper_bound s1,
                   dbg_hr_std_2 = hr_std_2 s1,
                   dbg_length = length (heart_rates s1)\<rparr>]\<rparr>)"
      by (simp only: call ok[OF h] sum.case)
  next
    fix e
    assume "conv (timestamp (last (combined_measurements s1))) = Inl e"
    from bad1[OF this] show "calculate_vitals pipeline conv s ep signal1 signal2 = Inl (e, ?t)"
      by (simp only: call sum.case)
  next
    fix ts e
    assume "conv (timestamp (last (combined_measurements s1))) = Inr ts \<and> conv ep = Inl e"
    from bad2[OF this] show "calculate_vitals pipeline conv s ep signal1 signal2 = Inl (e, ?t)"
      by (simp only: call sum.case)
  next
    fix e s'
    assume ret: "calculate_vitals pipeline conv s ep signal1 signal2 = Inl (e, s')"
    show "inserted s' = inserted s"
    proof (cases "insert_or_trace conv ?t")
      case (Inl r)
      with ret call have "r = (e, s')" by simp
      with Inl c show ?thesis
        by (auto simp: trace split: sum.splits option.splits)
    next
      case (Inr t')
      with ret call have u: "update_statistics t' = Inl (e, s')" by simp
      from Inr c have "inserted t' = inserted s"
        by (auto simp: trace split: sum.splits option.splits)
      with update_statistics_error_config[OF u] show ?thesis by simp
    qed
  next
    fix s'
    assume ret: "calculate_vitals pipeline conv s ep signal1 signal2 = Inr s'"
    with call obtain t' where t': "insert_or_trace conv ?t = Inr t'"
      and u: "update_statistics t' = Inr s'"
      by (auto split: sum.splits)
    from t' obtain ts cur where
      conv: "conv (timestamp (last (combined_measurements s1))) = Inr ts \<and> conv ep = Inr cur"
      using c by (auto simp: trace split: sum.splits option.splits)
    from ok[OF conv] t' have t'_eq: "t' = s1\<lparr>iteration_count := iteration_count s + 1,
               debug_measurements := debug_measurements s @
                 [\<lparr>dbg_side = m_side (last (combined_measurements s1)),
                   dbg_timestamp = timestamp (last (combined_measurements s1)),
                   dbg_heart_rate =
                     np_mean (slice_from (- rolling_average_size s) (heart_rates s1)),
                   dbg_hrv = hrv (last (combined_measurements s1)),
                   dbg_breathing_rate = breathing_rate (last (combined_measurements s1)),
                   dbg_last_combined_measurement = ts,
                   dbg_current_ts = cur,
                   dbg_last_heart_rates = slice_from (- 25) (heart_rates s1),
                   dbg_hr_moving_avg = hr_moving_avg s1,
                   dbg_lower_bound = lower_bound s1,
                   dbg_upper_bound = upper_bound s1,
                   dbg_hr_std_2 = hr_std_2 s1,
                   dbg_length = length (heart_rates s1)\<rparr>]\<rparr>"
      by simp
    note uc = update_statistics_config[OF u]
    have full: "inserted s' = inserted s \<and> combined_measurements s' = combined_measurements s1 \<and>
       (\<exists>ts cur. conv (timestamp (last (combined_measurements s1))) = Inr ts \<and>
          conv ep = Inr cur \<and>
          debug_measurements s' = debug_measurements s @
            [\<lparr>dbg_side = m_side (last (combined_measurements s1)),
              dbg_timestamp = timestamp (last (combined_measurements s1)),
              dbg_heart_rate =
                np_mean (slice_from (- rolling_average_size s) (heart_rates s1)),
              dbg_hrv = hrv (last (combined_measurements s1)),
              dbg_breathing_rate = breathing_rate (last (combined_measurements s1)),
              dbg_last_combined_measurement = ts,
              dbg_current_ts = cur,
              dbg_last_heart_rates = slice_from (- 25) (heart_rates s1),
              dbg_hr_moving_avg = hr_moving_avg s1,
              dbg_lower_bound = lower_bound s1,
              dbg_upper_bound = upper_bound s1,
              dbg_hr_std_2 = hr_std_2 s1,
              dbg_length = length (heart_rates s1)\<rparr>])"
      using uc t'_eq conv c by (intro conjI exI[of _ ts] exI[of _ cur]) simp_all
    from full show "inserted s' = inserted s" by (elim conjE)
    from full show "combined_measurements s' = combined_measurements s1" by (elim conjE)
    from full show "\<exists>ts cur. conv (timestamp (last (combined_measurements s1))) = Inr ts \<and>
          conv ep = Inr cur \<and>
          debug_measurements s' = debug_measurements s @
            [\<lparr>dbg_side = m_side (last (combined_measurements s1)),
              dbg_timestamp = timestamp (last (combined_measurements s1)),
              dbg_heart_rate =
                np_mean (slice_from (- rolling_average_size s) (heart_rates s1)),
              dbg_hrv = hrv (last (combined_measurements s1)),
              dbg_breathing_rate = breathing_rate (last (combined_measurements s1)),
              dbg_last_combined_measurement = ts,
              dbg_current_ts = cur,
              dbg_last_heart_rates = slice_from (- 25) (heart_rates s1),
              dbg_hr_moving_avg = hr_moving_avg s1,
              dbg_lower_bound = lower_bound s1,
              dbg_upper_bound = upper_bound s1,
              dbg_hr_std_2 = hr_std_2 s1,
              dbg_length = length (heart_rates s1)\<rparr>]"
      by (elim conjE)
  qed
qed

theorem debug_trace_replaces_insertion_witness:
  "debug after_first_debug \<and>
   calculate_vitals sample_dsp utc_isoformat every_second_debug 1000 [70] None =
     Inr after_first_debug \<and>
   utc_isoformat 1001 = Inr ''1970-01-01T00:16:41'' \<and>
   calculate_vitals sample_dsp utc_isoformat after_first_debug 1001 [60] None =
     Inr (after_first_debug\<lparr>epoch := Some 1001, heart_rates := [Fin 70, Fin 60],
            combined_measurements := [sample_measurement 70 1000, sample_measurement 60 1001],
            iteration_count := 2, debug_measurements := [second_epoch_trace]\<rparr>)"
proof -
  let ?s1 = "after_first_debug\<lparr>epoch := Some 1001, heart_rates := [Fin 70, Fin 60],
            combined_measurements := [sample_measurement 70 1000, sample_measurement 60 1001]\<rparr>"
  have dbg: "debug after_first_debug" by (rule after_first_debug_fields)
  have fires: "insertion_frequency after_first_debug \<noteq> 0 \<and>
       (iteration_count after_first_debug + 1) mod insertion_frequency after_first_debug = 0 \<and>
       combined_measurements ?s1 \<noteq> []"
    by (simp add: after_first_debug_fields)
  have conv: "utc_isoformat (timestamp (last (combined_measurements ?s1))) =
                Inr ''1970-01-01T00:16:41'' \<and>
              utc_isoformat 1001 = Inr ''1970-01-01T00:16:41''"
    by (simp add: sample_measurement_def utc_1001)
  note rule = debug_trace_replaces_insertion
    [OF dbg second_debug_stage fires, where conv = utc_isoformat]
  from conjunct1 [OF rule, rule_format, OF conv]
  have "calculate_vitals sample_dsp utc_isoformat after_first_debug 1001 [60] None =
     Inr (after_first_debug\<lparr>epoch := Some 1001, heart_rates := [Fin 70, Fin 60],
            combined_measurements := [sample_measurement 70 1000, sample_measurement 60 1001],
            iteration_count := 2, debug_measurements := [second_epoch_trace]\<rparr>)"
    by (simp add: after_first_debug_fields second_epoch_trace_def sample_measurement_def
          update_statistics_def slice_from_def np_mean_def mean_def
          after_first_debug_def every_second_debug_def new_processor_def
          default_runtime_params_def)
  with dbg first_debug_epoch utc_1001 show ?thesis by simp
qed

text \<open>
  C9 as stated fails: on the debug processor that inserts every second epoch, the second
  epoch fires the insertion condition; with a timestamp in the year 10000 the conversion
  raises ValueError, the exception leaves \<^verbatim>\<open>calculate_vitals\<close>, and
  \<open>debug_measurements\<close> is still empty.
\<close>

theorem debug_trace_exception_counterexample:
  "debug every_second_debug \<and>
   calculate_vitals sample_dsp utc_isoformat every_second_debug 1000 [70] None =
     Inr after_first_debug \<and>
   iteration_count after_first_debug + 1 = 2 \<and> insertion_frequency after_first_debug = 2 \<and>
   calculate_vitals sample_dsp utc_isoformat after_first_debug 253402300800 [60] None =
     Inl (ValueError,
          after_first_debug\<lparr>epoch := Some 253402300800, heart_rates := [Fin 70, Fin 60],
            combined_measurements :=
              [sample_measurement 70 1000, sample_measurement 60 253402300800],
            iteration_count := 2\<rparr>) \<and>
   debug_measurements
     (after_first_debug\<lparr>epoch := Some 253402300800, heart_rates := [Fin 70, Fin 60],
        combined_measurements :=
          [sample_measurement 70 1000, sample_measurement 60 253402300800],
        iteration_count := 2\<rparr>) = []"
proof -
  have "calculate_vitals sample_dsp utc_isoformat after_first_debug 253402300800 [60] None =
     Inl (ValueError,
          after_first_debug\<lparr>epoch := Some 253402300800, heart_rates := [Fin 70, Fin 60],
            combined_measurements :=
              [sample_measurement 70 1000, sample_measurement 60 253402300800],
            iteration_count := 2\<rparr>)"
    unfolding calculate_vitals_def second_debug_stage
    by (simp add: next_step_def insert_or_trace_def Let_def after_first_debug_fields
          sample_measurement_def utc_year_10000)
  moreover have "debug every_second_debug"
    by (simp add: every_second_debug_def new_processor_def)
  ultimately show ?thesis
    by (simp add: first_debug_epoch after_first_debug_fields)
qed

section \<open>Vitals do not depend on presence\<close>

text \<open>
  C10. \<^verbatim>\<open>calculate_vitals\<close> neither reads nor writes \<open>present\<close> and \<open>not_present_for\<close>:
  run on a processor with other values in these two fields, it gives the outcome of the run
  on the original processor (the returned processor, or the exception and the processor
  left behind) with the two fields set to those other values. So two processors that
  differ only there are updated in the same way.
\<close>

theorem calculate_vitals_independent_of_presence:
  "calculate_vitals pipeline conv (s\<lparr>present := p, not_present_for := n\<rparr>) ep signal1 signal2 =
     (case calculate_vitals pipeline conv s ep signal1 signal2 of
        Inl (e, s') \<Rightarrow> Inl (e, s'\<lparr>present := p, not_present_for := n\<rparr>)
      | Inr s' \<Rightarrow> Inr (s'\<lparr>present := p, not_present_for := n\<rparr>))"
proof (cases "fusion_stage pipeline s ep signal1 signal2")
  case (Inl r)
  then show ?thesis
    by (cases r) (simp add: calculate_vitals_def fusion_stage_presence)
next
  case (Inr s1)
  show ?thesis
  proof (cases "next_step conv s1")
    case (Inl r)
    with Inr show ?thesis
      by (cases r) (simp add: calculate_vitals_def fusion_stage_presence next_step_presence)
  next
    case inner: (Inr s2)
    with Inr show ?thesis
      by (simp add: calculate_vitals_def fusion_stage_presence next_step_presence)
  qed
qed

theorem calculate_vitals_independent_of_presence_witness:
  "calculate_vitals sample_dsp utc_isoformat (fresh\<lparr>present := True, not_present_for := 7\<rparr>)
      1000 [70] None =
     Inr (fresh\<lparr>epoch := Some 1000, heart_rates := [Fin 70],
                combined_measurements := [sample_measurement 70 1000],
                iteration_count := 1, present := True, not_present_for := 7\<rparr>)"
  using calculate_vitals_independent_of_presence
          [where pipeline = sample_dsp and conv = utc_isoformat and s = fresh and p = True
             and n = 7 and ep = 1000 and ?signal1.0 = "[70]" and ?signal2.0 = None]
  by (simp add: calculate_vitals_fresh_70)

end
